(* ===== verification/Prelude.thy ===== *)
theory Prelude
  imports Main "HOL-Library.Word"
begin

text \<open>
  What every component of the development shares: the ways a C execution can go wrong
  (a \<open>fault\<close>), the sequencing of fallible steps, C's 32-bit \<open>int\<close>, and the named
  collections the component proofs draw on.

  A C function that may abort or run into undefined behaviour is a function into
  \<open>fault + 'a\<close>: \<open>Inl f\<close> is the fault it runs into and \<open>Inr x\<close> its normal outcome.
  A source-level error return (\<open>-1\<close> with \<open>errno\<close> set, a positive error number) is a
  normal outcome and is part of \<open>x\<close>.
\<close>

named_theorems exec_simps \<open>rules that run the model on symbolic or concrete states\<close>

named_theorems fault_iff \<open>when a sequence of steps returns normally\<close>

subsection \<open>Faults\<close>

datatype fault =
    Abort        \<comment> \<open>a failed \<open>assert\<close>, \<open>frm_assert\<close>, \<open>nn_assert\<close> or \<open>errno_assert\<close>\<close>
  | NullDeref    \<comment> \<open>a NULL pointer is dereferenced\<close>
  | WildDeref    \<comment> \<open>a sentinel such as \<open>(void *) -1\<close> is dereferenced\<close>
  | OutOfBounds  \<comment> \<open>an access outside the allocated block\<close>
  | UseAfterFree \<comment> \<open>an access through a pointer to freed or never allocated memory\<close>
  | UninitRead   \<comment> \<open>an indeterminate value is read from allocated memory\<close>
  | IntOverflow  \<comment> \<open>a signed \<open>int\<close> computation leaves its range\<close>
  | Deadlock     \<comment> \<open>a mutex is locked by the thread that already holds it\<close>
  | BadUnlock    \<comment> \<open>a mutex is unlocked by a thread that does not hold it\<close>
  | Hang         \<comment> \<open>a loop that never ends\<close>

subsection \<open>Sequencing\<close>

definition rbind :: "fault + 'a \<Rightarrow> ('a \<Rightarrow> fault + 'b) \<Rightarrow> fault + 'b" where
  "rbind m f = (case m of Inl e \<Rightarrow> Inl e | Inr x \<Rightarrow> f x)"

lemma rbind_Inl [simp, exec_simps]: "rbind (Inl e) f = Inl e"
  by (simp add: rbind_def)

lemma rbind_Inr [simp, exec_simps]: "rbind (Inr x) f = f x"
  by (simp add: rbind_def)

lemma rbind_cong [fundef_cong]:
  "m = n \<Longrightarrow> (\<And>x. n = Inr x \<Longrightarrow> f x = g x) \<Longrightarrow> rbind m f = rbind n g"
  by (auto simp: rbind_def split: sum.splits)

lemma rbind_eq_Inr [fault_iff]: "rbind m f = Inr y \<longleftrightarrow> (\<exists>x. m = Inr x \<and> f x = Inr y)"
  by (auto simp: rbind_def split: sum.splits)

lemma rbind_eq_Inl: "rbind m f = Inl e \<longleftrightarrow> m = Inl e \<or> (\<exists>x. m = Inr x \<and> f x = Inl e)"
  by (auto simp: rbind_def split: sum.splits)

lemma rbind_assoc: "rbind (rbind m f) g = rbind m (\<lambda>x. rbind (f x) g)"
  by (auto simp: rbind_def split: sum.splits)

lemma rbind_Inr_right: "rbind m Inr = m"
  by (cases m) simp_all

text \<open>An assertion of the source: a failed one ends the process.\<close>

definition assert_that :: "bool \<Rightarrow> fault + unit" where
  "assert_that b = (if b then Inr () else Inl Abort)"

lemma assert_that_simps [simp, exec_simps]:
  "assert_that True = Inr ()" "assert_that False = Inl Abort"
  by (simp_all add: assert_that_def)

lemma assert_that_eq_Inr [fault_iff]: "assert_that b = Inr u \<longleftrightarrow> b"
  by (simp add: assert_that_def)

subsection \<open>Loops over an index\<close>

text \<open>
  A loop \<open>for (i = ...; i < n; i++)\<close> is proved from its end: the claim holds once \<open>i\<close> has
  reached \<open>n\<close>, and it holds at \<open>i\<close> when it holds at \<open>i + 1\<close>.
\<close>

lemma index_induct [case_names past inside]:
  assumes "\<And>i. n \<le> i \<Longrightarrow> P i" and "\<And>i. i < n \<Longrightarrow> P (Suc i) \<Longrightarrow> P i"
  shows "P i"
  using assms by (induction "n - i" arbitrary: i) (force, metis Suc_diff_Suc zero_less_Suc zero_less_diff diff_Suc_1)

subsection \<open>C's int\<close>

text \<open>
  \<open>int\<close> has 32 bits on every platform the build files name. A result outside
  its range is undefined behaviour, so it is the fault \<open>IntOverflow\<close>.
\<close>

definition INT_MAX :: int where
  "INT_MAX = 2147483647"

definition c_int :: "int \<Rightarrow> fault + int" where
  "c_int x = (if - INT_MAX - 1 \<le> x \<and> x \<le> INT_MAX then Inr x else Inl IntOverflow)"

lemma c_int_in_range [simp]: "- INT_MAX - 1 \<le> x \<Longrightarrow> x \<le> INT_MAX \<Longrightarrow> c_int x = Inr x"
  by (simp add: c_int_def)

lemma c_int_eq_Inr [fault_iff]:
  "c_int x = Inr y \<longleftrightarrow> y = x \<and> - INT_MAX - 1 \<le> x \<and> x \<le> INT_MAX"
  by (auto simp: c_int_def)

lemma INT_MAX_pos [simp]: "0 < INT_MAX" "0 \<le> INT_MAX"
  by (simp_all add: INT_MAX_def)

end
