(* ===== verification/Parr.thy ===== *)
theory Parr
  imports Prelude
begin

text \<open>
  The pointer array of \<open>utils/parr.h\<close> and \<open>utils/parr.c\<close>: a growable block of slots, each
  a pointer or the sentinel \<open>FSOCK_PARR_EMPTY\<close>. The library keeps its sockets, the
  binds of a socket and the connections of a socket or bind in such arrays, and hands
  the slot number out as the identifier of the socket.

  \<open>realloc\<close> is the parameter \<open>alloc\<close>: it says whether a request of so many bytes succeeds.
  Slots beyond what was ever written are \<open>Uninit\<close>: reading one is a fault.
\<close>

subsection \<open>Data\<close>

datatype 'a cell = Uninit | Empty | Elem 'a

record 'a parr =
  pa_elems :: "'a cell list option"   \<comment> \<open>the block, \<open>None\<close> for NULL\<close>
  pa_last :: int
  pa_capacity :: int
  pa_increment :: int

definition fsock_parr_init :: "int \<Rightarrow> 'a parr" where
  "fsock_parr_init inc = \<lparr>pa_elems = None, pa_last = 0, pa_capacity = 0, pa_increment = inc\<rparr>"

text \<open>Reading and writing \<open>self->elems[i]\<close>.\<close>

definition parr_read :: "'a parr \<Rightarrow> int \<Rightarrow> fault + 'a cell" where
  "parr_read p i =
     (case pa_elems p of
        None \<Rightarrow> Inl NullDeref
      | Some xs \<Rightarrow>
          if 0 \<le> i \<and> i < int (length xs)
          then (if xs ! nat i = Uninit then Inl UninitRead else Inr (xs ! nat i))
          else Inl OutOfBounds)"

definition parr_write :: "'a parr \<Rightarrow> int \<Rightarrow> 'a cell \<Rightarrow> fault + 'a parr" where
  "parr_write p i c =
     (case pa_elems p of
        None \<Rightarrow> Inl NullDeref
      | Some xs \<Rightarrow>
          if 0 \<le> i \<and> i < int (length xs)
          then Inr (p\<lparr>pa_elems := Some (xs[nat i := c])\<rparr>)
          else Inl OutOfBounds)"

subsection \<open>Size\<close>

function parr_count :: "'a parr \<Rightarrow> int \<Rightarrow> int \<Rightarrow> fault + int" where
  "parr_count p i len =
     (if i < pa_last p
      then rbind (parr_read p i)
             (\<lambda>c. parr_count p (i + 1) (if c \<noteq> Empty then len + 1 else len))
      else Inr len)"
  by pat_completeness auto
termination
  by (relation "measure (\<lambda>(p, i, len). nat (pa_last p - i))") auto

declare parr_count.simps [simp del]

definition fsock_parr_size :: "'a parr \<Rightarrow> fault + int" where
  "fsock_parr_size p = (if pa_capacity p = 0 then Inr 0 else parr_count p 0 0)"

function parr_all_empty :: "'a parr \<Rightarrow> int \<Rightarrow> fault + bool" where
  "parr_all_empty p i =
     (if i < pa_last p
      then rbind (parr_read p i)
             (\<lambda>c. if c \<noteq> Empty then Inr False else parr_all_empty p (i + 1))
      else Inr True)"
  by pat_completeness auto
termination
  by (relation "measure (\<lambda>(p, i). nat (pa_last p - i))") auto

declare parr_all_empty.simps [simp del]

definition fsock_parr_empty :: "'a parr \<Rightarrow> fault + bool" where
  "fsock_parr_empty p = parr_all_empty p 0"

text \<open>The freed block's pointer, which the array keeps, is not modelled: every caller drops the array or initialises it again.\<close>

definition fsock_parr_term :: "'a parr \<Rightarrow> fault + unit" where
  "fsock_parr_term p = rbind (fsock_parr_size p) (\<lambda>n. assert_that (n = 0))"

subsection \<open>Growing and inserting\<close>

text \<open>
  The request is computed in \<open>size_t\<close> (64 bits) from an \<open>int\<close> sum; \<open>realloc\<close> keeps the
  old contents up to the smaller of the two sizes. The result's second part is the
  return value, 0 or \<open>ENOMEM\<close>.
\<close>

definition parr_allocsz :: "int \<Rightarrow> 64 word" where
  "parr_allocsz n = 8 * word_of_int n"

definition parr_resize :: "'a cell list option \<Rightarrow> nat \<Rightarrow> 'a cell list" where
  "parr_resize b n =
     (let xs = (case b of None \<Rightarrow> [] | Some xs \<Rightarrow> xs)
      in take n xs @ replicate (n - length xs) Uninit)"

datatype parr_rc = OK | ENOMEM_rc

definition fsock_parr_realloc ::
  "(64 word \<Rightarrow> bool) \<Rightarrow> 'a parr \<Rightarrow> int \<Rightarrow> fault + (parr_rc \<times> 'a parr)" where
  "fsock_parr_realloc alloc p inc =
     rbind (c_int (pa_capacity p + inc)) (\<lambda>n.
       if \<not> alloc (parr_allocsz n) then Inr (ENOMEM_rc, p)
       else Inr (OK, p\<lparr>pa_capacity := n,
                      pa_elems := Some (parr_resize (pa_elems p) (unat (parr_allocsz n) div 8))\<rparr>))"

function parr_find_slot :: "'a parr \<Rightarrow> int \<Rightarrow> fault + int" where
  "parr_find_slot p ret =
     (if ret < pa_last p
      then rbind (parr_read p ret)
             (\<lambda>c. if c = Empty then Inr ret else parr_find_slot p (ret + 1))
      else Inr ret)"
  by pat_completeness auto
termination
  by (relation "measure (\<lambda>(p, ret). nat (pa_last p - ret))") auto

declare parr_find_slot.simps [simp del]

text \<open>\<open>-1\<close> is the error return (\<open>errno\<close> is then \<open>ENOMEM\<close>, the only error).\<close>

definition fsock_parr_insert ::
  "(64 word \<Rightarrow> bool) \<Rightarrow> 'a parr \<Rightarrow> 'a \<Rightarrow> fault + (int \<times> 'a parr)" where
  "fsock_parr_insert alloc p e =
     rbind (assert_that (pa_last p \<ge> 0)) (\<lambda>_.
     rbind (assert_that (pa_capacity p = 0 \<or> pa_last p < pa_capacity p)) (\<lambda>_.
     rbind (if pa_capacity p = 0 \<or> pa_last p = pa_capacity p - 1
            then fsock_parr_realloc alloc p (pa_increment p) else Inr (OK, p)) (\<lambda>(rc, p1).
     if rc \<noteq> OK then Inr (-1, p1)
     else
     rbind (parr_find_slot p1 0) (\<lambda>ret.
     rbind (parr_write p1 ret (Elem e)) (\<lambda>p2.
     rbind (c_int (pa_last p2 + 1)) (\<lambda>l.
     Inr (ret, p2\<lparr>pa_last := l\<rparr>)))))))"

subsection \<open>Clearing and shrinking\<close>

function parr_tail_empty :: "'a parr \<Rightarrow> int \<Rightarrow> int \<Rightarrow> fault + bool" where
  "parr_tail_empty p diff i =
     (if i < diff
      then rbind (parr_read p (pa_last p - 1 - i))
             (\<lambda>c. if c \<noteq> Empty then Inr False else parr_tail_empty p diff (i + 1))
      else Inr True)"
  by pat_completeness auto
termination
  by (relation "measure (\<lambda>(p, diff, i). nat (diff - i))") auto

declare parr_tail_empty.simps [simp del]

definition fsock_parr_can_shrink :: "'a parr \<Rightarrow> fault + bool" where
  "fsock_parr_can_shrink p =
     parr_tail_empty p (pa_last p - (pa_capacity p - pa_increment p)) 0"

text \<open>
  The loop of \<open>fsock_parr_clear\<close>. It ends only because each round lowers the capacity,
  which the code does not check, so the loop is a partial function: \<open>None\<close> is a loop that
  never ends.
\<close>

partial_function (option) parr_shrink_loop ::
  "(64 word \<Rightarrow> bool) \<Rightarrow> 'a parr \<Rightarrow> (fault + (int \<times> 'a parr)) option" where
  "parr_shrink_loop alloc p =
     (case fsock_parr_can_shrink p of
        Inl f \<Rightarrow> Some (Inl f)
      | Inr b \<Rightarrow>
          if \<not> b then Some (Inr (0, p))
          else if pa_capacity p = pa_increment p then
            (case fsock_parr_term p of
               Inl f \<Rightarrow> Some (Inl f)
             | Inr u \<Rightarrow> Some (Inr (0, fsock_parr_init (pa_increment p))))
          else
            (case fsock_parr_realloc alloc p (- pa_increment p) of
               Inl f \<Rightarrow> Some (Inl f)
             | Inr (rc, p1) \<Rightarrow>
                 if rc \<noteq> OK then Some (Inr (-1, p1)) else parr_shrink_loop alloc p1))"

definition fsock_parr_clear ::
  "(64 word \<Rightarrow> bool) \<Rightarrow> 'a parr \<Rightarrow> int \<Rightarrow> fault + (int \<times> 'a parr)" where
  "fsock_parr_clear alloc p index =
     rbind (assert_that (index \<ge> 0 \<and> index < pa_last p)) (\<lambda>_.
     rbind (parr_write p index Empty) (\<lambda>p1.
     case parr_shrink_loop alloc p1 of None \<Rightarrow> Inl Hang | Some r \<Rightarrow> r))"

subsection \<open>Iteration\<close>

text \<open>
  \<open>begin\<close> and \<open>next\<close> return a pointer (\<open>None\<close> for NULL, which is also what
  \<open>fsock_parr_end\<close> returns) and write the slot number through \<open>index\<close>.
\<close>

definition fsock_parr_end :: "'a parr \<Rightarrow> 'a option" where
  "fsock_parr_end p = None"

function parr_begin_loop :: "'a parr \<Rightarrow> int \<Rightarrow> fault + ('a option \<times> int)" where
  "parr_begin_loop p i =
     (if i < pa_last p
      then rbind (parr_read p i)
             (\<lambda>c. case c of Elem e \<Rightarrow> Inr (Some e, i) | _ \<Rightarrow> parr_begin_loop p (i + 1))
      else Inr (None, -1))"
  by pat_completeness auto
termination
  by (relation "measure (\<lambda>(p, i). nat (pa_last p - i))") auto

declare parr_begin_loop.simps [simp del]

definition fsock_parr_begin :: "'a parr \<Rightarrow> fault + ('a option \<times> int)" where
  "fsock_parr_begin p =
     (if pa_last p = 0 \<or> pa_elems p = None then Inr (None, -1) else parr_begin_loop p 0)"

function parr_next_loop :: "'a parr \<Rightarrow> int \<Rightarrow> int \<Rightarrow> fault + ('a option \<times> int)" where
  "parr_next_loop p i index =
     (if i < pa_last p
      then rbind (parr_read p i)
             (\<lambda>c. case c of Elem e \<Rightarrow> Inr (Some e, index + 1)
                     | _ \<Rightarrow> parr_next_loop p (i + 1) (index + 1))
      else Inr (None, index))"
  by pat_completeness auto
termination
  by (relation "measure (\<lambda>(p, i, index). nat (pa_last p - i))") auto

declare parr_next_loop.simps [simp del]

definition fsock_parr_next :: "'a parr \<Rightarrow> int \<Rightarrow> fault + ('a option \<times> int)" where
  "fsock_parr_next p index =
     rbind (assert_that (index \<ge> 0)) (\<lambda>_.
     if pa_last p = 0 \<or> index = pa_last p - 1 then Inr (None, index)
     else parr_next_loop p (index + 1) index)"

subsection \<open>What the array holds\<close>

text \<open>
  \<open>parr_rep ss p\<close>: the array \<open>p\<close> stands for the slots \<open>ss\<close>, where \<open>None\<close> is an empty slot.
  Every slot below \<open>last\<close> has been written and lies inside the block.
\<close>

definition parr_block :: "'a parr \<Rightarrow> 'a cell list" where
  "parr_block p = (case pa_elems p of None \<Rightarrow> [] | Some xs \<Rightarrow> xs)"

fun slot_cell :: "'a option \<Rightarrow> 'a cell" where
  "slot_cell None = Empty"
| "slot_cell (Some e) = Elem e"

definition parr_rep :: "'a option list \<Rightarrow> 'a parr \<Rightarrow> bool" where
  "parr_rep ss p \<longleftrightarrow>
     0 < pa_increment p \<and> pa_last p = int (length ss) \<and>
     pa_capacity p = int (length (parr_block p)) \<and>
     (pa_elems p = None \<longleftrightarrow> pa_capacity p = 0) \<and>
     length ss \<le> length (parr_block p) \<and>
     take (length ss) (parr_block p) = map slot_cell ss"

lemma slot_cell_simps [simp]:
  "slot_cell s \<noteq> Uninit" "slot_cell s = Empty \<longleftrightarrow> s = None" "slot_cell s = Elem e \<longleftrightarrow> s = Some e"
  "Empty = slot_cell s \<longleftrightarrow> s = None" "Elem e = slot_cell s \<longleftrightarrow> Some e = s"
  by (cases s; auto)+

lemma parr_rep_nth: 
  assumes "parr_rep ss p" "i < length ss"
  shows "parr_block p ! i = slot_cell (ss ! i)"
proof -
  have "take (length ss) (parr_block p) ! i = map slot_cell ss ! i"
    using assms by (simp add: parr_rep_def)
  then show ?thesis using assms(2) by simp
qed

lemma parr_read_block:
  "parr_read p i = (if pa_elems p = None then Inl NullDeref
     else if 0 \<le> i \<and> i < int (length (parr_block p))
       then (if parr_block p ! nat i = Uninit then Inl UninitRead else Inr (parr_block p ! nat i))
       else Inl OutOfBounds)"
  by (auto simp: parr_read_def parr_block_def split: option.splits)

lemma parr_read_rep [simp]:
  assumes "parr_rep ss p" "0 \<le> i" "i < int (length ss)"
  shows "parr_read p i = Inr (slot_cell (ss ! nat i))"
proof -
  have "pa_elems p \<noteq> None" using assms by (auto simp: parr_rep_def parr_block_def)
  moreover have "i < int (length (parr_block p))" using assms by (auto simp: parr_rep_def)
  moreover have "parr_block p ! nat i = slot_cell (ss ! nat i)"
    using assms by (intro parr_rep_nth) auto
  ultimately show ?thesis using assms(2) by (simp add: parr_read_block)
qed

lemma parr_rep_last: "parr_rep ss p \<Longrightarrow> pa_last p = int (length ss)"
  by (simp add: parr_rep_def)

text \<open>The occupied slots from slot \<open>i\<close> on, with their numbers: what an iteration visits.\<close>

definition live_from :: "nat \<Rightarrow> 'a option list \<Rightarrow> (nat \<times> 'a) list" where
  "live_from i ss = List.map_filter (\<lambda>j. map_option (Pair j) (ss ! j)) [i..<length ss]"

lemma live_from_end [simp]: "length ss \<le> i \<Longrightarrow> live_from i ss = []"
  by (simp add: live_from_def map_filter_simps)

lemma live_from_step:
  "i < length ss \<Longrightarrow> live_from i ss =
     (case ss ! i of None \<Rightarrow> live_from (Suc i) ss | Some e \<Rightarrow> (i, e) # live_from (Suc i) ss)"
  by (simp add: live_from_def upt_conv_Cons map_filter_simps split: option.splits)


lemma parr_count_rep:
  assumes "parr_rep ss p"
  shows "parr_count p (int i) n = Inr (n + int (length (live_from i ss)))"
proof (induction i arbitrary: n rule: index_induct [where n = "length ss"])
  case (past i)
  then show ?case by (subst parr_count.simps) (simp add: parr_rep_last [OF assms])
next
  case (inside i)
  then show ?case
    using inside(2)[of n] inside(2)[of "n + 1"] assms
    by (subst parr_count.simps)
      (simp add: parr_rep_last [OF assms] live_from_step add.commute split: option.splits)
qed

lemma parr_all_empty_rep:
  assumes "parr_rep ss p"
  shows "parr_all_empty p (int i) = Inr (live_from i ss = [])"
proof (induction i rule: index_induct [where n = "length ss"])
  case (past i)
  then show ?case by (subst parr_all_empty.simps) (simp add: parr_rep_last [OF assms])
next
  case (inside i)
  then show ?case
    using assms by (subst parr_all_empty.simps)
      (simp add: parr_rep_last [OF assms] live_from_step add.commute split: option.splits)
qed

lemma parr_rep_cap0: "parr_rep ss p \<Longrightarrow> pa_capacity p = 0 \<Longrightarrow> ss = []"
  by (auto simp: parr_rep_def parr_block_def)

lemma parr_size_rep: "parr_rep ss p \<Longrightarrow> fsock_parr_size p = Inr (int (length (live_from 0 ss)))"
  using parr_count_rep [of ss p 0 0] parr_rep_cap0 [of ss p]
  by (auto simp: fsock_parr_size_def)

lemma parr_empty_rep: "parr_rep ss p \<Longrightarrow> fsock_parr_empty p = Inr (live_from 0 ss = [])"
  using parr_all_empty_rep [of ss p 0] by (simp add: fsock_parr_empty_def)

fun first_live :: "(nat \<times> 'a) list \<Rightarrow> int \<Rightarrow> 'a option \<times> int" where
  "first_live [] j = (None, j)"
| "first_live ((i, e) # ls) j = (Some e, int i)"

lemma parr_begin_loop_rep:
  assumes "parr_rep ss p"
  shows "parr_begin_loop p (int i) = Inr (first_live (live_from i ss) (-1))"
proof (induction i rule: index_induct [where n = "length ss"])
  case (past i)
  then show ?case by (subst parr_begin_loop.simps) (simp add: parr_rep_last [OF assms])
next
  case (inside i)
  then show ?case
    using assms by (subst parr_begin_loop.simps)
      (simp add: parr_rep_last [OF assms] live_from_step add.commute split: option.splits)
qed

lemma parr_begin_rep: "parr_rep ss p \<Longrightarrow> fsock_parr_begin p = Inr (first_live (live_from 0 ss) (-1))"
  using parr_begin_loop_rep [of ss p 0] parr_rep_cap0 [of ss p] parr_rep_last [of ss p]
  by (auto simp: fsock_parr_begin_def parr_rep_def)

lemma parr_next_loop_rep:
  assumes "parr_rep ss p"
  shows "i \<le> length ss \<Longrightarrow> 0 < i \<Longrightarrow> parr_next_loop p (int i) (int i - 1) = Inr (first_live (live_from i ss) (int (length ss) - 1))"
proof (induction i rule: index_induct [where n = "length ss"])
  case (past i)
  then show ?case by (subst parr_next_loop.simps) (simp add: parr_rep_last [OF assms])
next
  case (inside i)
  then show ?case
    using assms by (subst parr_next_loop.simps)
      (simp add: parr_rep_last [OF assms] live_from_step add.commute split: option.splits)
qed

lemma parr_next_rep:
  assumes "parr_rep ss p" "i < length ss"
  shows "fsock_parr_next p (int i) = Inr (first_live (live_from (Suc i) ss) (int (length ss) - 1))"
  using parr_next_loop_rep [OF assms(1), of "Suc i"] assms(2)
  by (auto simp: fsock_parr_next_def parr_rep_last [OF assms(1)] algebra_simps)



lemma parr_next_loop_bound:
  "parr_next_loop p i index = Inr (Some e, j) \<Longrightarrow> index < j \<and> i < pa_last p"
proof (induction p i index rule: parr_next_loop.induct)
  case (1 p i index)
  then show ?case
    by (cases "parr_read p i"; cases "projr (parr_read p i)")
      (auto simp: parr_next_loop.simps [of p i index] split: if_splits)
qed

lemma parr_next_bound:
  assumes "fsock_parr_next p index = Inr (Some e, j)"
  shows "index < j \<and> index < pa_last p"
  using assms by (auto simp: fsock_parr_next_def fault_iff split: if_splits dest: parr_next_loop_bound)

text \<open>
  The loop \<open>for (ptr = begin; ptr != end; ptr = next)\<close> over an array the body does not
  change. The body says whether the loop goes on (\<open>break\<close> is \<open>False\<close>).
\<close>

function parr_fold_from ::
  "(int \<Rightarrow> 'a \<Rightarrow> 's \<Rightarrow> fault + (bool \<times> 's)) \<Rightarrow> 'a parr \<Rightarrow> 'a option \<times> int \<Rightarrow> 's \<Rightarrow> fault + 's" where
  "parr_fold_from body p it s =
     (case it of
        (None, index) \<Rightarrow> Inr s
      | (Some e, index) \<Rightarrow>
          rbind (body index e s) (\<lambda>(go_on, s1).
            if \<not> go_on then Inr s1
            else rbind (fsock_parr_next p index) (\<lambda>it1. parr_fold_from body p it1 s1)))"
  by pat_completeness auto
termination
proof (relation "measure (\<lambda>(body, p, it, s).
    case it of (None, index) \<Rightarrow> 0 | (Some e, index) \<Rightarrow> Suc (nat (pa_last p - index)))", goal_cases)
  case (2 body p it s a index e x go_on s1 it1)
  then show ?case
    by (cases it1; cases "fst it1") (auto dest!: parr_next_bound)
qed simp

declare parr_fold_from.simps [simp del]

definition parr_fold ::
  "(int \<Rightarrow> 'a \<Rightarrow> 's \<Rightarrow> fault + (bool \<times> 's)) \<Rightarrow> 'a parr \<Rightarrow> 's \<Rightarrow> fault + 's" where
  "parr_fold body p s = rbind (fsock_parr_begin p) (\<lambda>it. parr_fold_from body p it s)"

text \<open>The same loop over the list of occupied slots: the iteration's specification.\<close>

fun fold_live ::
  "(int \<Rightarrow> 'a \<Rightarrow> 's \<Rightarrow> fault + (bool \<times> 's)) \<Rightarrow> (nat \<times> 'a) list \<Rightarrow> 's \<Rightarrow> fault + 's" where
  "fold_live body [] s = Inr s"
| "fold_live body ((i, e) # ls) s =
     rbind (body (int i) e s) (\<lambda>(go_on, s1). if \<not> go_on then Inr s1 else fold_live body ls s1)"

lemma parr_fold_from_rep:
  assumes "parr_rep ss p"
  shows "parr_fold_from body p (first_live (live_from i ss) j) s = fold_live body (live_from i ss) s"
proof (induction i arbitrary: s j rule: index_induct [where n = "length ss"])
  case (past i)
  then show ?case by (simp add: parr_fold_from.simps)
next
  case (inside i)
  show ?case
  proof (cases "ss ! i")
    case None
    with inside show ?thesis by (simp add: live_from_step)
  next
    case (Some e)
    with inside show ?thesis
      by (simp add: live_from_step parr_fold_from.simps [of body p "(Some e, _)"] parr_next_rep [OF assms]
          cong: if_cong)
  qed
qed

lemma parr_fold_rep: "parr_rep ss p \<Longrightarrow> parr_fold body p s = fold_live body (live_from 0 ss) s"
  using parr_fold_from_rep [of ss p body 0] by (simp add: parr_fold_def parr_begin_rep)


subsection \<open>Insertion\<close>

lemma unat_parr_allocsz: "0 \<le> n \<Longrightarrow> n \<le> INT_MAX \<Longrightarrow> unat (parr_allocsz n) div 8 = nat n"
proof -
  assume n: "0 \<le> n" "n \<le> INT_MAX"
  have "uint (8 * word_of_int n :: 64 word) = (8 * n) mod 2 ^ 64"
    by (simp add: uint_word_ariths take_bit_eq_mod mod_mult_right_eq uint_word_of_int)
  also have "\<dots> = 8 * n"
    using n by (intro mod_pos_pos_trivial) (auto simp: INT_MAX_def)
  finally have "unat (parr_allocsz n) = nat (8 * n)"
    by (simp add: parr_allocsz_def unat_eq_nat_uint)
  then show ?thesis using n by (simp add: nat_mult_distrib)
qed

text \<open>
  \<open>parr_dense xs p\<close>: the array holds exactly \<open>xs\<close>, in slots 0, 1, ..., its capacity is the
  one insertions alone lead to, and the rest of the block was never written.
\<close>

definition parr_dense :: "'a list \<Rightarrow> 'a parr \<Rightarrow> bool" where
  "parr_dense xs p \<longleftrightarrow>
     parr_rep (map Some xs) p \<and> 2 \<le> pa_increment p \<and>
     pa_capacity p = (if pa_elems p = None then 0 else pa_increment p * (int (length xs) div pa_increment p + 1)) \<and>
     drop (length xs) (parr_block p) = replicate (length (parr_block p) - length xs) Uninit"

lemma parr_find_slot_full:
  assumes "parr_rep ss p"
  shows "i \<le> length ss \<Longrightarrow> (\<forall>j. i \<le> j \<and> j < length ss \<longrightarrow> ss ! j \<noteq> None) \<Longrightarrow> parr_find_slot p (int i) = Inr (int (length ss))"
proof (induction i rule: index_induct [where n = "length ss"])
  case (past i)
  then show ?case by (subst parr_find_slot.simps) (simp add: parr_rep_last [OF assms])
next
  case (inside i)
  then show ?case
    using assms by (subst parr_find_slot.simps)
      (simp add: parr_rep_last [OF assms] add.commute del: not_None_eq)
qed

lemma parr_find_slot_hole:
  assumes "parr_rep ss p" "k < length ss" "ss ! k = None"
  shows "i \<le> k \<Longrightarrow> (\<forall>j. i \<le> j \<and> j < k \<longrightarrow> ss ! j \<noteq> None) \<Longrightarrow> parr_find_slot p (int i) = Inr (int k)"
proof (induction i rule: index_induct [where n = "k"])
  case (past i)
  then show ?case using assms by (subst parr_find_slot.simps) (simp add: parr_rep_last [OF assms(1)])
next
  case (inside i)
  then show ?case
    using assms by (subst parr_find_slot.simps)
      (simp add: parr_rep_last [OF assms(1)] add.commute del: not_None_eq)
qed

definition parr_must_grow :: "'a parr \<Rightarrow> bool" where
  "parr_must_grow p \<longleftrightarrow> pa_capacity p = 0 \<or> pa_last p = pa_capacity p - 1"

definition parr_can_grow :: "(64 word \<Rightarrow> bool) \<Rightarrow> 'a parr \<Rightarrow> bool" where
  "parr_can_grow alloc p \<longleftrightarrow>
     (parr_must_grow p \<longrightarrow>
        pa_capacity p + pa_increment p \<le> INT_MAX \<and> alloc (parr_allocsz (pa_capacity p + pa_increment p)))"

lemma parr_rep_cap: "parr_rep ss p \<Longrightarrow> pa_capacity p = int (length (parr_block p)) \<and> 0 \<le> pa_capacity p"
  by (simp add: parr_rep_def)

lemma parr_realloc_grow:
  assumes "parr_rep ss p" "0 < n" "pa_capacity p + n \<le> INT_MAX" "alloc (parr_allocsz (pa_capacity p + n))"
  shows "fsock_parr_realloc alloc p n =
     Inr (OK, p\<lparr>pa_capacity := pa_capacity p + n,
               pa_elems := Some (parr_block p @ replicate (nat n) Uninit)\<rparr>)"
  using assms parr_rep_cap [OF assms(1)] unat_parr_allocsz [of "pa_capacity p + n"]
  by (simp add: fsock_parr_realloc_def parr_resize_def parr_block_def nat_add_distrib INT_MAX_def
      split: option.splits)

lemma parr_insert_at:
  assumes rep: "parr_rep ss p" and room: "pa_capacity p = 0 \<or> pa_last p < pa_capacity p"
    and grow: "parr_can_grow alloc p" and inc: "2 \<le> pa_increment p"
    and bound: "pa_last p < INT_MAX"
    and slot: "\<And>q. parr_rep ss q \<Longrightarrow> parr_find_slot q 0 = Inr (int r)" and r: "r \<le> length ss"
  shows "\<exists>cells. fsock_parr_insert alloc p e =
           Inr (int r, p\<lparr>pa_elems := Some (cells[r := Elem e]), pa_capacity := int (length cells),
                        pa_last := pa_last p + 1\<rparr>)
         \<and> length ss + 1 < length cells
         \<and> cells = parr_block p @ (if parr_must_grow p then replicate (nat (pa_increment p)) Uninit else [])"
proof -
  note cap = parr_rep_cap [OF rep]
  note last = parr_rep_last [OF rep]
  define cells where "cells = parr_block p @ (if parr_must_grow p then replicate (nat (pa_increment p)) Uninit else [])"
  define q where "q = p\<lparr>pa_capacity := int (length cells), pa_elems := Some cells\<rparr>"
  have ne: "pa_elems p \<noteq> None" if "\<not> parr_must_grow p"
    using rep that by (auto simp: parr_rep_def parr_must_grow_def)
  have resized: "(if pa_capacity p = 0 \<or> pa_last p = pa_capacity p - 1
            then fsock_parr_realloc alloc p (pa_increment p) else Inr (OK, p)) = Inr (OK, q)"
  proof (cases "parr_must_grow p")
    case True
    then show ?thesis
      using parr_realloc_grow [OF rep, of "pa_increment p" alloc] grow inc cap
      by (simp add: parr_must_grow_def parr_can_grow_def q_def cells_def)
  next
    case False
    then have "q = p" using ne cap
      by (cases p) (auto simp: q_def cells_def parr_block_def)
    with False show ?thesis by (simp add: parr_must_grow_def)
  qed
  have len: "length ss + 1 < length cells"
    using room cap last inc rep by (auto simp: cells_def parr_must_grow_def parr_rep_def)
  have "parr_rep ss q"
    using rep len by (auto simp: parr_rep_def q_def parr_block_def cells_def)
  then have find: "parr_find_slot q 0 = Inr (int r)" by (rule slot)
  have "fsock_parr_insert alloc p e =
      Inr (int r, p\<lparr>pa_elems := Some (cells[r := Elem e]), pa_capacity := int (length cells), pa_last := pa_last p + 1\<rparr>)"
    unfolding fsock_parr_insert_def
    using room last resized find r len bound
    by (simp add: parr_write_def q_def INT_MAX_def)
  with len show ?thesis by (auto simp: cells_def)
qed

lemma parr_dense_room: "parr_dense xs p \<Longrightarrow> pa_capacity p = 0 \<or> pa_last p < pa_capacity p"
proof -
  assume d: "parr_dense xs p"
  then have "pa_last p = int (length xs)" and inc: "2 \<le> pa_increment p"
    by (auto simp: parr_dense_def parr_rep_def)
  moreover have "int (length xs) < pa_increment p * (int (length xs) div pa_increment p + 1)"
  proof -
    have "int (length xs) = pa_increment p * (int (length xs) div pa_increment p) + int (length xs) mod pa_increment p"
      by simp
    moreover have "int (length xs) mod pa_increment p < pa_increment p" using inc by simp
    ultimately show ?thesis by (simp only: distrib_left mult_1_right)
  qed
  ultimately show ?thesis using d by (auto simp: parr_dense_def)
qed

lemma div_succ_block:
  fixes n b :: int
  assumes "2 \<le> b" "0 \<le> n"
  shows "b * ((n + 1) div b + 1) = b * (n div b + 1) + (if n = b * (n div b + 1) - 1 then b else 0)"
proof (cases "n = b * (n div b + 1) - 1")
  case True
  then have "n + 1 = b * (n div b + 1)" by simp
  then have "(n + 1) div b = n div b + 1" using assms by simp
  with True show ?thesis by (simp add: algebra_simps)
next
  case False
  define q r where "q = n div b" and "r = n mod b"
  have r: "0 \<le> r" "r < b" and n: "n = b * q + r"
    using assms by (simp_all add: q_def r_def)
  have "n \<noteq> b * q + b - 1" using False by (simp add: q_def distrib_left)
  then have "r + 1 \<noteq> b" using n by linarith
  with r have "(r + 1) div b = 0" by simp
  then have "(n + 1) div b = q"
    using assms n div_mult_self2 [of b "r + 1" q] by (simp add: ac_simps)
  then have "(n + 1) div b = n div b" by (simp add: q_def)
  with False show ?thesis by simp
qed

lemma parr_insert_dense:
  assumes d: "parr_dense xs p" and grow: "parr_can_grow alloc p" and bound: "pa_last p < INT_MAX"
  shows "\<exists>q. fsock_parr_insert alloc p e = Inr (int (length xs), q) \<and> parr_dense (xs @ [e]) q
           \<and> pa_increment q = pa_increment p"
proof -
  let ?ss = "map Some xs"
  have rep: "parr_rep ?ss p" and inc: "2 \<le> pa_increment p" using d by (auto simp: parr_dense_def)
  obtain cells where ins: "fsock_parr_insert alloc p e =
           Inr (int (length xs), p\<lparr>pa_elems := Some (cells[length xs := Elem e]), pa_capacity := int (length cells),
                        pa_last := pa_last p + 1\<rparr>)"
      and len: "length xs + 1 < length cells"
      and cells: "cells = parr_block p @ (if parr_must_grow p then replicate (nat (pa_increment p)) Uninit else [])"
    using parr_insert_at [OF rep parr_dense_room [OF d] grow inc bound, of "length xs" e]
      parr_find_slot_full [of ?ss _ 0] by auto
  let ?q = "p\<lparr>pa_elems := Some (cells[length xs := Elem e]), pa_capacity := int (length cells), pa_last := pa_last p + 1\<rparr>"
  have le: "length xs \<le> length (parr_block p)" using rep by (simp add: parr_rep_def)
  have tk: "take (length xs) cells = map Elem xs"
    using rep le by (simp add: cells parr_rep_def comp_def)
  have dr: "drop (length xs) cells = replicate (length cells - length xs) Uninit"
    using d le by (auto simp: cells parr_dense_def replicate_add [symmetric])
  have tk1: "take (length xs + 1) (cells[length xs := Elem e]) = map Elem xs @ [Elem e]"
    using len tk by (simp add: take_Suc_conv_app_nth)
  have rep': "parr_rep (map Some (xs @ [e])) ?q"
    using rep len tk1 by (auto simp: parr_rep_def parr_block_def comp_def)
  have cap0: "pa_elems p = None \<longleftrightarrow> pa_capacity p = 0" "pa_capacity p = int (length (parr_block p))"
    using rep by (auto simp: parr_rep_def)
  have last: "pa_last p = int (length xs)" using rep by (simp add: parr_rep_def)
  have cap: "int (length cells) = pa_increment p * (int (length xs + 1) div pa_increment p + 1)"
  proof (cases "pa_elems p = None")
    case True
    then have "xs = []" using rep cap0 by (auto simp: parr_rep_def)
    then show ?thesis using True cap0 inc by (simp add: cells parr_must_grow_def div_pos_pos_trivial)
  next
    case False
    then have "pa_capacity p = pa_increment p * (int (length xs) div pa_increment p + 1)"
      using d by (auto simp: parr_dense_def)
    then show ?thesis
      using False cap0 inc div_succ_block [of "pa_increment p" "int (length xs)"] last
      by (auto simp: cells parr_must_grow_def algebra_simps)
  qed
  have dr1: "drop (length xs + 1) (cells[length xs := Elem e]) = replicate (length cells - length (xs @ [e])) Uninit"
  proof -
    have "drop (length xs + 1) (cells[length xs := Elem e]) = drop 1 (drop (length xs) cells)"
      by simp
    then show ?thesis by (simp add: dr)
  qed
  have "parr_dense (xs @ [e]) ?q"
    using rep' inc cap dr1 by (simp add: parr_dense_def parr_block_def)
  with ins show ?thesis by auto
qed


lemma parr_insert_oom:
  assumes "parr_rep ss p" "pa_capacity p = 0 \<or> pa_last p < pa_capacity p" "parr_must_grow p"
    "pa_capacity p + pa_increment p \<le> INT_MAX" "\<not> alloc (parr_allocsz (pa_capacity p + pa_increment p))"
  shows "fsock_parr_insert alloc p e = Inr (-1, p)"
proof -
  from assms(1) have "0 \<le> pa_last p" "0 \<le> pa_capacity p" "0 < pa_increment p"
    by (auto simp: parr_rep_def)
  with assms(2-) show ?thesis
    by (simp add: fsock_parr_insert_def fsock_parr_realloc_def parr_must_grow_def INT_MAX_def)
qed

lemma parr_insert_full: "0 < pa_capacity p \<Longrightarrow> pa_capacity p \<le> pa_last p \<Longrightarrow> fsock_parr_insert alloc p e = Inl Abort"
  by (simp add: fsock_parr_insert_def)

subsection \<open>Clearing\<close>

lemma parr_read_nth:
  "parr_rep ss p \<Longrightarrow> i < length ss \<Longrightarrow> parr_read p (int i) = Inr (slot_cell (ss ! i))"
  by simp

lemma parr_rep_elems: "parr_rep ss p \<Longrightarrow> ss \<noteq> [] \<Longrightarrow> pa_elems p = Some (parr_block p)"
  by (cases "pa_elems p") (simp_all add: parr_rep_def parr_block_def)

lemma parr_write_clear:
  assumes "parr_rep ss p" "i < length ss"
  shows "parr_write p (int i) c = Inr (p\<lparr>pa_elems := Some ((parr_block p)[i := c])\<rparr>)"
proof -
  have "pa_elems p = Some (parr_block p)" using assms by (intro parr_rep_elems) auto
  moreover have "i < length (parr_block p)" using assms by (simp add: parr_rep_def)
  ultimately show ?thesis by (simp add: parr_write_def)
qed

lemma parr_rep_clear:
  assumes "parr_rep ss p" "i < length ss"
  shows "parr_rep (ss[i := None]) (p\<lparr>pa_elems := Some ((parr_block p)[i := Empty])\<rparr>)"
proof -
  have "parr_block p \<noteq> []" using assms by (auto simp: parr_rep_def)
  moreover have "take (length ss) ((parr_block p)[i := Empty]) = map slot_cell (ss[i := None])"
    using assms by (simp add: parr_rep_def take_update_swap map_update)
  ultimately show ?thesis using assms by (simp add: parr_rep_def parr_block_def)
qed

lemma parr_tail_empty_rep:
  assumes "parr_rep ss p" "d \<le> int (length ss)"
  shows "i \<le> length ss \<Longrightarrow> parr_tail_empty p d (int i) =
     Inr (\<forall>j. int (length ss) - d \<le> int j \<and> j < length ss - i \<longrightarrow> ss ! j = None)"
proof (induction i rule: index_induct [where n = "nat d"])
  case (past i)
  then show ?case by (subst parr_tail_empty.simps) auto
next
  case (inside i)
  then have "i < length ss" using assms(2) by auto
  then obtain k where k: "length ss = Suc (i + k)" using less_imp_Suc_add by blast
  have rd: "parr_read p (pa_last p - 1 - int i) = Inr (slot_cell (ss ! k))"
    using parr_read_nth [OF assms(1), of k] k by (simp add: parr_rep_last [OF assms(1)])
  have id: "int i < d" using inside(1) by simp
  have step: "parr_tail_empty p d (int i) =
      (if ss ! k \<noteq> None then Inr False else parr_tail_empty p d (int (Suc i)))"
    using id by (subst parr_tail_empty.simps) (simp add: rd add.commute)
  show ?case
  proof (cases "ss ! k = None")
    case True
    then show ?thesis using step inside(2) k by (auto simp: less_Suc_eq)
  next
    case False
    then show ?thesis using step k id by (auto intro!: exI [of _ k])
  qed
qed

lemma parr_can_shrink_rep:
  assumes "parr_rep ss p" "pa_increment p \<le> pa_capacity p"
  shows "fsock_parr_can_shrink p =
     Inr (\<forall>j < length ss. pa_capacity p - pa_increment p \<le> int j \<longrightarrow> ss ! j = None)"
  using parr_tail_empty_rep [OF assms(1), of "pa_last p - (pa_capacity p - pa_increment p)" 0] assms(2)
  by (auto simp: fsock_parr_can_shrink_def parr_rep_last [OF assms(1)])

lemma parr_can_shrink_overrun:
  assumes "pa_elems p = Some xs" "int (length xs) < pa_last p" "pa_capacity p - pa_increment p < pa_last p"
  shows "fsock_parr_can_shrink p = Inl OutOfBounds"
  using assms by (simp add: fsock_parr_can_shrink_def parr_tail_empty.simps [of _ _ 0] parr_read_def)


lemma parr_clear_unfold:
  assumes "parr_rep ss p" "i < length ss"
  shows "fsock_parr_clear alloc p (int i) =
    (case parr_shrink_loop alloc (p\<lparr>pa_elems := Some ((parr_block p)[i := Empty])\<rparr>) of
       None \<Rightarrow> Inl Hang | Some r \<Rightarrow> r)"
  using assms by (simp add: fsock_parr_clear_def parr_rep_last [OF assms(1)] parr_write_clear)

lemma parr_shrink_stops:
  assumes "parr_rep ss p" "pa_increment p \<le> pa_capacity p"
    and "\<exists>j < length ss. pa_capacity p - pa_increment p \<le> int j \<and> ss ! j \<noteq> None"
  shows "parr_shrink_loop alloc p = Some (Inr (0, p))"
  using assms by (subst parr_shrink_loop.simps) (auto simp: parr_can_shrink_rep)

lemma parr_shrink_resets:
  assumes "parr_rep ss p" "pa_capacity p = pa_increment p" "\<forall>j < length ss. ss ! j = None"
  shows "parr_shrink_loop alloc p = Some (Inr (0, fsock_parr_init (pa_increment p)))"
proof -
  have "live_from i ss = []" for i
    by (induction i rule: index_induct [where n = "length ss"]) (simp_all add: live_from_step assms(3))
  then have "fsock_parr_term p = Inr ()"
    by (simp add: fsock_parr_term_def parr_size_rep [OF assms(1)])
  then show ?thesis
    using assms by (subst parr_shrink_loop.simps) (simp add: parr_can_shrink_rep)
qed

lemma parr_realloc_shrink:
  assumes "parr_rep ss p" "pa_elems p \<noteq> None" "0 < n" "n \<le> pa_capacity p" "pa_capacity p \<le> INT_MAX"
    and "alloc (parr_allocsz (pa_capacity p - n))"
  shows "fsock_parr_realloc alloc p (- n) =
     Inr (OK, p\<lparr>pa_capacity := pa_capacity p - n,
               pa_elems := Some (take (nat (pa_capacity p - n)) (parr_block p))\<rparr>)"
proof -
  have "int (length (parr_block p)) = pa_capacity p" using assms(1) by (simp add: parr_rep_def)
  then have "nat (pa_capacity p - n) - length (parr_block p) = 0" using assms(3) by simp
  then show ?thesis
    using assms unat_parr_allocsz [of "pa_capacity p - n"]
    by (auto simp: fsock_parr_realloc_def parr_resize_def parr_block_def INT_MAX_def)
qed

text \<open>
  Giving back a block that still covers \<open>last\<close> keeps the array; giving back one that does
  not leaves \<open>last\<close> past the block, and the next test of the loop reads there.
\<close>

lemma parr_shrink_overruns:
  assumes rep: "parr_rep ss p" and cap: "2 * pa_increment p \<le> pa_capacity p" "pa_capacity p \<le> INT_MAX"
    and past: "pa_capacity p - pa_increment p < int (length ss)"
    and empty: "\<forall>j < length ss. pa_capacity p - pa_increment p \<le> int j \<longrightarrow> ss ! j = None"
    and alloc: "alloc (parr_allocsz (pa_capacity p - pa_increment p))"
  shows "parr_shrink_loop alloc p = Some (Inl OutOfBounds)"
proof -
  have inc: "0 < pa_increment p" and last: "pa_last p = int (length ss)"
    using rep by (auto simp: parr_rep_def)
  define q where "q = p\<lparr>pa_capacity := pa_capacity p - pa_increment p,
               pa_elems := Some (take (nat (pa_capacity p - pa_increment p)) (parr_block p))\<rparr>"
  have "pa_elems p \<noteq> None" using rep cap inc by (auto simp: parr_rep_def)
  then have re: "fsock_parr_realloc alloc p (- pa_increment p) = Inr (OK, q)"
    using parr_realloc_shrink [OF rep _ inc _ cap(2), of alloc] alloc cap inc by (simp add: q_def)
  have "fsock_parr_can_shrink q = Inl OutOfBounds"
    using past inc last cap
    by (intro parr_can_shrink_overrun [where xs = "take (nat (pa_capacity p - pa_increment p)) (parr_block p)"])
      (auto simp: q_def)
  then have "parr_shrink_loop alloc q = Some (Inl OutOfBounds)"
    by (subst parr_shrink_loop.simps) simp
  then show ?thesis
    using cap inc empty re by (subst parr_shrink_loop.simps) (simp add: parr_can_shrink_rep [OF rep])
qed

lemma parr_shrink_trims:
  assumes rep: "parr_rep ss p" and cap: "2 * pa_increment p \<le> pa_capacity p" "pa_capacity p \<le> INT_MAX"
    and fits: "int (length ss) = pa_capacity p - pa_increment p"
    and kept: "\<exists>j < length ss. pa_capacity p - 2 * pa_increment p \<le> int j \<and> ss ! j \<noteq> None"
    and alloc: "alloc (parr_allocsz (pa_capacity p - pa_increment p))"
  shows "parr_shrink_loop alloc p = Some (Inr (0, p\<lparr>pa_capacity := int (length ss),
               pa_elems := Some (take (length ss) (parr_block p))\<rparr>))"
proof -
  have inc: "0 < pa_increment p" and last: "pa_last p = int (length ss)"
    using rep by (auto simp: parr_rep_def)
  define q where "q = p\<lparr>pa_capacity := int (length ss), pa_elems := Some (take (length ss) (parr_block p))\<rparr>"
  have "pa_elems p \<noteq> None" using rep cap inc by (auto simp: parr_rep_def)
  then have re: "fsock_parr_realloc alloc p (- pa_increment p) = Inr (OK, q)"
    using parr_realloc_shrink [OF rep _ inc _ cap(2), of alloc] alloc cap inc by (simp add: q_def fits [symmetric])
  have "parr_rep ss q" using rep inc fits cap by (auto simp: parr_rep_def q_def parr_block_def)
  then have "parr_shrink_loop alloc q = Some (Inr (0, q))"
    using kept cap fits by (intro parr_shrink_stops) (auto simp: q_def)
  then show ?thesis
    using cap inc fits re
    by (subst parr_shrink_loop.simps) (simp add: parr_can_shrink_rep [OF rep] q_def)
qed


subsection \<open>What clearing does to a densely filled array\<close>

lemma parr_dense_caps:
  assumes d: "parr_dense xs p" and ne: "xs \<noteq> []"
  shows "pa_capacity p = pa_increment p * (int (length xs) div pa_increment p + 1)"
    and "parr_rep (map Some xs) p" and "2 \<le> pa_increment p" and "pa_increment p \<le> pa_capacity p"
proof -
  show rep: "parr_rep (map Some xs) p" and inc: "2 \<le> pa_increment p"
    using d by (auto simp: parr_dense_def)
  have "pa_elems p \<noteq> None" using rep ne by (auto simp: parr_rep_def parr_block_def)
  then show cap: "pa_capacity p = pa_increment p * (int (length xs) div pa_increment p + 1)"
    using d by (auto simp: parr_dense_def)
  have "0 \<le> int (length xs) div pa_increment p" using inc by (simp add: pos_imp_zdiv_nonneg_iff)
  then have "pa_increment p * 1 \<le> pa_increment p * (int (length xs) div pa_increment p + 1)"
    using inc by (intro mult_left_mono) auto
  then show "pa_increment p \<le> pa_capacity p" using cap by simp
qed

lemma parr_clear_kept:
  assumes rep: "parr_rep ss p" and i: "i < length ss" and inc: "pa_increment p \<le> pa_capacity p"
    and live: "j < length ss" "pa_capacity p - pa_increment p \<le> int j" "j \<noteq> i" "ss ! j \<noteq> None"
  shows "fsock_parr_clear alloc p (int i) = Inr (0, p\<lparr>pa_elems := Some ((parr_block p)[i := Empty])\<rparr>)"
  unfolding parr_clear_unfold [OF rep i]
  using live inc by (subst parr_shrink_stops [OF parr_rep_clear [OF rep i]]) (auto intro!: exI [of _ j])

lemma live_from_all: "live_from i (map Some xs) = zip [i..<length xs] (drop i xs)"
proof (induction i rule: index_induct [where n = "length xs"])
  case (inside i)
  then show ?case by (simp add: live_from_step upt_conv_Cons Cons_nth_drop_Suc [symmetric])
qed simp

text \<open>
  Removing an element below the last one and inserting another: the hole is reused, but
  \<open>last\<close> still grows, and the slot it now covers was never written.
\<close>

text \<open>Counting reads every slot up to the first that was never written.\<close>

lemma parr_count_unread:
  assumes read: "\<And>k. k < n \<Longrightarrow> \<exists>c. parr_read p (int k) = Inr c" and unread: "parr_read p (int n) = Inl UninitRead"
    and last: "int n < pa_last p"
  shows "k \<le> n \<Longrightarrow> parr_count p (int k) m = Inl UninitRead"
proof (induction k arbitrary: m rule: index_induct [where n = n])
  case (past k)
  then show ?case using unread last by (subst parr_count.simps) simp
next
  case (inside k)
  then show ?case using read [of k] last by (subst parr_count.simps) (auto simp: add.commute)
qed

lemma parr_reuse:
  assumes d: "parr_dense xs p" and i: "Suc i < length xs" and grow: "parr_can_grow alloc p"
    and last: "pa_capacity p - pa_increment p < int (length xs)" and bound: "pa_last p < INT_MAX"
  shows "\<exists>p1 p2. fsock_parr_clear alloc p (int i) = Inr (0, p1) \<and>
     fsock_parr_insert alloc p1 e = Inr (int i, p2) \<and>
     parr_read p2 (int (length xs)) = Inl UninitRead \<and> pa_last p2 = int (length xs) + 1 \<and>
     fsock_parr_size p2 = Inl UninitRead"
proof -
  let ?ss = "map Some xs"
  have ne: "xs \<noteq> []" and len: "i < length xs" using i by auto
  note caps = parr_dense_caps [OF d ne]
  define p1 where "p1 = p\<lparr>pa_elems := Some ((parr_block p)[i := Empty])\<rparr>"
  have clear: "fsock_parr_clear alloc p (int i) = Inr (0, p1)"
    unfolding p1_def using i last caps(2-4)
    by (intro parr_clear_kept [where j = "length xs - 1" and ss = ?ss]) auto
  have rep1: "parr_rep (?ss[i := None]) p1"
    unfolding p1_def using parr_rep_clear [OF caps(2), of i] len by simp
  have find: "parr_find_slot q 0 = Inr (int i)" if "parr_rep (?ss[i := None]) q" for q
    using parr_find_slot_hole [OF that, of i 0] len by (simp add: nth_list_update)
  have same: "pa_capacity p1 = pa_capacity p" "pa_last p1 = pa_last p" "pa_increment p1 = pa_increment p"
    "parr_block p1 = (parr_block p)[i := Empty]" "parr_must_grow p1 = parr_must_grow p"
    by (simp_all add: p1_def parr_block_def parr_must_grow_def)
  obtain cells where ins: "fsock_parr_insert alloc p1 e =
         Inr (int i, p1\<lparr>pa_elems := Some (cells[i := Elem e]), pa_capacity := int (length cells),
                        pa_last := pa_last p1 + 1\<rparr>)"
      and cl: "length xs + 1 < length cells"
      and cells: "cells = parr_block p1 @ (if parr_must_grow p1 then replicate (nat (pa_increment p1)) Uninit else [])"
    using parr_insert_at [OF rep1 _ _ _ _ find, of alloc e] parr_dense_room [OF d] grow caps(3) bound len
    by (auto simp: same parr_can_grow_def)
  define p2 where "p2 = p1\<lparr>pa_elems := Some (cells[i := Elem e]), pa_capacity := int (length cells), pa_last := pa_last p1 + 1\<rparr>"
  have plast: "pa_last p = int (length xs)" using caps(2) by (simp add: parr_rep_def)
  have "cells ! length xs = Uninit"
  proof (cases "length xs < length (parr_block p)")
    case True
    have "drop (length xs) (parr_block p) ! 0 = Uninit"
      using d True by (simp add: parr_dense_def)
    then show ?thesis using True len by (simp add: cells same nth_append)
  next
    case False
    then show ?thesis using cl by (auto simp: cells same nth_append split: if_splits)
  qed
  then have unread: "parr_read p2 (int (length xs)) = Inl UninitRead"
    using cl len by (simp add: p2_def parr_read_def)
  have slots: "\<exists>c. parr_read p2 (int k) = Inr c" if "k < length xs" for k
  proof -
    have k: "k < length (parr_block p)" using caps(2) that by (simp add: parr_rep_def)
    then have "parr_block p ! k = Elem (xs ! k)" using parr_rep_nth [OF caps(2), of k] that by simp
    then show ?thesis using that cl len k
      by (auto simp: p2_def parr_read_def cells same nth_append nth_list_update)
  qed
  have "fsock_parr_size p2 = Inl UninitRead"
    using parr_count_unread [OF slots unread, of 0 0] cl by (auto simp: fsock_parr_size_def p2_def same plast)
  with clear ins unread show ?thesis
    by (auto simp: p2_def same plast)
qed

text \<open>
  Clearing the slots \<open>k\<close>, \<open>k + 1\<close>, ... in turn, the order in which the termination loops
  of \<open>core/sock.c\<close> clear an array.
\<close>

fun parr_clear_range :: "(64 word \<Rightarrow> bool) \<Rightarrow> 'a parr \<Rightarrow> nat \<Rightarrow> nat \<Rightarrow> fault + 'a parr" where
  "parr_clear_range alloc p k 0 = Inr p"
| "parr_clear_range alloc p k (Suc m) =
     rbind (fsock_parr_clear alloc p (int k)) (\<lambda>(rc, q). parr_clear_range alloc q (Suc k) m)"

definition cleared :: "nat \<Rightarrow> 'a list \<Rightarrow> 'a option list" where
  "cleared k xs = replicate k None @ map Some (drop k xs)"

lemma length_cleared [simp]: "k \<le> length xs \<Longrightarrow> length (cleared k xs) = length xs"
  by (simp add: cleared_def)

lemma cleared_0 [simp]: "cleared 0 xs = map Some xs"
  by (simp add: cleared_def)

lemma nth_cleared: "i < length xs \<Longrightarrow> k \<le> length xs \<Longrightarrow> cleared k xs ! i = (if i < k then None else Some (xs ! i))"
  by (auto simp: cleared_def nth_append)

lemma cleared_Suc: "k < length xs \<Longrightarrow> (cleared k xs)[k := None] = cleared (Suc k) xs"
  by (rule nth_equalityI) (auto simp: nth_cleared nth_list_update)

lemma parr_clear_range_tail:
  assumes "parr_rep (cleared k xs) p" "k < length xs"
    and "pa_increment p \<le> pa_capacity p" "pa_capacity p - pa_increment p < int (length xs)"
    and "pa_capacity p = pa_increment p \<or> 2 * pa_increment p \<le> pa_capacity p" "pa_capacity p \<le> INT_MAX"
    and alloc: "\<And>z. alloc z"
  shows "parr_clear_range alloc p k (length xs - k) =
    (if pa_capacity p = pa_increment p then Inr (fsock_parr_init (pa_increment p)) else Inl OutOfBounds)"
  using assms
proof (induction "length xs - k" arbitrary: k p)
  case 0
  then show ?case by simp
next
  case (Suc m)
  let ?p1 = "p\<lparr>pa_elems := Some ((parr_block p)[k := Empty])\<rparr>"
  have k: "k < length (cleared k xs)" using Suc.prems by simp
  have rep1: "parr_rep (cleared (Suc k) xs) ?p1"
    using parr_rep_clear [OF Suc.prems(1) k] cleared_Suc [OF Suc.prems(2)] by simp
  show ?case
  proof (cases "Suc k < length xs")
    case True
    have "fsock_parr_clear alloc p (int k) = Inr (0, ?p1)"
      using Suc.prems True k
      by (intro parr_clear_kept [where j = "length xs - 1"]) (auto simp: nth_cleared)
    moreover have "parr_clear_range alloc ?p1 (Suc k) (length xs - Suc k) =
        (if pa_capacity p = pa_increment p then Inr (fsock_parr_init (pa_increment p)) else Inl OutOfBounds)"
      using Suc.hyps(1) [of "Suc k" ?p1] Suc.hyps(2) rep1 True Suc.prems by simp
    moreover have "length xs - k = Suc (length xs - Suc k)" using True by simp
    ultimately show ?thesis by simp
  next
    case False
    then have last: "length xs = Suc k" using Suc.prems by simp
    have none: "\<forall>j < length (cleared (Suc k) xs). cleared (Suc k) xs ! j = None"
      using last by (simp add: nth_cleared)
    have "parr_shrink_loop alloc ?p1 =
        Some (if pa_capacity p = pa_increment p then Inr (0, fsock_parr_init (pa_increment p)) else Inl OutOfBounds)"
    proof (cases "pa_capacity p = pa_increment p")
      case True
      then show ?thesis using parr_shrink_resets [OF rep1 _ none] by simp
    next
      case False
      then show ?thesis
        using parr_shrink_overruns [OF rep1, of alloc] Suc.prems none last by simp
    qed
    then show ?thesis
      using parr_clear_unfold [OF Suc.prems(1) k, of alloc] last by (simp add: last)
  qed
qed

text \<open>
  When the elements fill whole increments, clearing the first one trims the block to them, and the
  rest is cleared from there.
\<close>

lemma parr_clear_range_full:
  assumes d: "parr_dense xs p" and ne: "xs \<noteq> []" and cap: "pa_capacity p \<le> INT_MAX" and alloc: "\<And>z. alloc z"
    and nq: "int (length xs) = pa_increment p * q" and q_pos: "1 \<le> q" and capq: "pa_capacity p = pa_increment p * q + pa_increment p"
  shows "parr_clear_range alloc p 0 (length xs) =
    (if int (length xs) \<le> pa_increment p then Inr (fsock_parr_init (pa_increment p)) else Inl OutOfBounds)"
proof -
  let ?n = "int (length xs)" and ?b = "pa_increment p"
  note caps = parr_dense_caps [OF d ne]
  let ?p1 = "p\<lparr>pa_elems := Some ((parr_block p)[0 := Empty])\<rparr>"
  define r where "r = p\<lparr>pa_capacity := ?n, pa_elems := Some (take (length xs) ((parr_block p)[0 := Empty]))\<rparr>"
  have b_le: "?b * 1 \<le> ?b * q" using q_pos caps(3) by (intro mult_left_mono) auto
  have len2: "2 \<le> length xs"
  proof -
    have "2 \<le> int (length xs)" using b_le caps(3) unfolding nq by linarith
    then show ?thesis by simp
  qed
  have rep1: "parr_rep (cleared 1 xs) ?p1"
    using parr_rep_clear [OF caps(2), of 0] cleared_Suc [of 0 xs] ne by simp
  have bl: "parr_block ?p1 = (parr_block p)[0 := Empty]" by (simp add: parr_block_def)
  have "parr_shrink_loop alloc ?p1 = Some (Inr (0, r))"
  proof -
    have "\<exists>j<length (cleared 1 xs). pa_capacity ?p1 - 2 * pa_increment ?p1 \<le> int j \<and> cleared 1 xs ! j \<noteq> None"
      using len2 capq nq caps(3) by (intro exI [of _ "length xs - 1"]) (auto simp: nth_cleared)
    moreover have "2 * pa_increment ?p1 \<le> pa_capacity ?p1" using b_le capq by simp
    ultimately show ?thesis
      using parr_shrink_trims [OF rep1, of alloc] len2 cap alloc capq nq
      by (simp add: r_def bl)
  qed
  then have clear: "fsock_parr_clear alloc p 0 = Inr (0, r)"
    using parr_clear_unfold [OF caps(2), of 0 alloc] ne by simp
  have repr: "parr_rep (cleared 1 xs) r"
    using rep1 len2 ne by (simp add: parr_rep_def r_def parr_block_def)
  have "parr_clear_range alloc r 1 (length xs - 1) =
    (if pa_capacity r = pa_increment r then Inr (fsock_parr_init (pa_increment r)) else Inl OutOfBounds)"
  proof (rule parr_clear_range_tail)
    show "pa_capacity r = pa_increment r \<or> 2 * pa_increment r \<le> pa_capacity r"
    proof (cases "q = 1")
      case False
      then have "?b * 2 \<le> ?b * q" using q_pos caps(3) by (intro mult_left_mono) auto
      then show ?thesis by (simp add: r_def nq)
    qed (simp add: r_def nq)
  next
    show "1 < length xs" using len2 by simp
  qed (use repr nq b_le caps(3) cap capq alloc in \<open>auto simp: r_def\<close>)
  moreover have "pa_capacity r = pa_increment r \<longleftrightarrow> ?n \<le> ?b" "pa_increment r = ?b"
    using nq b_le by (auto simp: r_def)
  moreover have "parr_clear_range alloc p 0 (length xs) = parr_clear_range alloc r 1 (length xs - 1)"
    using len2 clear by (cases "length xs") simp_all
  ultimately show ?thesis by simp
qed

lemma parr_clear_range_dense:
  assumes d: "parr_dense xs p" and ne: "xs \<noteq> []" and cap: "pa_capacity p \<le> INT_MAX" and alloc: "\<And>z. alloc z"
  shows "parr_clear_range alloc p 0 (length xs) =
    (if int (length xs) \<le> pa_increment p then Inr (fsock_parr_init (pa_increment p)) else Inl OutOfBounds)"
proof -
  let ?n = "int (length xs)" and ?b = "pa_increment p"
  note caps = parr_dense_caps [OF d ne]
  have n: "?n = ?b * (?n div ?b) + ?n mod ?b" "0 \<le> ?n mod ?b" "?n mod ?b < ?b" "0 < ?n"
    using caps(3) ne by auto
  define q where "q = ?n div ?b"
  have capq: "pa_capacity p = ?b * q + ?b" and q0: "0 \<le> q"
    using caps(1,3) by (simp_all add: q_def distrib_left pos_imp_zdiv_nonneg_iff)
  have q1: "2 * ?b \<le> ?b * q + ?b" if "1 \<le> q" "?b > 0" for q
    using mult_left_mono [OF that(1), of ?b] that(2) by simp
  show ?thesis
  proof (cases "?n mod ?b = 0")
    case False
    have small: "?n \<le> ?b \<longleftrightarrow> q = 0"
    proof
      assume "?n \<le> ?b"
      then have "?n < ?b" using False by (cases "?n = ?b") auto
      then show "q = 0" using n(4) by (simp add: q_def)
    next
      assume "q = 0" then show "?n \<le> ?b" using n by (simp add: q_def)
    qed
    have "parr_clear_range alloc p 0 (length xs - 0) =
      (if pa_capacity p = ?b then Inr (fsock_parr_init ?b) else Inl OutOfBounds)"
    proof (rule parr_clear_range_tail)
      show "pa_capacity p - ?b < ?n" unfolding capq q_def using n False by linarith
      show "pa_capacity p = ?b \<or> 2 * ?b \<le> pa_capacity p"
        using q0 q1 [of q] caps(3) capq by (cases "q = 0") auto
    qed (use ne caps cap alloc in auto)
    then show ?thesis using capq small caps(3) by simp
  next
    case True
    then have nq: "?n = ?b * q" using n by (simp add: q_def)
    then have q_pos: "1 \<le> q" using n(4) caps(3) q0 by (cases "q = 0") auto
    show ?thesis by (rule parr_clear_range_full [OF d ne cap alloc nq q_pos capq])
  qed
qed

subsection \<open>Runs of insertions\<close>

fun parr_insert_all :: "(64 word \<Rightarrow> bool) \<Rightarrow> 'a parr \<Rightarrow> 'a list \<Rightarrow> fault + (int list \<times> 'a parr)" where
  "parr_insert_all alloc p [] = Inr ([], p)"
| "parr_insert_all alloc p (x # xs) =
     rbind (fsock_parr_insert alloc p x) (\<lambda>(i, q).
     rbind (parr_insert_all alloc q xs) (\<lambda>(is, r). Inr (i # is, r)))"

lemma parr_dense_init: "2 \<le> inc \<Longrightarrow> parr_dense [] (fsock_parr_init inc)"
  by (simp add: parr_dense_def parr_rep_def fsock_parr_init_def parr_block_def)

lemma parr_dense_cap_le:
  assumes "parr_dense xs p"
  shows "pa_capacity p \<le> int (length xs) + pa_increment p" and "pa_last p = int (length xs)"
    and "2 \<le> pa_increment p"
proof -
  have inc: "2 \<le> pa_increment p" using assms by (simp add: parr_dense_def)
  have "pa_increment p * (int (length xs) div pa_increment p) = int (length xs) - int (length xs) mod pa_increment p"
    by (simp add: minus_mod_eq_mult_div)
  moreover have "0 \<le> int (length xs) mod pa_increment p" using inc by simp
  ultimately have "pa_increment p * (int (length xs) div pa_increment p) \<le> int (length xs)" by linarith
  then show "pa_capacity p \<le> int (length xs) + pa_increment p"
    using assms inc by (auto simp: parr_dense_def distrib_left)
  show "pa_last p = int (length xs)" using assms by (simp add: parr_dense_def parr_rep_def)
  show "2 \<le> pa_increment p" by (rule inc)
qed

lemma parr_insert_all_dense:
  assumes alloc: "\<And>z. alloc z"
  shows "parr_dense xs p \<Longrightarrow> int (length xs + length ys) + 2 * pa_increment p \<le> INT_MAX \<Longrightarrow>
    \<exists>q. parr_insert_all alloc p ys = Inr (map int [length xs..<length xs + length ys], q) \<and>
      parr_dense (xs @ ys) q \<and> pa_increment q = pa_increment p"
proof (induction ys arbitrary: xs p)
  case Nil
  then show ?case by simp
next
  case (Cons y ys)
  have "parr_can_grow alloc p"
    using parr_dense_cap_le [OF Cons.prems(1)] Cons.prems(2) alloc by (auto simp: parr_can_grow_def)
  moreover have "pa_last p < INT_MAX"
    using parr_dense_cap_le [OF Cons.prems(1)] Cons.prems(2) by simp
  ultimately obtain q where q: "fsock_parr_insert alloc p y = Inr (int (length xs), q)"
      "parr_dense (xs @ [y]) q" "pa_increment q = pa_increment p"
    using parr_insert_dense [OF Cons.prems(1)] by blast
  obtain r where "parr_insert_all alloc q ys = Inr (map int [length (xs @ [y])..<length (xs @ [y]) + length ys], r)"
      "parr_dense ((xs @ [y]) @ ys) r" "pa_increment r = pa_increment q"
    using Cons.IH [OF q(2)] Cons.prems(2) q(3) by auto
  with q show ?case by (simp add: upt_conv_Cons del: upt_Suc)
qed

subsection \<open>Properties of the array\<close>

text \<open>
  slot numbers are handed out consecutively. Elements inserted one after the other into
  a fresh array get the slots 0, 1, 2, ..., the array counts them all, and each slot holds
  its element, however often the block was grown on the way.
\<close>

theorem parr_fresh_ids:
  assumes "\<And>z. alloc z" and "int (length ys) + 20 \<le> INT_MAX"
  shows "\<exists>q. parr_insert_all alloc (fsock_parr_init 10) ys = Inr (map int [0..<length ys], q) \<and>
    fsock_parr_size q = Inr (int (length ys)) \<and>
    (\<forall>i < length ys. parr_read q (int i) = Inr (Elem (ys ! i)))"
proof -
  obtain q where q: "parr_insert_all alloc (fsock_parr_init 10) ys = Inr (map int [0..<length ys], q)"
      "parr_dense ys q"
    using parr_insert_all_dense [of alloc "[]" "fsock_parr_init 10" ys] parr_dense_init [of 10] assms
    by (auto simp: fsock_parr_init_def)
  then have "parr_rep (map Some ys) q" by (simp add: parr_dense_def)
  with q show ?thesis by (auto simp: parr_size_rep live_from_all parr_read_nth)
qed

theorem parr_fresh_ids_witness:
  "\<exists>q. parr_insert_all (\<lambda>_. True) (fsock_parr_init 10) [7::nat, 8, 9] = Inr (map int [0..<3], q) \<and>
    fsock_parr_size q = Inr 3 \<and> parr_read q 1 = Inr (Elem 8)"
  using parr_fresh_ids [of "\<lambda>_. True" "[7::nat, 8, 9]"] by (force simp: INT_MAX_def numeral_3_eq_3)

text \<open>
  C27: an iteration with \<open>fsock_parr_begin\<close> and \<open>fsock_parr_next\<close> visits exactly the occupied
  slots, in the order of their numbers and each with its own number, up to the body's \<open>break\<close>
  or fault.
\<close>

theorem parr_iteration:
  assumes "parr_rep ss p"
  shows "parr_fold body p s = fold_live body (live_from 0 ss) s"
  using assms by (rule parr_fold_rep)

theorem parr_iteration_witness:
  "parr_fold (\<lambda>i e s. Inr (True, s @ [(i, e)]))
     \<lparr>pa_elems = Some [Empty, Elem (5::nat), Empty, Elem 6, Uninit], pa_last = 4, pa_capacity = 5, pa_increment = 5\<rparr> [] =
   Inr [(1, 5), (3, 6)]"
  by (subst parr_iteration [where ss = "[None, Some 5, None, Some 6]"])
    (simp_all add: parr_rep_def parr_block_def live_from_def upt_rec map_filter_simps)

text \<open>
  when the block cannot be grown, an insertion reports the failure and leaves the array
  as it was.
\<close>

theorem parr_insert_out_of_memory:
  assumes "parr_rep ss p" and "pa_capacity p = 0 \<or> pa_last p < pa_capacity p" and "parr_must_grow p"
    and "pa_capacity p + pa_increment p \<le> INT_MAX"
    and "\<not> alloc (parr_allocsz (pa_capacity p + pa_increment p))"
  shows "fsock_parr_insert alloc p e = Inr (-1, p)"
  using assms by (rule parr_insert_oom)

theorem parr_insert_out_of_memory_witness:
  "fsock_parr_insert (\<lambda>_. False) (fsock_parr_init 10) (1::nat) = Inr (-1, fsock_parr_init 10)"
  by (rule parr_insert_out_of_memory [where ss = "[]"])
    (simp_all add: parr_rep_def parr_block_def fsock_parr_init_def parr_must_grow_def INT_MAX_def)

text \<open>
  C28: removing an element below the last one and inserting another. The hole is reused, but
  \<open>last\<close> still grows, so it now covers a slot that was never written, and counting the
  elements (or iterating over them) reads it.
\<close>

theorem parr_hole_reuse_exposes_garbage:
  assumes "parr_dense xs p" and "Suc i < length xs" and "parr_can_grow alloc p"
    and "pa_capacity p - pa_increment p < int (length xs)" and "pa_last p < INT_MAX"
  shows "\<exists>p1 p2. fsock_parr_clear alloc p (int i) = Inr (0, p1) \<and>
     fsock_parr_insert alloc p1 e = Inr (int i, p2) \<and>
     parr_read p2 (int (length xs)) = Inl UninitRead \<and> pa_last p2 = int (length xs) + 1 \<and>
     fsock_parr_size p2 = Inl UninitRead"
  using assms by (rule parr_reuse)

lemma parr_dense_example:
  "parr_dense [7::nat, 8, 9]
     \<lparr>pa_elems = Some ([Elem 7, Elem 8, Elem 9] @ replicate 7 Uninit), pa_last = 3, pa_capacity = 10, pa_increment = 10\<rparr>"
  by (simp add: parr_dense_def parr_rep_def parr_block_def eval_nat_numeral)

theorem parr_hole_reuse_exposes_garbage_witness:
  "\<exists>p1 p2. fsock_parr_clear (\<lambda>_. True) \<lparr>pa_elems = Some ([Elem 7, Elem 8, Elem 9] @ replicate 7 Uninit),
        pa_last = 3, pa_capacity = 10, pa_increment = 10\<rparr> 0 = Inr (0, p1) \<and>
     fsock_parr_insert (\<lambda>_. True) p1 (4::nat) = Inr (0, p2) \<and> fsock_parr_size p2 = Inl UninitRead"
  using parr_hole_reuse_exposes_garbage [OF parr_dense_example, of 0 "\<lambda>_. True" 4]
  by (auto simp: parr_can_grow_def parr_must_grow_def INT_MAX_def)

text \<open>
  tearing an array down by clearing its slots in order. With at most \<open>increment\<close> elements
  it ends in the empty array; with more, shrinking the block leaves \<open>last\<close> beyond it and the
  next test reads out of bounds.
\<close>

theorem parr_teardown:
  assumes "parr_dense xs p" and "xs \<noteq> []" and "pa_capacity p \<le> INT_MAX" and "\<And>z. alloc z"
  shows "parr_clear_range alloc p 0 (length xs) =
    (if int (length xs) \<le> pa_increment p then Inr (fsock_parr_init (pa_increment p)) else Inl OutOfBounds)"
  using assms by (rule parr_clear_range_dense)

theorem parr_teardown_witness:
  "parr_clear_range (\<lambda>_. True) \<lparr>pa_elems = Some ([Elem 7, Elem 8, Elem (9::nat)] @ replicate 7 Uninit),
        pa_last = 3, pa_capacity = 10, pa_increment = 10\<rparr> 0 3 = Inr (fsock_parr_init 10)"
  proof -
  have "length [7, 8, 9::nat] = 3" by simp
  with parr_teardown [OF parr_dense_example, of "\<lambda>_. True"] show ?thesis
    by (simp only:) (simp add: INT_MAX_def del: parr_clear_range.simps)
qed

end
