(* ===== verification/Queue.thy ===== *)
theory Queue
  imports Prelude
begin

text \<open>
  The intrusive FIFO queue of \<open>utils/queue.h\<close> and \<open>utils/queue.c\<close>. An item is embedded in
  the object that is queued and holds only its \<open>next\<close> pointer, so the \<open>next\<close> fields of all
  items form one store, \<open>'i links\<close>, shared by every queue; \<open>'i\<close> names the items. The third
  value a \<open>next\<close> field can have, \<open>FSOCK_QUEUE_NOTINQUEUE\<close>, marks an item that is in no queue.
\<close>

subsection \<open>Data\<close>

datatype 'i link = Null | NotInQueue | Item 'i

type_synonym 'i links = "'i \<Rightarrow> 'i link"

record 'i queue =
  q_head :: "'i link"
  q_tail :: "'i link"

subsection \<open>Operations\<close>

definition fsock_queue_init :: "'i queue" where
  "fsock_queue_init = \<lparr>q_head = Null, q_tail = Null\<rparr>"

definition fsock_queue_term :: "'i queue" where
  "fsock_queue_term = \<lparr>q_head = Null, q_tail = Null\<rparr>"

definition fsock_queue_empty :: "'i queue \<Rightarrow> bool" where
  "fsock_queue_empty q \<longleftrightarrow> q_head q = Null"

definition fsock_queue_item_init :: "'i links \<Rightarrow> 'i \<Rightarrow> 'i links" where
  "fsock_queue_item_init n i = n(i := NotInQueue)"

definition fsock_queue_item_term :: "'i links \<Rightarrow> 'i \<Rightarrow> fault + unit" where
  "fsock_queue_item_term n i = assert_that (n i = NotInQueue)"

definition fsock_queue_item_isinqueue :: "'i links \<Rightarrow> 'i \<Rightarrow> bool" where
  "fsock_queue_item_isinqueue n i \<longleftrightarrow> n i \<noteq> NotInQueue"

definition fsock_queue_push :: "'i links \<Rightarrow> 'i queue \<Rightarrow> 'i \<Rightarrow> fault + ('i links \<times> 'i queue)" where
  "fsock_queue_push n q i =
     rbind (assert_that (n i = NotInQueue)) (\<lambda>_.
     let n1 = n(i := Null);
         q1 = (if q_head q = Null then q\<lparr>q_head := Item i\<rparr> else q)
     in case q_tail q1 of
          Null \<Rightarrow> Inr (n1, q1\<lparr>q_tail := Item i\<rparr>)
        | Item t \<Rightarrow> Inr (n1(t := Item i), q1\<lparr>q_tail := Item i\<rparr>)
        | NotInQueue \<Rightarrow> Inl WildDeref)"

definition fsock_queue_pop :: "'i links \<Rightarrow> 'i queue \<Rightarrow> fault + ('i option \<times> 'i links \<times> 'i queue)" where
  "fsock_queue_pop n q =
     (case q_head q of
        Null \<Rightarrow> Inr (None, n, q)
      | NotInQueue \<Rightarrow> Inl WildDeref
      | Item r \<Rightarrow>
          let q1 = q\<lparr>q_head := n r\<rparr>;
              q2 = (if q_head q1 = Null then q1\<lparr>q_tail := Null\<rparr> else q1)
          in Inr (Some r, n(r := NotInQueue), q2))"

text \<open>
  The search loop of \<open>fsock_queue_remove\<close>, from the pointer \<open>it\<close> with the item before it in
  \<open>prev\<close>. On a cyclic chain without the item it never ends, which is \<open>None\<close>.
\<close>

definition queue_unlink :: "'i links \<Rightarrow> 'i queue \<Rightarrow> 'i \<Rightarrow> 'i option \<Rightarrow> 'i links \<times> 'i queue" where
  "queue_unlink n q i prev =
     (let q1 = (if q_head q = Item i then q\<lparr>q_head := n i\<rparr> else q);
          q2 = (if q_tail q1 = Item i
                then q1\<lparr>q_tail := (case prev of None \<Rightarrow> Null | Some p \<Rightarrow> Item p)\<rparr> else q1);
          n1 = (case prev of None \<Rightarrow> n | Some p \<Rightarrow> n(p := n i))
      in (n1(i := NotInQueue), q2))"

partial_function (option) queue_remove_loop ::
  "'i links \<Rightarrow> 'i queue \<Rightarrow> 'i \<Rightarrow> 'i link \<Rightarrow> 'i option \<Rightarrow> (fault + ('i links \<times> 'i queue)) option" where
  "queue_remove_loop n q i it prev =
     (case it of
        Null \<Rightarrow> Some (Inr (n, q))
      | NotInQueue \<Rightarrow> Some (Inl WildDeref)
      | Item x \<Rightarrow>
          if x = i then Some (Inr (queue_unlink n q i prev))
          else queue_remove_loop n q i (n x) (Some x))"

definition fsock_queue_remove :: "'i links \<Rightarrow> 'i queue \<Rightarrow> 'i \<Rightarrow> fault + ('i links \<times> 'i queue)" where
  "fsock_queue_remove n q i =
     (if n i = NotInQueue then Inr (n, q)
      else case queue_remove_loop n q i (q_head q) None of None \<Rightarrow> Inl Hang | Some r \<Rightarrow> r)"

subsection \<open>What a queue holds\<close>

fun chain :: "'i links \<Rightarrow> 'i link \<Rightarrow> 'i list \<Rightarrow> 'i link \<Rightarrow> bool" where
  "chain n p [] e \<longleftrightarrow> p = e"
| "chain n p (x # xs) e \<longleftrightarrow> p = Item x \<and> chain n (n x) xs e"

definition queue_rep :: "'i links \<Rightarrow> 'i queue \<Rightarrow> 'i list \<Rightarrow> bool" where
  "queue_rep n q xs \<longleftrightarrow>
     chain n (q_head q) xs Null \<and> distinct xs \<and>
     q_tail q = (if xs = [] then Null else Item (last xs))"

lemma chain_append [simp]: "chain n p (xs @ ys) e \<longleftrightarrow> (\<exists>m. chain n p xs m \<and> chain n m ys e)"
  by (induction xs arbitrary: p) auto

lemma chain_upd_other [simp]: "i \<notin> set xs \<Longrightarrow> chain (n(i := v)) p xs e = chain n p xs e"
  by (induction xs arbitrary: p) auto

lemma chain_in_queue: "chain n p xs Null \<Longrightarrow> x \<in> set xs \<Longrightarrow> n x \<noteq> NotInQueue"
proof (induction xs arbitrary: p)
  case (Cons y ys)
  then show ?case by (cases ys) auto
qed simp

lemma queue_rep_in_queue: "queue_rep n q xs \<Longrightarrow> x \<in> set xs \<Longrightarrow> n x \<noteq> NotInQueue"
  by (auto simp: queue_rep_def dest: chain_in_queue)

lemma queue_rep_frame: "queue_rep n q xs \<Longrightarrow> i \<notin> set xs \<Longrightarrow> queue_rep (n(i := v)) q xs"
  by (simp add: queue_rep_def)

lemma queue_rep_Nil [simp]: "queue_rep n q [] \<longleftrightarrow> q = fsock_queue_init"
  by (cases q) (auto simp: queue_rep_def fsock_queue_init_def)

lemma queue_rep_empty: "queue_rep n q xs \<Longrightarrow> fsock_queue_empty q \<longleftrightarrow> xs = []"
  by (cases xs) (auto simp: queue_rep_def fsock_queue_empty_def)

lemma queue_rep_unique: "queue_rep n q xs \<Longrightarrow> queue_rep n q ys \<Longrightarrow> xs = ys"
proof -
  have "chain n p xs Null \<Longrightarrow> chain n p ys Null \<Longrightarrow> xs = ys" for p xs ys
  proof (induction xs arbitrary: p ys)
    case Nil
    then show ?case by (cases ys) auto
  next
    case (Cons x xs)
    then show ?case by (cases ys) auto
  qed
  then show "queue_rep n q xs \<Longrightarrow> queue_rep n q ys \<Longrightarrow> xs = ys"
    by (auto simp: queue_rep_def)
qed

subsection \<open>The operations on what a queue holds\<close>

lemma queue_push_rep:
  assumes rep: "queue_rep n q xs" and free: "n i = NotInQueue"
  shows "\<exists>n' q'. fsock_queue_push n q i = Inr (n', q') \<and> queue_rep n' q' (xs @ [i]) \<and>
    n' i = Null \<and> (\<forall>j. j \<noteq> i \<and> j \<notin> set xs \<longrightarrow> n' j = n j)"
proof (cases "xs = []")
  case True
  with rep free show ?thesis
    by (auto simp: fsock_queue_push_def fsock_queue_init_def queue_rep_def)
next
  case False
  define ys t where "ys = butlast xs" and "t = last xs"
  have xs: "xs = ys @ [t]" using False by (simp add: ys_def t_def)
  have i: "i \<notin> set xs" using rep free queue_rep_in_queue by metis
  then have head: "q_head q \<noteq> Null" using rep False by (cases xs) (auto simp: queue_rep_def)
  have "fsock_queue_push n q i = Inr (n(i := Null, t := Item i), q\<lparr>q_tail := Item i\<rparr>)"
    using rep free head False by (simp add: fsock_queue_push_def queue_rep_def t_def)
  moreover have "queue_rep (n(i := Null, t := Item i)) (q\<lparr>q_tail := Item i\<rparr>) (xs @ [i])"
    using rep i by (auto simp: queue_rep_def xs)
  ultimately show ?thesis using i by (auto simp: xs)
qed

lemma queue_pop_rep:
  assumes rep: "queue_rep n q (x # xs)"
  shows "\<exists>q'. fsock_queue_pop n q = Inr (Some x, n(x := NotInQueue), q') \<and>
    queue_rep (n(x := NotInQueue)) q' xs"
  using rep by (cases xs) (auto simp: fsock_queue_pop_def queue_rep_def Let_def)

lemma queue_pop_empty: "fsock_queue_pop n fsock_queue_init = Inr (None, n, fsock_queue_init)"
  by (simp add: fsock_queue_pop_def fsock_queue_init_def)

lemma queue_remove_absent:
  "n i = NotInQueue \<Longrightarrow> fsock_queue_remove n q i = Inr (n, q)"
  by (simp add: fsock_queue_remove_def)

lemma queue_remove_loop_eqs:
  "queue_remove_loop n q i Null prev = Some (Inr (n, q))"
  "queue_remove_loop n q i (Item i) prev = Some (Inr (queue_unlink n q i prev))"
  "x \<noteq> i \<Longrightarrow> queue_remove_loop n q i (Item x) prev = queue_remove_loop n q i (n x) (Some x)"
  by (simp_all add: queue_remove_loop.simps)

lemma queue_remove_loop_other:
  "chain n p xs Null \<Longrightarrow> i \<notin> set xs \<Longrightarrow> queue_remove_loop n q i p prev = Some (Inr (n, q))"
  by (induction xs arbitrary: p prev) (auto simp: queue_remove_loop_eqs)

lemma queue_remove_loop_found:
  "chain n p (ys @ i # zs) Null \<Longrightarrow> i \<notin> set ys \<Longrightarrow>
   queue_remove_loop n q i p prev = Some (Inr (queue_unlink n q i (if ys = [] then prev else Some (last ys))))"
  by (induction ys arbitrary: p prev) (auto simp: queue_remove_loop_eqs)

text \<open>An item of another queue is left alone: the search walks this queue and returns.\<close>

lemma queue_remove_foreign:
  "queue_rep n q xs \<Longrightarrow> i \<notin> set xs \<Longrightarrow> fsock_queue_remove n q i = Inr (n, q)"
  using queue_remove_loop_other [of n "q_head q" xs i q None]
  by (simp add: fsock_queue_remove_def queue_rep_def)

lemma queue_remove_rep:
  assumes rep: "queue_rep n q xs" and i: "i \<in> set xs"
  shows "\<exists>n' q'. fsock_queue_remove n q i = Inr (n', q') \<and> queue_rep n' q' (remove1 i xs) \<and>
    n' i = NotInQueue \<and> (\<forall>j. j \<notin> set xs \<longrightarrow> n' j = n j) \<and>
    (\<forall>j. j \<noteq> i \<longrightarrow> (n' j = NotInQueue \<longleftrightarrow> n j = NotInQueue))"
proof -
  from i obtain ys zs where xs: "xs = ys @ i # zs" and ys: "i \<notin> set ys"
    by (metis split_list_first)
  have dist: "distinct xs" using rep by (simp add: queue_rep_def)
  have inq: "n i \<noteq> NotInQueue" using rep i by (rule queue_rep_in_queue)
  let ?prev = "if ys = [] then None else Some (last ys)"
  have run: "fsock_queue_remove n q i = Inr (queue_unlink n q i ?prev)"
    using rep queue_remove_loop_found [of n "q_head q" ys i zs q None] ys inq
    by (simp add: fsock_queue_remove_def queue_rep_def xs)
  have rem: "remove1 i xs = ys @ zs" using ys by (simp add: xs remove1_append)
  show ?thesis
  proof (cases "ys = []")
    case True
    have "queue_rep (fst (queue_unlink n q i None)) (snd (queue_unlink n q i None)) zs"
      using rep dist by (cases zs rule: rev_cases) (auto simp: queue_rep_def xs True queue_unlink_def Let_def)
    with run rem True i show ?thesis by (auto simp: queue_unlink_def Let_def xs)
  next
    case False
    define us p where "us = butlast ys" and "p = last ys"
    have ys_eq: "ys = us @ [p]" using False by (simp add: us_def p_def)
    have head: "q_head q \<noteq> Item i"
      using rep dist by (cases us) (auto simp: queue_rep_def xs ys_eq)
    have ch: "chain n (q_head q) us (Item p)" "n p = Item i" "chain n (n i) zs Null"
      using rep by (auto simp: queue_rep_def xs ys_eq)
    have "queue_rep (fst (queue_unlink n q i (Some p))) (snd (queue_unlink n q i (Some p))) (ys @ zs)"
      using rep dist ch head
      by (auto simp: queue_rep_def xs ys_eq queue_unlink_def Let_def split: if_splits)
    moreover have "n p \<noteq> NotInQueue" "p \<noteq> i" using ch dist by (auto simp: xs ys_eq)
    ultimately show ?thesis
      using run rem inq by (auto simp: ys_eq queue_unlink_def Let_def xs)
  qed
qed


subsection \<open>Appending a local queue\<close>

text \<open>
  The read handler of \<open>core/sock.c\<close> collects its events in a local queue and then hangs
  the whole chain behind the owner's, by hand.
\<close>

definition queue_splice :: "'i links \<Rightarrow> 'i queue \<Rightarrow> 'i queue \<Rightarrow> fault + ('i links \<times> 'i queue)" where
  "queue_splice n q l =
     (case q_tail q of
        Item t \<Rightarrow> Inr (n(t := q_head l), q\<lparr>q_tail := q_tail l\<rparr>)
      | NotInQueue \<Rightarrow> Inl WildDeref
      | Null \<Rightarrow>
          (case q_head q of
             Item h \<Rightarrow> Inr (n(h := q_head l), q\<lparr>q_tail := q_tail l\<rparr>)
           | NotInQueue \<Rightarrow> Inl WildDeref
           | Null \<Rightarrow> Inr (n, q\<lparr>q_head := q_head l, q_tail := q_tail l\<rparr>)))"

lemma queue_splice_rep:
  assumes q: "queue_rep n q xs" and l: "queue_rep n l ys" and ne: "ys \<noteq> []"
    and disj: "set xs \<inter> set ys = {}"
  shows "\<exists>n' q'. queue_splice n q l = Inr (n', q') \<and> queue_rep n' q' (xs @ ys) \<and>
    (\<forall>j. j \<notin> set xs \<longrightarrow> n' j = n j) \<and> (\<forall>j. n' j = NotInQueue \<longleftrightarrow> n j = NotInQueue)"
proof (cases xs rule: rev_cases)
  case Nil
  with q l ne show ?thesis
    by (auto simp: queue_splice_def queue_rep_def fsock_queue_init_def)
next
  case (snoc us t)
  have t: "t \<notin> set us" "t \<notin> set ys" using q disj by (auto simp: queue_rep_def snoc)
  have l_head: "q_head l \<noteq> NotInQueue" "n t \<noteq> NotInQueue"
    using l ne q by (cases ys; auto simp: queue_rep_def snoc)+
  have "queue_rep (n(t := q_head l)) (q\<lparr>q_tail := q_tail l\<rparr>) (xs @ ys)"
    using q l ne t disj by (auto simp: queue_rep_def snoc)
  moreover have "queue_splice n q l = Inr (n(t := q_head l), q\<lparr>q_tail := q_tail l\<rparr>)"
    using q by (simp add: queue_splice_def queue_rep_def snoc)
  ultimately show ?thesis using l_head by (auto simp: snoc)
qed

text \<open>
  Splicing when the local queue is empty but the tail is present cuts the queue's tail
  pointer: this is what a wrong count of collected events leads to.
\<close>

lemma queue_splice_empty_breaks:
  assumes q: "queue_rep n q xs" and ne: "xs \<noteq> []"
  shows "\<exists>n' q'. queue_splice n q fsock_queue_init = Inr (n', q') \<and>
    q_head q' \<noteq> Null \<and> q_tail q' = Null \<and> (\<forall>ys. \<not> queue_rep n' q' ys)"
proof -
  have h: "q_head q \<noteq> Null" "q_tail q = Item (last xs)"
    using q ne by (cases xs; auto simp: queue_rep_def)+
  then show ?thesis
    by (auto simp: queue_splice_def fsock_queue_init_def queue_rep_def)
qed

subsection \<open>A family of queues over one store\<close>

text \<open>
  All queues of the program share the store of \<open>next\<close> fields. \<open>queue_family n H Q\<close>: the queue
  named \<open>k\<close> has the header \<open>H k\<close> (\<open>None\<close> when there is no such queue) and holds the items
  \<open>Q k\<close>, no item is in two queues, and an item is linked exactly when it is in one of them.
\<close>

definition queue_family :: "'i links \<Rightarrow> ('k \<Rightarrow> 'i queue option) \<Rightarrow> ('k \<Rightarrow> 'i list) \<Rightarrow> bool" where
  "queue_family n H Q \<longleftrightarrow>
     (\<forall>k. case H k of None \<Rightarrow> Q k = [] | Some q \<Rightarrow> queue_rep n q (Q k)) \<and>
     (\<forall>k l. k \<noteq> l \<longrightarrow> set (Q k) \<inter> set (Q l) = {}) \<and>
     (\<forall>i. n i \<noteq> NotInQueue \<longleftrightarrow> (\<exists>k. i \<in> set (Q k)))"

lemma chain_cong: "(\<And>x. x \<in> set xs \<Longrightarrow> n x = n' x) \<Longrightarrow> chain n p xs e = chain n' p xs e"
  by (induction xs arbitrary: p) auto

lemma queue_rep_cong: "(\<And>x. x \<in> set xs \<Longrightarrow> n x = n' x) \<Longrightarrow> queue_rep n q xs = queue_rep n' q xs"
  using chain_cong [of xs n n' "q_head q" Null] by (simp add: queue_rep_def)

lemma family_rep: "queue_family n H Q \<Longrightarrow> H k = Some q \<Longrightarrow> queue_rep n q (Q k)"
  unfolding queue_family_def by (drule conjunct1, drule spec [of _ k]) simp

lemma family_none: "queue_family n H Q \<Longrightarrow> H k = None \<Longrightarrow> Q k = []"
  unfolding queue_family_def by (drule conjunct1, drule spec [of _ k]) simp

lemma family_linked: "queue_family n H Q \<Longrightarrow> n i \<noteq> NotInQueue \<longleftrightarrow> (\<exists>k. i \<in> set (Q k))"
  by (simp add: queue_family_def)

lemma family_disjoint: "queue_family n H Q \<Longrightarrow> i \<in> set (Q k) \<Longrightarrow> i \<in> set (Q l) \<Longrightarrow> k = l"
  unfolding queue_family_def by blast

lemma family_inter: "queue_family n H Q \<Longrightarrow> k \<noteq> l \<Longrightarrow> set (Q k) \<inter> set (Q l) = {}"
  by (simp add: queue_family_def)

lemma family_distinct: "queue_family n H Q \<Longrightarrow> distinct (Q k)"
  using family_rep [of n H Q k] family_none [of n H Q k] by (cases "H k") (auto simp: queue_rep_def)

text \<open>An update of one queue that leaves the links of the items of the others alone.\<close>

lemma family_update:
  assumes fam: "queue_family n H Q" and rep: "queue_rep n' q' xs"
    and other: "\<And>l j. l \<noteq> k \<Longrightarrow> j \<in> set (Q l) \<Longrightarrow> n' j = n j \<and> j \<notin> set xs"
    and linked: "\<And>j. n' j \<noteq> NotInQueue \<longleftrightarrow> j \<in> set xs \<or> (\<exists>l. l \<noteq> k \<and> j \<in> set (Q l))"
  shows "queue_family n' (H(k := Some q')) (Q(k := xs))"
proof -
  have "queue_rep n' q (Q l)" if "l \<noteq> k" "H l = Some q" for l q
    using family_rep [OF fam that(2)] other [OF that(1)] queue_rep_cong [of "Q l" n' n q] by simp
  then have "case (H(k := Some q')) l of None \<Rightarrow> (Q(k := xs)) l = [] | Some q \<Rightarrow> queue_rep n' q ((Q(k := xs)) l)" for l
    using rep family_none [OF fam, of l] by (cases "H l") auto
  moreover have "set ((Q(k := xs)) a) \<inter> set ((Q(k := xs)) b) = {}" if "a \<noteq> b" for a b
    using that other fam unfolding queue_family_def by auto
  moreover have "n' i \<noteq> NotInQueue \<longleftrightarrow> (\<exists>l. i \<in> set ((Q(k := xs)) l))" for i
    unfolding linked by auto
  ultimately show ?thesis by (simp add: queue_family_def)
qed

lemma family_push:
  assumes fam: "queue_family n H Q" and k: "H k = Some q" and free: "n i = NotInQueue"
  shows "\<exists>n' q'. fsock_queue_push n q i = Inr (n', q') \<and>
    queue_family n' (H(k := Some q')) (Q(k := Q k @ [i]))"
proof -
  obtain n' q' where p: "fsock_queue_push n q i = Inr (n', q')" "queue_rep n' q' (Q k @ [i])"
      "n' i = Null" "\<forall>j. j \<noteq> i \<and> j \<notin> set (Q k) \<longrightarrow> n' j = n j"
    using queue_push_rep [OF family_rep [OF fam k] free] by blast
  have i: "i \<notin> set (Q l)" for l using family_linked [OF fam, of i] free by auto
  have "queue_family n' (H(k := Some q')) (Q(k := Q k @ [i]))"
  proof (rule family_update [OF fam p(2)])
    show "n' j = n j \<and> j \<notin> set (Q k @ [i])" if "l \<noteq> k" "j \<in> set (Q l)" for l j
    proof -
      have "j \<noteq> i" "j \<notin> set (Q k)" using that i family_disjoint [OF fam] by auto
      then show ?thesis using p(4) by auto
    qed
    show "n' j \<noteq> NotInQueue \<longleftrightarrow> j \<in> set (Q k @ [i]) \<or> (\<exists>l. l \<noteq> k \<and> j \<in> set (Q l))" for j
    proof (cases "j \<in> set (Q k @ [i])")
      case True
      then show ?thesis using queue_rep_in_queue [OF p(2)] by blast
    next
      case False
      then have "n' j = n j" using p(4) by auto
      then show ?thesis using False family_linked [OF fam, of j] by auto
    qed
  qed
  with p(1) show ?thesis by blast
qed

lemma family_pop:
  assumes fam: "queue_family n H Q" and k: "H k = Some q" and x: "Q k = x # xs"
  shows "\<exists>n' q'. fsock_queue_pop n q = Inr (Some x, n', q') \<and>
    queue_family n' (H(k := Some q')) (Q(k := xs))"
proof -
  obtain q' where p: "fsock_queue_pop n q = Inr (Some x, n(x := NotInQueue), q')" "queue_rep (n(x := NotInQueue)) q' xs"
    using queue_pop_rep [of n q x xs] family_rep [OF fam k] x by auto
  have d: "x \<notin> set xs" using family_distinct [OF fam, of k] x by simp
  have "queue_family (n(x := NotInQueue)) (H(k := Some q')) (Q(k := xs))"
  proof (rule family_update [OF fam p(2)])
    show "(n(x := NotInQueue)) j = n j \<and> j \<notin> set xs" if "l \<noteq> k" "j \<in> set (Q l)" for l j
    proof -
      have "j \<notin> set (Q k)" using that family_disjoint [OF fam] by auto
      then show ?thesis using x by auto
    qed
    show "(n(x := NotInQueue)) j \<noteq> NotInQueue \<longleftrightarrow> j \<in> set xs \<or> (\<exists>l. l \<noteq> k \<and> j \<in> set (Q l))" for j
    proof (cases "j = x")
      case True
      have "x \<notin> set (Q l)" if "l \<noteq> k" for l using family_disjoint [OF fam, of x l k] x that by auto
      then show ?thesis using True d by auto
    next
      case False
      then show ?thesis using family_linked [OF fam, of j] x by (metis fun_upd_other set_ConsD list.set_intros(2))
    qed
  qed
  with p(1) show ?thesis by blast
qed

lemma family_remove:
  assumes fam: "queue_family n H Q" and k: "H k = Some q"
  shows "\<exists>n' q'. fsock_queue_remove n q i = Inr (n', q') \<and>
    queue_family n' (H(k := Some q')) (Q(k := remove1 i (Q k)))"
proof (cases "i \<in> set (Q k)")
  case False
  then have "fsock_queue_remove n q i = Inr (n, q)"
    by (rule queue_remove_foreign [OF family_rep [OF fam k]])
  moreover have "H(k := Some q) = H" "Q(k := remove1 i (Q k)) = Q" using k False by (auto simp: remove1_idem)
  ultimately show ?thesis using fam by auto
next
  case True
  obtain n' q' where p: "fsock_queue_remove n q i = Inr (n', q')" "queue_rep n' q' (remove1 i (Q k))"
      "n' i = NotInQueue" "\<forall>j. j \<notin> set (Q k) \<longrightarrow> n' j = n j"
      "\<forall>j. j \<noteq> i \<longrightarrow> (n' j = NotInQueue \<longleftrightarrow> n j = NotInQueue)"
    using queue_remove_rep [OF family_rep [OF fam k] True] by blast
  have rem: "set (remove1 i (Q k)) = set (Q k) - {i}" using family_distinct [OF fam, of k] by simp
  have "queue_family n' (H(k := Some q')) (Q(k := remove1 i (Q k)))"
  proof (rule family_update [OF fam p(2)])
    show "n' j = n j \<and> j \<notin> set (remove1 i (Q k))" if "l \<noteq> k" "j \<in> set (Q l)" for l j
    proof -
      have "j \<notin> set (Q k)" using that family_disjoint [OF fam] by auto
      then show ?thesis using p(4) rem by auto
    qed
    show "n' j \<noteq> NotInQueue \<longleftrightarrow> j \<in> set (remove1 i (Q k)) \<or> (\<exists>l. l \<noteq> k \<and> j \<in> set (Q l))" for j
    proof (cases "j = i")
      case True
      have "i \<notin> set (Q l)" if "l \<noteq> k" for l using family_disjoint [OF fam, of i l k] \<open>i \<in> set (Q k)\<close> that by auto
      then show ?thesis using True p(3) rem by auto
    next
      case False
      then have "n' j \<noteq> NotInQueue \<longleftrightarrow> (\<exists>l. j \<in> set (Q l))" using p(5) family_linked [OF fam, of j] by simp
      then show ?thesis using False rem by (metis Diff_iff empty_iff insert_iff)
    qed
  qed
  with p(1) show ?thesis by blast
qed

text \<open>A new, empty queue, and a queue that goes away empty.\<close>

lemma family_new:
  assumes "queue_family n H Q" and "H k = None \<or> Q k = []"
  shows "queue_family n (H(k := Some fsock_queue_init)) Q"
  using assms family_none [OF assms(1), of k] by (auto simp: queue_family_def split: option.splits)

lemma family_drop:
  assumes "queue_family n H Q" and "Q k = []"
  shows "queue_family n (H(k := None)) Q"
  using assms by (auto simp: queue_family_def split: option.splits)

text \<open>Handing all items of one queue over to another that has none.\<close>

lemma family_move:
  assumes fam: "queue_family n H Q" and k: "H k = Some q" and l: "Q l = []" and ne: "k \<noteq> l"
  shows "queue_family n (H(k := Some fsock_queue_init, l := Some q)) (Q(l := Q k, k := []))"
proof -
  have "case (H(k := Some fsock_queue_init, l := Some q)) a of None \<Rightarrow> (Q(l := Q k, k := [])) a = []
      | Some q \<Rightarrow> queue_rep n q ((Q(l := Q k, k := [])) a)" for a
    using family_rep [OF fam, of a] family_none [OF fam, of a] family_rep [OF fam k] ne
    by (cases "H a") auto
  moreover have "set ((Q(l := Q k, k := [])) a) \<inter> set ((Q(l := Q k, k := [])) b) = {}" if "a \<noteq> b" for a b
    using that family_inter [OF fam, of a b] family_inter [OF fam, of k b] family_inter [OF fam, of a k]
      family_inter [OF fam, of l b] family_inter [OF fam, of a l] by auto
  moreover have "n i \<noteq> NotInQueue \<longleftrightarrow> (\<exists>a. i \<in> set ((Q(l := Q k, k := [])) a))" for i
  proof -
    have "(\<exists>a. i \<in> set (Q a)) \<longleftrightarrow> (\<exists>a. i \<in> set ((Q(l := Q k, k := [])) a))"
      using l ne by (auto; metis empty_iff empty_set)
    then show ?thesis using family_linked [OF fam, of i] by simp
  qed
  ultimately show ?thesis by (simp add: queue_family_def)
qed

lemma family_splice:
  assumes fam: "queue_family n H Q" and k: "H k = Some q" and l: "H l = Some r" and ne: "k \<noteq> l" and some: "Q l \<noteq> []"
  shows "\<exists>n' q'. queue_splice n q r = Inr (n', q') \<and>
    queue_family n' (H(k := Some q', l := None)) (Q(k := Q k @ Q l, l := []))"
proof -
  have disj: "set (Q k) \<inter> set (Q l) = {}" using fam ne by (simp add: queue_family_def)
  obtain n' q' where p: "queue_splice n q r = Inr (n', q')" "queue_rep n' q' (Q k @ Q l)"
      "\<forall>j. j \<notin> set (Q k) \<longrightarrow> n' j = n j" "\<forall>j. n' j = NotInQueue \<longleftrightarrow> n j = NotInQueue"
    using queue_splice_rep [OF family_rep [OF fam k] family_rep [OF fam l] some disj] by blast
  let ?H = "H(k := Some q', l := None)" and ?Q = "Q(k := Q k @ Q l, l := [])"
  have other: "queue_rep n' q2 (Q a)" if "a \<noteq> k" "H a = Some q2" for a q2
    using family_rep [OF fam that(2)] queue_rep_cong [of "Q a" n' n q2] p(3) family_disjoint [OF fam, of _ a k] that(1)
    by metis
  have "case ?H a of None \<Rightarrow> ?Q a = [] | Some q \<Rightarrow> queue_rep n' q (?Q a)" for a
    using other [of a] family_none [OF fam, of a] p(2) ne by (cases "H a") auto
  moreover have "set (?Q a) \<inter> set (?Q b) = {}" if "a \<noteq> b" for a b
    using that family_inter [OF fam, of a b] family_inter [OF fam, of k b] family_inter [OF fam, of a k]
      family_inter [OF fam, of l b] family_inter [OF fam, of a l] by auto
  moreover have "n' i \<noteq> NotInQueue \<longleftrightarrow> (\<exists>a. i \<in> set (?Q a))" for i
  proof -
    have "(\<exists>a. i \<in> set (Q a)) \<longleftrightarrow> (\<exists>a. i \<in> set (?Q a))"
      using ne by (auto; metis)
    then show ?thesis using family_linked [OF fam, of i] p(4) by simp
  qed
  ultimately have "queue_family n' ?H ?Q" by (simp add: queue_family_def)
  with p(1) show ?thesis by blast
qed

subsection \<open>The interface of a FIFO queue\<close>

text \<open>
  What the clients of a queue rely on. \<open>'h\<close> is whatever state the queue lives in and \<open>'q\<close>
  the queue's own header; \<open>rep h q xs\<close> says that the queue holds \<open>xs\<close>, oldest first, and
  \<open>linked h i\<close> that \<open>i\<close> is in some queue.
\<close>

locale fifo_queue =
  fixes rep :: "'h \<Rightarrow> 'q \<Rightarrow> 'i list \<Rightarrow> bool"
    and linked :: "'h \<Rightarrow> 'i \<Rightarrow> bool"
    and push :: "'h \<Rightarrow> 'q \<Rightarrow> 'i \<Rightarrow> fault + ('h \<times> 'q)"
    and pop :: "'h \<Rightarrow> 'q \<Rightarrow> fault + ('i option \<times> 'h \<times> 'q)"
  assumes rep_linked: "rep h q xs \<Longrightarrow> x \<in> set xs \<Longrightarrow> linked h x"
    and push_appends: "rep h q xs \<Longrightarrow> \<not> linked h i \<Longrightarrow>
      \<exists>h' q'. push h q i = Inr (h', q') \<and> rep h' q' (xs @ [i]) \<and>
        (\<forall>j. linked h' j \<longleftrightarrow> linked h j \<or> j = i)"
    and push_linked: "linked h i \<Longrightarrow> push h q i = Inl Abort"
    and pop_empty: "rep h q [] \<Longrightarrow> pop h q = Inr (None, h, q)"
    and pop_oldest: "rep h q (x # xs) \<Longrightarrow>
      \<exists>h' q'. pop h q = Inr (Some x, h', q') \<and> rep h' q' xs \<and>
        (\<forall>j. linked h' j \<longleftrightarrow> linked h j \<and> j \<noteq> x)"

text \<open>
  The loop \<open>while (item = pop (q)) ...\<close> of a worker: run the items in turn until the stop
  item turns up, and then drop what is left. The result lists the items that were run
  and says whether the stop item was seen.
\<close>

partial_function (option) discard_with ::
  "('h \<Rightarrow> 'q \<Rightarrow> fault + ('i option \<times> 'h \<times> 'q)) \<Rightarrow> 'h \<Rightarrow> 'q \<Rightarrow> (fault + 'h) option" where
  "discard_with pop h q =
     (case pop h q of
        Inl f \<Rightarrow> Some (Inl f)
      | Inr (None, h1, q1) \<Rightarrow> Some (Inr h1)
      | Inr (Some i, h1, q1) \<Rightarrow> discard_with pop h1 q1)"

partial_function (option) drain_with ::
  "('h \<Rightarrow> 'q \<Rightarrow> fault + ('i option \<times> 'h \<times> 'q)) \<Rightarrow> ('i \<Rightarrow> bool) \<Rightarrow> ('i \<Rightarrow> 'h \<Rightarrow> fault + 'h) \<Rightarrow>
   'i list \<Rightarrow> 'h \<Rightarrow> 'q \<Rightarrow> (fault + ('i list \<times> bool \<times> 'h)) option" where
  "drain_with pop stop exec done_items h q =
     (case pop h q of
        Inl f \<Rightarrow> Some (Inl f)
      | Inr (None, h1, q1) \<Rightarrow> Some (Inr (rev done_items, False, h1))
      | Inr (Some i, h1, q1) \<Rightarrow>
          if stop i then
            (case discard_with pop h1 q1 of
               None \<Rightarrow> None
             | Some (Inl f) \<Rightarrow> Some (Inl f)
             | Some (Inr h2) \<Rightarrow> Some (Inr (rev done_items, True, h2)))
          else
            (case exec i h1 of
               Inl f \<Rightarrow> Some (Inl f)
             | Inr h2 \<Rightarrow> drain_with pop stop exec (i # done_items) h2 q1))"

context fifo_queue
begin

lemma push_pop_only: 
  assumes "rep h q []" and "\<not> linked h i"
  shows "\<exists>h1 q1 h2 q2. push h q i = Inr (h1, q1) \<and> pop h1 q1 = Inr (Some i, h2, q2) \<and> rep h2 q2 []"
proof -
  obtain h1 q1 where 1: "push h q i = Inr (h1, q1)" "rep h1 q1 [i]"
    using push_appends [OF assms] by auto
  then show ?thesis using pop_oldest [of h1 q1 i "[]"] by auto
qed

lemma discard_rest:
  assumes pop_inv: "\<And>h q i h' q'. Inv h \<Longrightarrow> pop h q = Inr (i, h', q') \<Longrightarrow> Inv h'"
  shows "rep h q xs \<Longrightarrow> Inv h \<Longrightarrow> \<exists>h' q'. discard_with pop h q = Some (Inr h') \<and> rep h' q' [] \<and> Inv h'"
proof (induction xs arbitrary: h q)
  case Nil
  then show ?case by (auto simp: discard_with.simps pop_empty)
next
  case (Cons x xs)
  obtain h1 q1 where 1: "pop h q = Inr (Some x, h1, q1)" "rep h1 q1 xs"
    using pop_oldest [OF Cons.prems(1)] by blast
  have "Inv h1" by (rule pop_inv [OF Cons.prems(2) 1(1)])
  then show ?case using Cons.IH [OF 1(2)] 1(1) by (subst discard_with.simps) simp
qed

lemma drain_runs:
  assumes exec: "\<And>i h q ys ds. i \<in> A \<Longrightarrow> i \<notin> set ds \<Longrightarrow> rep h q ys \<Longrightarrow> Inv ds h \<Longrightarrow>
      \<exists>h'. exec i h = Inr h' \<and> rep h' q ys \<and> Inv (ds @ [i]) h'"
    and pop_inv: "\<And>ds h q i h' q'. Inv ds h \<Longrightarrow> pop h q = Inr (i, h', q') \<Longrightarrow> Inv ds h'"
  shows "rep h q xs \<Longrightarrow> Inv (rev ds) h \<Longrightarrow> distinct (rev ds @ xs) \<Longrightarrow> set (takeWhile (\<lambda>i. \<not> stop i) xs) \<subseteq> A \<Longrightarrow>
    \<exists>h' q'. drain_with pop stop exec ds h q =
        Some (Inr (rev ds @ takeWhile (\<lambda>i. \<not> stop i) xs, list_ex stop xs, h')) \<and>
      rep h' q' [] \<and> Inv (rev ds @ takeWhile (\<lambda>i. \<not> stop i) xs) h'"
proof (induction xs arbitrary: h q ds)
  case Nil
  then show ?case by (auto simp: drain_with.simps pop_empty)
next
  case (Cons x xs)
  obtain h1 q1 where 1: "pop h q = Inr (Some x, h1, q1)" "rep h1 q1 xs"
    using pop_oldest [OF Cons.prems(1)] by blast
  have inv1: "Inv (rev ds) h1" using pop_inv [OF Cons.prems(2) 1(1)] .
  show ?case
  proof (cases "stop x")
    case True
    have "\<exists>h2 q2. discard_with pop h1 q1 = Some (Inr h2) \<and> rep h2 q2 [] \<and> Inv (rev ds) h2"
      by (rule discard_rest [where Inv = "Inv (rev ds)", OF _ 1(2) inv1]) (rule pop_inv)
    then obtain h2 q2 where "discard_with pop h1 q1 = Some (Inr h2)" "rep h2 q2 []" "Inv (rev ds) h2"
      by blast
    then have "drain_with pop stop exec ds h q = Some (Inr (rev ds, True, h2)) \<and> rep h2 q2 [] \<and> Inv (rev ds) h2"
      using 1(1) True by (subst drain_with.simps) simp
    then show ?thesis using True by auto
  next
    case False
    obtain h2 where 2: "exec x h1 = Inr h2" "rep h2 q1 xs" "Inv (rev ds @ [x]) h2"
      using exec [OF _ _ 1(2) inv1, of x] Cons.prems(3,4) False by auto
    have "drain_with pop stop exec ds h q = drain_with pop stop exec (x # ds) h2 q1"
      using 1(1) 2(1) False by (subst drain_with.simps) simp
    then show ?thesis using Cons.IH [OF 2(2), of "x # ds"] 2(3) Cons.prems(3,4) False by simp
  qed
qed

end

interpretation link_queue: fifo_queue queue_rep fsock_queue_item_isinqueue fsock_queue_push fsock_queue_pop
proof unfold_locales
  fix h :: "'a links" and q :: "'a queue" and xs x i
  show "queue_rep h q xs \<Longrightarrow> x \<in> set xs \<Longrightarrow> fsock_queue_item_isinqueue h x"
    by (simp add: fsock_queue_item_isinqueue_def queue_rep_in_queue)
  show "\<exists>h' q'. fsock_queue_push h q i = Inr (h', q') \<and> queue_rep h' q' (xs @ [i]) \<and>
      (\<forall>j. fsock_queue_item_isinqueue h' j \<longleftrightarrow> fsock_queue_item_isinqueue h j \<or> j = i)"
    if rep: "queue_rep h q xs" and new: "\<not> fsock_queue_item_isinqueue h i"
  proof -
    have free: "h i = NotInQueue" using new by (simp add: fsock_queue_item_isinqueue_def)
    obtain h' q' where 1: "fsock_queue_push h q i = Inr (h', q')" "queue_rep h' q' (xs @ [i])"
        "h' i = Null" "\<forall>j. j \<noteq> i \<and> j \<notin> set xs \<longrightarrow> h' j = h j"
      using queue_push_rep [OF rep free] by blast
    have "h' j \<noteq> NotInQueue \<longleftrightarrow> h j \<noteq> NotInQueue \<or> j = i" for j
      using 1 queue_rep_in_queue [OF 1(2)] queue_rep_in_queue [OF rep] by (cases "j = i"; cases "j \<in> set xs") auto
    with 1 show ?thesis by (simp add: fsock_queue_item_isinqueue_def)
  qed
  show "fsock_queue_item_isinqueue h i \<Longrightarrow> fsock_queue_push h q i = Inl Abort"
    by (simp add: fsock_queue_push_def fsock_queue_item_isinqueue_def)
  show "queue_rep h q [] \<Longrightarrow> fsock_queue_pop h q = Inr (None, h, q)"
    by (simp add: queue_pop_empty)
  show "queue_rep h q (x # xs) \<Longrightarrow>
      \<exists>h' q'. fsock_queue_pop h q = Inr (Some x, h', q') \<and> queue_rep h' q' xs \<and>
        (\<forall>j. fsock_queue_item_isinqueue h' j \<longleftrightarrow> fsock_queue_item_isinqueue h j \<and> j \<noteq> x)"
    using queue_pop_rep [of h q x xs] by (auto simp: fsock_queue_item_isinqueue_def)
qed

subsection \<open>Properties of the queue\<close>

text \<open>
  pushing an item that is in no queue appends it, and an item that is already in a queue
  cannot be pushed again; the links of items outside the queue are not touched.
\<close>

theorem queue_push_appends:
  assumes "queue_rep n q xs"
  shows "if fsock_queue_item_isinqueue n i then fsock_queue_push n q i = Inl Abort
    else \<exists>n' q'. fsock_queue_push n q i = Inr (n', q') \<and> queue_rep n' q' (xs @ [i]) \<and>
           (\<forall>j. j \<noteq> i \<and> j \<notin> set xs \<longrightarrow> n' j = n j)"
  using queue_push_rep [OF assms, of i]
  by (auto simp: fsock_queue_item_isinqueue_def fsock_queue_push_def)

theorem queue_push_appends_witness:
  "\<exists>n' q'. fsock_queue_push ((\<lambda>_. NotInQueue)(1 := Null)) \<lparr>q_head = Item 1, q_tail = Item 1\<rparr> (2::int) = Inr (n', q') \<and>
     queue_rep n' q' [1, 2]"
  using queue_push_appends [of "(\<lambda>_. NotInQueue)(1 := Null)" "\<lparr>q_head = Item 1, q_tail = Item 1\<rparr>" "[1]" "2::int"]
  by (simp add: queue_rep_def fsock_queue_item_isinqueue_def) blast

text \<open>
  popping returns the oldest item and unlinks it, or NULL when there is none.
\<close>

theorem queue_pop_oldest:
  assumes "queue_rep n q xs"
  shows "\<exists>n' q'. fsock_queue_pop n q = Inr ((case xs of [] \<Rightarrow> None | x # _ \<Rightarrow> Some x), n', q') \<and>
    queue_rep n' q' (tl xs) \<and> n' = (case xs of [] \<Rightarrow> n | x # _ \<Rightarrow> n(x := NotInQueue))"
  using assms queue_pop_rep [of n q] queue_pop_empty [of n] by (cases xs) auto

theorem queue_pop_oldest_witness:
  "\<exists>n' q'. fsock_queue_pop ((\<lambda>_. NotInQueue)(1 := Item 2, 2 := Null)) \<lparr>q_head = Item 1, q_tail = Item 2\<rparr> = Inr (Some (1::int), n', q') \<and>
     queue_rep n' q' [2]"
  using queue_pop_oldest [of "(\<lambda>_. NotInQueue)(1 := Item 2, 2 := Null)" "\<lparr>q_head = Item 1, q_tail = Item 2\<rparr>" "[1, 2::int]"]
  by (auto simp: queue_rep_def)

text \<open>
  C29: removing an item takes it out of the queue wherever it stands, first, last or between,
  and leaves the order of the others; an item of another queue, or of none, changes nothing.
\<close>

theorem queue_remove_exact:
  assumes "queue_rep n q xs"
  shows "\<exists>n' q'. fsock_queue_remove n q i = Inr (n', q') \<and> queue_rep n' q' (remove1 i xs) \<and>
    n' i = (if i \<in> set xs then NotInQueue else n i) \<and>
    (\<forall>j. j \<notin> set xs \<longrightarrow> n' j = n j) \<and>
    (\<forall>j. j \<noteq> i \<longrightarrow> (n' j = NotInQueue \<longleftrightarrow> n j = NotInQueue))"
proof (cases "i \<in> set xs")
  case True
  then show ?thesis using queue_remove_rep [OF assms True] by auto
next
  case False
  then show ?thesis using queue_remove_foreign [OF assms False] assms by (simp add: remove1_idem)
qed

theorem queue_remove_exact_witness:
  "\<exists>n' q'. fsock_queue_remove ((\<lambda>_. NotInQueue)(1 := Item 2, 2 := Null)) \<lparr>q_head = Item 1, q_tail = Item 2\<rparr> (2::int) = Inr (n', q') \<and>
     queue_rep n' q' [1] \<and> n' 2 = NotInQueue"
  using queue_remove_exact [of "(\<lambda>_. NotInQueue)(1 := Item 2, 2 := Null)" "\<lparr>q_head = Item 1, q_tail = Item 2\<rparr>" "[1, 2]" "2::int"]
  by (auto simp: queue_rep_def)

text \<open>
  hanging a non-empty local queue behind another appends its items in order and empties
  neither; with an empty local queue the operation destroys the other queue's tail.
\<close>

theorem queue_splice_appends:
  assumes "queue_rep n q xs" and "queue_rep n l ys" and "set xs \<inter> set ys = {}"
  shows "\<exists>n' q'. queue_splice n q l = Inr (n', q') \<and>
    (if ys \<noteq> [] \<or> xs = [] then queue_rep n' q' (xs @ ys) else \<forall>zs. \<not> queue_rep n' q' zs)"
proof (cases "ys = []")
  case True
  then have l: "l = fsock_queue_init" using assms(2) by simp
  show ?thesis
  proof (cases "xs = []")
    case True
    then show ?thesis using assms(1) \<open>ys = []\<close> l by (simp add: queue_splice_def fsock_queue_init_def)
  next
    case False
    then show ?thesis using queue_splice_empty_breaks [OF assms(1) False] True l by auto
  qed
next
  case False
  then show ?thesis using queue_splice_rep [OF assms(1,2) False assms(3)] by auto
qed

theorem queue_splice_appends_witness:
  "\<exists>n' q'. queue_splice ((\<lambda>_. NotInQueue)(1 := Null, 2 := Null)) \<lparr>q_head = Item 1, q_tail = Item 1\<rparr>
       \<lparr>q_head = Item 2, q_tail = Item (2::int)\<rparr> = Inr (n', q') \<and> queue_rep n' q' [1, 2]"
  using queue_splice_appends [of "(\<lambda>_. NotInQueue)(1 := Null, 2 := Null)" "\<lparr>q_head = Item 1, q_tail = Item 1\<rparr>"
      "[1]" "\<lparr>q_head = Item 2, q_tail = Item 2\<rparr>" "[2::int]"]
  by (auto simp: queue_rep_def)

end
