(* ===== verification/Posix.thy ===== *)
theory Posix
  imports Prelude "HOL-Library.Signed_Division"
begin

text \<open>
  The operating system as the library calls it. Nothing here is a definition of what the
  kernel does: \<open>'k posix\<close> is a record of system calls, functions over a kernel state \<open>'k\<close>,
  and every definition that makes system calls takes such a record as its argument. What a
  property needs to know of a call it states as a hypothesis.

  A call that fails returns \<open>Err e\<close>; in C this is the result \<open>-1\<close> with \<open>errno = e\<close>.
\<close>

subsection \<open>Data\<close>

datatype errno =
    ENOMEM | EINVAL | EAGAIN | EWOULDBLOCK | EINTR | EINPROGRESS | ETIMEDOUT | EMFILE | ENFILE
  | EBADF | ECONNRESET | Other_errno nat

datatype sysret = Ret int | Err errno

type_synonym byte = "8 word"

datatype family = AF_UNSPEC | AF_INET | AF_INET6 | AF_LOCAL

text \<open>
  A socket address: the address text is what \<open>inet_ntop\<close> writes for it and the port is
  what \<open>ntohs\<close> makes of the stored one.
\<close>

datatype sockaddr = Sa_inet string int | Sa_inet6 string int | Sa_unix string | Sa_other

datatype sockopt =
    SO_KEEPALIVE | SO_SNDBUF | SO_SNDTIMEO | SO_REUSEADDR
  | TCP_KEEPIDLE | TCP_KEEPINTVL | TCP_KEEPCNT | TCP_NODELAY | IPV6_V6ONLY

record addrinfo =
  ai_family :: family
  ai_socktype :: int
  ai_protocol :: int
  ai_addr :: sockaddr

text \<open>The fields of \<open>struct addrinfo hints\<close> the code sets.\<close>

record hints =
  h_family :: family
  h_numeric :: bool      \<comment> \<open>\<open>AI_NUMERICHOST\<close>\<close>
  h_passive :: bool      \<comment> \<open>\<open>AI_PASSIVE\<close>\<close>

text \<open>
  A successful \<open>getaddrinfo\<close> returns a list with at least one entry, hence the pair of
  the first entry and the rest; a failing one returns its own error number.
\<close>

record 'k posix =
  sys_socket :: "'k \<Rightarrow> family \<Rightarrow> int \<Rightarrow> int \<Rightarrow> 'k \<times> sysret"
  sys_close :: "'k \<Rightarrow> int \<Rightarrow> 'k \<times> sysret"
  sys_setsockopt :: "'k \<Rightarrow> int \<Rightarrow> sockopt \<Rightarrow> int list \<Rightarrow> 'k \<times> sysret"
  sys_getfl :: "'k \<Rightarrow> int \<Rightarrow> 'k \<times> sysret"
  sys_setfl :: "'k \<Rightarrow> int \<Rightarrow> 32 word \<Rightarrow> 'k \<times> sysret"
  sys_bind :: "'k \<Rightarrow> int \<Rightarrow> sockaddr \<Rightarrow> 'k \<times> sysret"
  sys_listen :: "'k \<Rightarrow> int \<Rightarrow> int \<Rightarrow> 'k \<times> sysret"
  sys_connect :: "'k \<Rightarrow> int \<Rightarrow> sockaddr \<Rightarrow> 'k \<times> sysret"
  sys_accept :: "'k \<Rightarrow> int \<Rightarrow> 'k \<times> sysret \<times> sockaddr"
  sys_getpeername :: "'k \<Rightarrow> int \<Rightarrow> 'k \<times> sysret \<times> sockaddr"
  sys_getsockname :: "'k \<Rightarrow> int \<Rightarrow> 'k \<times> sysret \<times> sockaddr"
  sys_chmod :: "'k \<Rightarrow> string \<Rightarrow> int \<Rightarrow> 'k \<times> sysret"
  sys_read :: "'k \<Rightarrow> int \<Rightarrow> nat \<Rightarrow> 'k \<times> (errno + byte list)"
  sys_write :: "'k \<Rightarrow> int \<Rightarrow> byte list \<Rightarrow> 'k \<times> sysret"
  sys_poll_in :: "'k \<Rightarrow> int \<Rightarrow> int \<Rightarrow> 'k \<times> sysret"
  sys_eventfd :: "'k \<Rightarrow> 'k \<times> sysret"
  sys_pipe :: "'k \<Rightarrow> 'k \<times> (errno + int \<times> int)"
  sys_socketpair :: "'k \<Rightarrow> 'k \<times> (errno + int \<times> int)"
  sys_setfd :: "'k \<Rightarrow> int \<Rightarrow> 'k \<times> sysret"      \<comment> \<open>\<open>fcntl (fd, F_SETFD, FD_CLOEXEC)\<close>\<close>
  sys_send :: "'k \<Rightarrow> int \<Rightarrow> byte list \<Rightarrow> 'k \<times> sysret"
  sys_recv :: "'k \<Rightarrow> int \<Rightarrow> nat \<Rightarrow> 'k \<times> (errno + byte list)"
  sys_getaddrinfo :: "'k \<Rightarrow> string \<Rightarrow> string option \<Rightarrow> hints \<Rightarrow> 'k \<times> (int + addrinfo \<times> addrinfo list)"
  os_strerror :: "errno \<Rightarrow> string"
  os_gai_strerror :: "int \<Rightarrow> string"

text \<open>The Linux value of the \<open>fcntl\<close> flag, the platform the build files are configured for.\<close>

definition O_NONBLOCK :: "32 word" where
  "O_NONBLOCK = 2048"

text \<open>Its numbers for the errors that are returned as results.\<close>

definition c_EINTR :: int where "c_EINTR = 4"
definition c_EBADF :: int where "c_EBADF = 9"
definition c_EAGAIN :: int where "c_EAGAIN = 11"
definition c_EINVAL :: int where "c_EINVAL = 22"
definition c_EMFILE :: int where "c_EMFILE = 24"
definition c_ETIMEDOUT :: int where "c_ETIMEDOUT = 110"

subsection \<open>Decimal text\<close>

text \<open>What \<open>printf\<close> writes for \<open>%d\<close>.\<close>

definition digit_char :: "nat \<Rightarrow> char" where
  "digit_char d = char_of (48 + d)"

fun show_nat :: "nat \<Rightarrow> string" where
  "show_nat n = (if n < 10 then [digit_char n] else show_nat (n div 10) @ [digit_char (n mod 10)])"

declare show_nat.simps [simp del]

definition show_int :: "int \<Rightarrow> string" where
  "show_int i = (if i < 0 then CHR ''-'' # show_nat (nat (- i)) else show_nat (nat i))"

text \<open>\<open>snprintf (buf, n, ...)\<close> keeps at most \<open>n - 1\<close> characters and returns the full length.\<close>

definition c_snprintf :: "nat \<Rightarrow> string \<Rightarrow> string \<times> int" where
  "c_snprintf n s = (take (n - 1) s, int (length s))"

lemma digit_char_inj: "a < 10 \<Longrightarrow> b < 10 \<Longrightarrow> digit_char a = digit_char b \<Longrightarrow> a = b"
  unfolding digit_char_def by (drule arg_cong [where f = "of_char :: char \<Rightarrow> nat"]) simp

lemma digit_char_range: "d < 10 \<Longrightarrow> 48 \<le> (of_char (digit_char d) :: nat) \<and> (of_char (digit_char d) :: nat) \<le> 57"
  by (simp add: digit_char_def)

lemma show_nat_digits: "c \<in> set (show_nat n) \<Longrightarrow> 48 \<le> (of_char c :: nat) \<and> (of_char c :: nat) \<le> 57"
proof (induction n rule: show_nat.induct)
  case (1 n)
  then show ?case
    using digit_char_range [of n] digit_char_range [of "n mod 10"]
    by (subst (asm) (2) show_nat.simps) (auto split: if_splits)
qed

lemma show_nat_not_Nil [simp]: "show_nat n \<noteq> []" "[] \<noteq> show_nat n"
  by (subst show_nat.simps, simp)+

lemma show_nat_inj: "show_nat m = show_nat n \<Longrightarrow> m = n"
proof (induction m arbitrary: n rule: show_nat.induct)
  case (1 m)
  have eq: "(if m < 10 then [digit_char m] else show_nat (m div 10) @ [digit_char (m mod 10)]) =
      (if n < 10 then [digit_char n] else show_nat (n div 10) @ [digit_char (n mod 10)])"
    using "1.prems" show_nat.simps [of m] show_nat.simps [of n] by simp
  show ?case
  proof (cases "m < 10")
    case True
    with eq show ?thesis by (auto split: if_splits dest: digit_char_inj)
  next
    case False
    with eq have "\<not> n < 10" "show_nat (m div 10) = show_nat (n div 10)"
        "digit_char (m mod 10) = digit_char (n mod 10)"
      by (auto split: if_splits)
    moreover from this(3) have "m mod 10 = n mod 10" by (rule digit_char_inj [rotated 2]) simp_all
    ultimately
    have "m div 10 = n div 10" "m mod 10 = n mod 10" using "1.IH" [OF False] by simp_all
    then show ?thesis by (metis div_mult_mod_eq)
  qed
qed

text \<open>Reading decimal text, as a reference for what was written.\<close>

fun read_digits :: "nat \<Rightarrow> string \<Rightarrow> nat option" where
  "read_digits n [] = Some n"
| "read_digits n (c # cs) =
     (let d = of_char c in if 48 \<le> d \<and> d \<le> (57 :: nat) then read_digits (10 * n + (d - 48)) cs else None)"

definition read_nat :: "string \<Rightarrow> nat option" where
  "read_nat cs = (if cs = [] then None else read_digits 0 cs)"

definition read_int :: "string \<Rightarrow> int option" where
  "read_int cs = (case cs of
     CHR ''-'' # ds \<Rightarrow> map_option (\<lambda>n. - int n) (read_nat ds)
   | _ \<Rightarrow> map_option int (read_nat cs))"

lemma read_digits_append: "read_digits n (xs @ ys) = Option.bind (read_digits n xs) (\<lambda>m. read_digits m ys)"
  by (induction n xs rule: read_digits.induct) (simp_all add: Let_def)

lemma read_digit_char: "d < 10 \<Longrightarrow> read_digits n [digit_char d] = Some (10 * n + d)"
  using digit_char_range [of d] by (simp add: digit_char_def)

lemma read_digits_show: "read_digits 0 (show_nat n) = Some n"
proof (induction n rule: show_nat.induct)
  case (1 n)
  show ?case
  proof (cases "n < 10")
    case True
    then show ?thesis using read_digit_char [of n 0] by (subst show_nat.simps) simp
  next
    case False
    then show ?thesis using "1.IH" read_digit_char [of "n mod 10" "n div 10"]
      by (subst show_nat.simps) (simp add: read_digits_append)
  qed
qed

lemma read_nat_show [simp]: "read_nat (show_nat n) = Some n"
  by (simp add: read_nat_def read_digits_show)

lemma show_nat_no_minus: "show_nat n \<noteq> CHR ''-'' # s"
proof
  assume "show_nat n = CHR ''-'' # s"
  then show False using show_nat_digits [of "CHR ''-''" n] by simp
qed

text \<open>What \<open>%d\<close> writes is read back.\<close>

lemma read_int_show [simp]: "read_int (show_int i) = Some i"
proof (cases "i < 0")
  case False
  obtain c cs where s: "show_nat (nat i) = c # cs" "c \<noteq> CHR ''-''"
    using show_nat_no_minus [of "nat i"] by (cases "show_nat (nat i)") auto
  have "read_int (c # cs) = map_option int (read_nat (c # cs))" using s(2) by (auto simp: read_int_def split: char.split bool.split)
  then show ?thesis using False s(1) read_nat_show [of "nat i"] by (simp add: show_int_def)
qed (simp add: show_int_def read_int_def)

lemma length_show_nat: "n < 10 ^ k \<Longrightarrow> 0 < k \<Longrightarrow> length (show_nat n) \<le> k"
proof (induction n arbitrary: k rule: show_nat.induct)
  case (1 n)
  show ?case
  proof (cases "n < 10")
    case True
    with "1.prems" show ?thesis by (subst show_nat.simps) simp
  next
    case False
    then obtain j where k: "k = Suc j" "0 < j" using "1.prems" by (cases k; cases "k = 1") auto
    then have "n div 10 < 10 ^ j" using "1.prems" by (simp add: less_mult_imp_div_less)
    with False k "1.IH" [of j] show ?thesis by (subst show_nat.simps) simp
  qed
qed

end
