(* ===== verification/Anet.thy ===== *)
theory Anet
  imports Posix
begin

unbundle bit_operations_syntax

text \<open>
  The TCP and Unix socket helpers of \<open>utils/anet.h\<close> and \<open>utils/anet.c\<close>. The state of a
  call is the kernel, \<open>errno\<close>, and the message the caller's \<open>err\<close> buffer holds
  (\<open>None\<close> as long as nothing was written to it; a caller without a buffer ignores it). Every operation returns its C result and
  the new state; the descriptor accounting below shows which descriptors it leaves open.
\<close>

subsection \<open>State and system calls\<close>

record 'k anet =
  a_kern :: 'k
  a_errno :: errno
  a_err :: "string option"

definition ANET_OK :: int where "ANET_OK = 0"
definition ANET_ERR :: int where "ANET_ERR = -1"

text \<open>A system call as C sees it: \<open>-1\<close> and \<open>errno\<close>, or the result.\<close>

definition c_call :: "('k \<Rightarrow> 'k \<times> sysret) \<Rightarrow> 'k anet \<Rightarrow> int \<times> 'k anet" where
  "c_call f st =
     (case f (a_kern st) of
        (k, Ret n) \<Rightarrow> (n, st\<lparr>a_kern := k\<rparr>)
      | (k, Err e) \<Rightarrow> (-1, st\<lparr>a_kern := k, a_errno := e\<rparr>))"

text \<open>
  \<open>vsnprintf (err, ANET_ERR_LEN, ...)\<close>. The buffer is given by its real size: a write past
  it is a fault.
\<close>

definition ANET_ERR_LEN :: nat where "ANET_ERR_LEN = 256"

definition anet_err_fits :: "nat \<Rightarrow> string \<Rightarrow> bool" where
  "anet_err_fits sz msg \<longleftrightarrow> length (fst (c_snprintf ANET_ERR_LEN msg)) + 1 \<le> sz"

definition anetSetError :: "string \<Rightarrow> 'k anet \<Rightarrow> 'k anet" where
  "anetSetError msg st = st\<lparr>a_err := Some (fst (c_snprintf ANET_ERR_LEN msg))\<rparr>"

definition anetSetErrno :: "'k posix \<Rightarrow> string \<Rightarrow> 'k anet \<Rightarrow> 'k anet" where
  "anetSetErrno P msg st = anetSetError (msg @ os_strerror P (a_errno st)) st"

subsection \<open>Blocking mode and socket options\<close>

text \<open>\<open>F_GETFL\<close> returns the flag word as an \<open>int\<close>.\<close>

definition anetSetBlock :: "'k posix \<Rightarrow> int \<Rightarrow> bool \<Rightarrow> 'k anet \<Rightarrow> int \<times> 'k anet" where
  "anetSetBlock P fd non_block st =
     (let (flags, st1) = c_call (\<lambda>k. sys_getfl P k fd) st in
      if flags = -1 then (ANET_ERR, anetSetErrno P ''fcntl(F_GETFL): '' st1) else
      let flags1 = (if non_block then word_of_int flags OR O_NONBLOCK
                    else word_of_int flags AND NOT O_NONBLOCK);
          (rc, st2) = c_call (\<lambda>k. sys_setfl P k fd flags1) st1 in
      if rc = -1 then (ANET_ERR, anetSetErrno P ''fcntl(F_SETFL,O_NONBLOCK): '' st2)
      else (ANET_OK, st2))"

definition anetNonBlock :: "'k posix \<Rightarrow> int \<Rightarrow> 'k anet \<Rightarrow> int \<times> 'k anet" where
  "anetNonBlock P fd st = anetSetBlock P fd True st"

definition anetBlock :: "'k posix \<Rightarrow> int \<Rightarrow> 'k anet \<Rightarrow> int \<times> 'k anet" where
  "anetBlock P fd st = anetSetBlock P fd False st"

text \<open>C's division truncates towards zero (\<open>sdiv\<close>, \<open>smod\<close>).\<close>

definition keepalive_intvl :: "int \<Rightarrow> int" where
  "keepalive_intvl interval = (let val = interval sdiv 3 in if val = 0 then 1 else val)"

text \<open>Three of the messages of \<open>anetKeepAlive\<close> end with a newline.\<close>

definition anetSetErrnoNl :: "'k posix \<Rightarrow> string \<Rightarrow> 'k anet \<Rightarrow> 'k anet" where
  "anetSetErrnoNl P msg st = anetSetError (msg @ os_strerror P (a_errno st) @ [CHR 0x0A]) st"

definition anetKeepAlive :: "'k posix \<Rightarrow> int \<Rightarrow> int \<Rightarrow> 'k anet \<Rightarrow> int \<times> 'k anet" where
  "anetKeepAlive P fd interval st =
     (let (r1, st1) = c_call (\<lambda>k. sys_setsockopt P k fd SO_KEEPALIVE [1]) st in
      if r1 = -1 then (ANET_ERR, anetSetErrno P ''setsockopt SO_KEEPALIVE: '' st1) else
      let (r2, st2) = c_call (\<lambda>k. sys_setsockopt P k fd TCP_KEEPIDLE [interval]) st1 in
      if r2 < 0 then (ANET_ERR, anetSetErrnoNl P ''setsockopt TCP_KEEPIDLE: '' st2) else
      let (r3, st3) = c_call (\<lambda>k. sys_setsockopt P k fd TCP_KEEPINTVL [keepalive_intvl interval]) st2 in
      if r3 < 0 then (ANET_ERR, anetSetErrnoNl P ''setsockopt TCP_KEEPINTVL: '' st3) else
      let (r4, st4) = c_call (\<lambda>k. sys_setsockopt P k fd TCP_KEEPCNT [3]) st3 in
      if r4 < 0 then (ANET_ERR, anetSetErrnoNl P ''setsockopt TCP_KEEPCNT: '' st4) else
      (ANET_OK, st4))"

text \<open>The helpers that set one option and report a failure.\<close>

definition anet_setopt ::
  "'k posix \<Rightarrow> int \<Rightarrow> sockopt \<Rightarrow> int list \<Rightarrow> string \<Rightarrow> 'k anet \<Rightarrow> int \<times> 'k anet" where
  "anet_setopt P fd opt vals what st =
     (let (rc, st1) = c_call (\<lambda>k. sys_setsockopt P k fd opt vals) st in
      if rc = -1 then (ANET_ERR, anetSetErrno P what st1) else (ANET_OK, st1))"

definition anetSetTcpNoDelay :: "'k posix \<Rightarrow> int \<Rightarrow> int \<Rightarrow> 'k anet \<Rightarrow> int \<times> 'k anet" where
  "anetSetTcpNoDelay P fd val = anet_setopt P fd TCP_NODELAY [val] ''setsockopt TCP_NODELAY: ''"

definition anetEnableTcpNoDelay :: "'k posix \<Rightarrow> int \<Rightarrow> 'k anet \<Rightarrow> int \<times> 'k anet" where
  "anetEnableTcpNoDelay P fd = anetSetTcpNoDelay P fd 1"

definition anetDisableTcpNoDelay :: "'k posix \<Rightarrow> int \<Rightarrow> 'k anet \<Rightarrow> int \<times> 'k anet" where
  "anetDisableTcpNoDelay P fd = anetSetTcpNoDelay P fd 0"

definition anetSetSendBuffer :: "'k posix \<Rightarrow> int \<Rightarrow> int \<Rightarrow> 'k anet \<Rightarrow> int \<times> 'k anet" where
  "anetSetSendBuffer P fd buffsize = anet_setopt P fd SO_SNDBUF [buffsize] ''setsockopt SO_SNDBUF: ''"

definition anetTcpKeepAlive :: "'k posix \<Rightarrow> int \<Rightarrow> 'k anet \<Rightarrow> int \<times> 'k anet" where
  "anetTcpKeepAlive P fd = anet_setopt P fd SO_KEEPALIVE [1] ''setsockopt SO_KEEPALIVE: ''"

definition anet_timeval :: "int \<Rightarrow> int list" where
  "anet_timeval ms = [ms sdiv 1000, (ms smod 1000) * 1000]"

definition anetSendTimeout :: "'k posix \<Rightarrow> int \<Rightarrow> int \<Rightarrow> 'k anet \<Rightarrow> int \<times> 'k anet" where
  "anetSendTimeout P fd ms = anet_setopt P fd SO_SNDTIMEO (anet_timeval ms) ''setsockopt SO_SNDTIMEO: ''"

definition anetSetReuseAddr :: "'k posix \<Rightarrow> int \<Rightarrow> 'k anet \<Rightarrow> int \<times> 'k anet" where
  "anetSetReuseAddr P fd = anet_setopt P fd SO_REUSEADDR [1] ''setsockopt SO_REUSEADDR: ''"

definition c_close :: "'k posix \<Rightarrow> int \<Rightarrow> 'k anet \<Rightarrow> 'k anet" where
  "c_close P fd st = snd (c_call (\<lambda>k. sys_close P k fd) st)"

definition anetCreateSocket :: "'k posix \<Rightarrow> family \<Rightarrow> 'k anet \<Rightarrow> int \<times> 'k anet" where
  "anetCreateSocket P af st =
     (let (s, st1) = c_call (\<lambda>k. sys_socket P k af 1 0) st in
      if s = -1 then (ANET_ERR, anetSetErrno P ''creating socket: '' st1) else
      let (rc, st2) = anetSetReuseAddr P s st1 in
      if rc = ANET_ERR then (ANET_ERR, c_close P s st2) else (s, st2))"

subsection \<open>Resolving\<close>

text \<open>\<open>inet_ntop\<close> into a buffer of \<open>n\<close> bytes: \<open>None\<close> when the text does not fit.\<close>

definition inet_ntop :: "string \<Rightarrow> nat \<Rightarrow> string option" where
  "inet_ntop text n = (if length text < n then Some text else None)"

definition ANET_NONE :: "32 word" where "ANET_NONE = 0"
definition ANET_IP_ONLY :: "32 word" where "ANET_IP_ONLY = 1"

text \<open>The second component of the result is what was written to \<open>ipbuf\<close>, if anything.\<close>

definition anetGenericResolve ::
  "'k posix \<Rightarrow> string \<Rightarrow> nat \<Rightarrow> 32 word \<Rightarrow> 'k anet \<Rightarrow> int \<times> string option \<times> 'k anet" where
  "anetGenericResolve P host ipbuf_len flags st =
     (let hs = \<lparr>h_family = AF_UNSPEC, h_numeric = (flags AND ANET_IP_ONLY \<noteq> 0), h_passive = False\<rparr>;
          (k, r) = sys_getaddrinfo P (a_kern st) host None hs; st1 = st\<lparr>a_kern := k\<rparr> in
      case r of
        Inl rv \<Rightarrow> (ANET_ERR, None, anetSetError (os_gai_strerror P rv) st1)
      | Inr (info, _) \<Rightarrow>
          (ANET_OK,
           (case ai_addr info of
              Sa_inet ip port \<Rightarrow> inet_ntop ip ipbuf_len
            | Sa_inet6 ip port \<Rightarrow> inet_ntop ip ipbuf_len
            | _ \<Rightarrow> None), st1))"

definition anetResolve :: "'k posix \<Rightarrow> string \<Rightarrow> nat \<Rightarrow> 'k anet \<Rightarrow> int \<times> string option \<times> 'k anet" where
  "anetResolve P host len = anetGenericResolve P host len ANET_NONE"

definition anetResolveIP :: "'k posix \<Rightarrow> string \<Rightarrow> nat \<Rightarrow> 'k anet \<Rightarrow> int \<times> string option \<times> 'k anet" where
  "anetResolveIP P host len = anetGenericResolve P host len ANET_IP_ONLY"

subsection \<open>Connecting\<close>

definition ANET_CONNECT_NONE :: "32 word" where "ANET_CONNECT_NONE = 0"
definition ANET_CONNECT_NONBLOCK :: "32 word" where "ANET_CONNECT_NONBLOCK = 1"
definition ANET_CONNECT_BE_BINDING :: "32 word" where "ANET_CONNECT_BE_BINDING = 2"

definition anet_portstr :: "int \<Rightarrow> string" where
  "anet_portstr port = fst (c_snprintf 6 (show_int port))"

text \<open>Binding to one of the source addresses: the inner loop and the test after it.\<close>

fun anet_bind_any :: "'k posix \<Rightarrow> int \<Rightarrow> addrinfo list \<Rightarrow> 'k anet \<Rightarrow> bool \<times> 'k anet" where
  "anet_bind_any P s [] st = (False, st)"
| "anet_bind_any P s (b # bs) st =
     (let (rc, st1) = c_call (\<lambda>k. sys_bind P k s (ai_addr b)) st in
      if rc \<noteq> -1 then (True, st1) else anet_bind_any P s bs st1)"

definition anet_bind_source ::
  "'k posix \<Rightarrow> int \<Rightarrow> string option \<Rightarrow> hints \<Rightarrow> 'k anet \<Rightarrow> bool \<times> 'k anet" where
  "anet_bind_source P s source_addr hs st =
     (case source_addr of
        None \<Rightarrow> (True, st)
      | Some src \<Rightarrow>
          let (k, r) = sys_getaddrinfo P (a_kern st) src None hs; st1 = st\<lparr>a_kern := k\<rparr> in
          (case r of
             Inl rv \<Rightarrow> (False, anetSetError (os_gai_strerror P rv) st1)
           | Inr (b, bs) \<Rightarrow>
               let (bound, st2) = anet_bind_any P s (b # bs) st1 in
               if bound then (True, st2) else (False, anetSetErrno P ''bind: '' st2)))"

text \<open>Where the loop over the addresses leaves off: \<open>goto end\<close>, \<open>goto error\<close>, or its end.\<close>

datatype goto = To_end | To_error | Ran_out

fun anet_connect_loop ::
  "'k posix \<Rightarrow> string option \<Rightarrow> 32 word \<Rightarrow> hints \<Rightarrow> addrinfo list \<Rightarrow> 'k anet \<Rightarrow> goto \<times> int \<times> 'k anet" where
  "anet_connect_loop P source_addr flags hs [] st = (Ran_out, ANET_ERR, st)"
| "anet_connect_loop P source_addr flags hs (p # ps) st =
     (let (s, st1) = c_call (\<lambda>k. sys_socket P k (ai_family p) (ai_socktype p) (ai_protocol p)) st in
      if s = -1 then anet_connect_loop P source_addr flags hs ps st1 else
      let (r1, st2) = anetSetReuseAddr P s st1 in
      if r1 = ANET_ERR then (To_error, s, st2) else
      let (r2, st3) = (if flags AND ANET_CONNECT_NONBLOCK \<noteq> 0 then anetNonBlock P s st2 else (ANET_OK, st2)) in
      if r2 \<noteq> ANET_OK then (To_error, s, st3) else
      let (bound, st4) = anet_bind_source P s source_addr hs st3 in
      if \<not> bound then (To_error, s, st4) else
      let (r3, st5) = c_call (\<lambda>k. sys_connect P k s (ai_addr p)) st4 in
      if r3 = -1 then
        (if a_errno st5 = EINPROGRESS \<and> flags AND ANET_CONNECT_NONBLOCK \<noteq> 0 then (To_end, s, st5)
         else anet_connect_loop P source_addr flags hs ps (c_close P s st5))
      else (To_end, s, st5))"

definition anet_connect_once ::
  "'k posix \<Rightarrow> string \<Rightarrow> int \<Rightarrow> string option \<Rightarrow> 32 word \<Rightarrow> 'k anet \<Rightarrow> (int + int) \<times> 'k anet" where
  \<comment> \<open>\<open>Inl\<close>: returned before the list of addresses was there; \<open>Inr s\<close>: at label \<open>end\<close>\<close>
  "anet_connect_once P addr port source_addr flags st =
     (let hs = \<lparr>h_family = AF_UNSPEC, h_numeric = False, h_passive = False\<rparr>;
          (k, r) = sys_getaddrinfo P (a_kern st) addr (Some (anet_portstr port)) hs;
          st1 = st\<lparr>a_kern := k\<rparr> in
      case r of
        Inl rv \<Rightarrow> (Inl ANET_ERR, anetSetError (os_gai_strerror P rv) st1)
      | Inr (p, ps) \<Rightarrow>
          let (g, s, st2) = anet_connect_loop P source_addr flags hs (p # ps) st1;
              st3 = (if g = Ran_out then anetSetErrno P ''creating socket: '' st2 else st2) in
          if g = To_end then (Inr s, st3)
          else if s \<noteq> ANET_ERR then (Inr ANET_ERR, c_close P s st3)
          else (Inr s, st3))"

function anetTcpGenericConnect ::
  "'k posix \<Rightarrow> string \<Rightarrow> int \<Rightarrow> string option \<Rightarrow> 32 word \<Rightarrow> 'k anet \<Rightarrow> int \<times> 'k anet" where
  "anetTcpGenericConnect P addr port source_addr flags st =
     (case anet_connect_once P addr port source_addr flags st of
        (Inl rc, st1) \<Rightarrow> (rc, st1)
      | (Inr s, st1) \<Rightarrow>
          if s = ANET_ERR \<and> source_addr \<noteq> None \<and> flags AND ANET_CONNECT_BE_BINDING \<noteq> 0
          then anetTcpGenericConnect P addr port None flags st1
          else (s, st1))"
  by pat_completeness auto
termination
  by (relation "measure (\<lambda>(P, addr, port, source_addr, flags, st).
        case source_addr of None \<Rightarrow> 0 | Some _ \<Rightarrow> 1)") auto

declare anetTcpGenericConnect.simps [simp del]

definition anetTcpConnect :: "'k posix \<Rightarrow> string \<Rightarrow> int \<Rightarrow> 'k anet \<Rightarrow> int \<times> 'k anet" where
  "anetTcpConnect P addr port = anetTcpGenericConnect P addr port None ANET_CONNECT_NONE"

definition anetTcpNonBlockConnect :: "'k posix \<Rightarrow> string \<Rightarrow> int \<Rightarrow> 'k anet \<Rightarrow> int \<times> 'k anet" where
  "anetTcpNonBlockConnect P addr port = anetTcpGenericConnect P addr port None ANET_CONNECT_NONBLOCK"

definition anetTcpNonBlockBindConnect ::
  "'k posix \<Rightarrow> string \<Rightarrow> int \<Rightarrow> string option \<Rightarrow> 'k anet \<Rightarrow> int \<times> 'k anet" where
  "anetTcpNonBlockBindConnect P addr port src =
     anetTcpGenericConnect P addr port src ANET_CONNECT_NONBLOCK"

definition anetTcpNonBlockBestEffortBindConnect ::
  "'k posix \<Rightarrow> string \<Rightarrow> int \<Rightarrow> string option \<Rightarrow> 'k anet \<Rightarrow> int \<times> 'k anet" where
  "anetTcpNonBlockBestEffortBindConnect P addr port src =
     anetTcpGenericConnect P addr port src (ANET_CONNECT_NONBLOCK OR ANET_CONNECT_BE_BINDING)"

text \<open>
  \<open>sun_path\<close> holds 108 bytes on Linux; \<open>strncpy\<close> copies at most 107. (\<open>anetUnixGenericConnect\<close>
  does not clear the structure first, so the 108th byte is indeterminate when the path has
  107 characters or more; such paths are cut here as the server cuts them.)
\<close>

definition sun_path :: "string \<Rightarrow> sockaddr" where
  "sun_path path = Sa_unix (take 107 path)"

definition anetUnixGenericConnect :: "'k posix \<Rightarrow> string \<Rightarrow> 32 word \<Rightarrow> 'k anet \<Rightarrow> int \<times> 'k anet" where
  "anetUnixGenericConnect P path flags st =
     (let (s, st1) = anetCreateSocket P AF_LOCAL st in
      if s = ANET_ERR then (ANET_ERR, st1) else
      let (r1, st2) = (if flags AND ANET_CONNECT_NONBLOCK \<noteq> 0 then anetNonBlock P s st1 else (ANET_OK, st1)) in
      if r1 \<noteq> ANET_OK then (ANET_ERR, st2) else
      let (r2, st3) = c_call (\<lambda>k. sys_connect P k s (sun_path path)) st2 in
      if r2 = -1 then
        (if a_errno st3 = EINPROGRESS \<and> flags AND ANET_CONNECT_NONBLOCK \<noteq> 0 then (s, st3)
         else (ANET_ERR, c_close P s (anetSetErrno P ''connect: '' st3)))
      else (s, st3))"

definition anetUnixConnect :: "'k posix \<Rightarrow> string \<Rightarrow> 'k anet \<Rightarrow> int \<times> 'k anet" where
  "anetUnixConnect P path = anetUnixGenericConnect P path ANET_CONNECT_NONE"

definition anetUnixNonBlockConnect :: "'k posix \<Rightarrow> string \<Rightarrow> 'k anet \<Rightarrow> int \<times> 'k anet" where
  "anetUnixNonBlockConnect P path = anetUnixGenericConnect P path ANET_CONNECT_NONBLOCK"

subsection \<open>Reading and writing a whole buffer\<close>

text \<open>
  The loops end only if the kernel never transfers more than was asked for, so they are
  partial functions. The bytes read are returned with the result. The byte count a call is
  given is converted to \<open>size_t\<close>.
\<close>

partial_function (option) anet_read_loop ::
  "'k posix \<Rightarrow> int \<Rightarrow> int \<Rightarrow> byte list \<Rightarrow> 'k anet \<Rightarrow> (int \<times> byte list \<times> 'k anet) option" where
  "anet_read_loop P fd count buf st =
     (if int (length buf) = count then Some (int (length buf), buf, st) else
      case sys_read P (a_kern st) fd (unat (word_of_int (count - int (length buf)) :: 64 word)) of
        (k, Inl e) \<Rightarrow> Some (-1, buf, st\<lparr>a_kern := k, a_errno := e\<rparr>)
      | (k, Inr bs) \<Rightarrow>
          if bs = [] then Some (int (length buf), buf, st\<lparr>a_kern := k\<rparr>)
          else anet_read_loop P fd count (buf @ bs) (st\<lparr>a_kern := k\<rparr>))"

definition anetRead :: "'k posix \<Rightarrow> int \<Rightarrow> int \<Rightarrow> 'k anet \<Rightarrow> (int \<times> byte list \<times> 'k anet) option" where
  "anetRead P fd count st = anet_read_loop P fd count [] st"

partial_function (option) anet_write_loop ::
  "'k posix \<Rightarrow> int \<Rightarrow> byte list \<Rightarrow> int \<Rightarrow> int \<Rightarrow> 'k anet \<Rightarrow> (int \<times> 'k anet) option" where
  "anet_write_loop P fd buf count totlen st =
     (if totlen = count then Some (totlen, st) else
      case sys_write P (a_kern st) fd (take (unat (word_of_int (count - totlen) :: 64 word)) buf) of
        (k, Err e) \<Rightarrow> Some (-1, st\<lparr>a_kern := k, a_errno := e\<rparr>)
      | (k, Ret n) \<Rightarrow>
          if n = 0 then Some (totlen, st\<lparr>a_kern := k\<rparr>)
          else anet_write_loop P fd (drop (nat n) buf) count (totlen + n) (st\<lparr>a_kern := k\<rparr>))"

definition anetWrite :: "'k posix \<Rightarrow> int \<Rightarrow> byte list \<Rightarrow> int \<Rightarrow> 'k anet \<Rightarrow> (int \<times> 'k anet) option" where
  "anetWrite P fd buf count st = anet_write_loop P fd buf count 0 st"

subsection \<open>Listening\<close>

definition anetListen :: "'k posix \<Rightarrow> int \<Rightarrow> sockaddr \<Rightarrow> int \<Rightarrow> 'k anet \<Rightarrow> int \<times> 'k anet" where
  "anetListen P s sa backlog st =
     (let (r1, st1) = c_call (\<lambda>k. sys_bind P k s sa) st in
      if r1 = -1 then (ANET_ERR, c_close P s (anetSetErrno P ''bind: '' st1)) else
      let (r2, st2) = c_call (\<lambda>k. sys_listen P k s backlog) st1 in
      if r2 = -1 then (ANET_ERR, c_close P s (anetSetErrno P ''listen: '' st2))
      else (ANET_OK, st2))"

definition anetV6Only :: "'k posix \<Rightarrow> int \<Rightarrow> 'k anet \<Rightarrow> int \<times> 'k anet" where
  "anetV6Only P s st =
     (let (rc, st1) = c_call (\<lambda>k. sys_setsockopt P k s IPV6_V6ONLY [1]) st in
      if rc = -1 then (ANET_ERR, c_close P s (anetSetErrno P ''setsockopt: '' st1))
      else (ANET_OK, st1))"

fun anet_server_loop ::
  "'k posix \<Rightarrow> family \<Rightarrow> int \<Rightarrow> addrinfo list \<Rightarrow> 'k anet \<Rightarrow> goto \<times> int \<times> 'k anet" where
  "anet_server_loop P af backlog [] st = (Ran_out, ANET_ERR, st)"
| "anet_server_loop P af backlog (p # ps) st =
     (let (s, st1) = c_call (\<lambda>k. sys_socket P k (ai_family p) (ai_socktype p) (ai_protocol p)) st in
      if s = -1 then anet_server_loop P af backlog ps st1 else
      let (r1, st2) = (if af = AF_INET6 then anetV6Only P s st1 else (ANET_OK, st1)) in
      if r1 = ANET_ERR then (To_error, s, st2) else
      let (r2, st3) = anetSetReuseAddr P s st2 in
      if r2 = ANET_ERR then (To_error, s, st3) else
      let (r3, st4) = anetListen P s (ai_addr p) backlog st3 in
      if r3 = ANET_ERR then (To_error, s, st4) else
      (To_end, s, st4))"

definition anet_tcp_server ::
  "'k posix \<Rightarrow> int \<Rightarrow> string \<Rightarrow> family \<Rightarrow> int \<Rightarrow> 'k anet \<Rightarrow> int \<times> 'k anet" where
  "anet_tcp_server P port bindaddr af backlog st =
     (let hs = \<lparr>h_family = af, h_numeric = False, h_passive = True\<rparr>;
          (k, r) = sys_getaddrinfo P (a_kern st) bindaddr (Some (anet_portstr port)) hs;
          st1 = st\<lparr>a_kern := k\<rparr> in
      case r of
        Inl rv \<Rightarrow> (ANET_ERR, anetSetError (os_gai_strerror P rv) st1)
      | Inr (p, ps) \<Rightarrow>
          let (g, s, st2) = anet_server_loop P af backlog (p # ps) st1 in
          if g = To_end then (s, st2)
          else if g = Ran_out then (ANET_ERR, anetSetError ''unable to bind socket'' st2)
          else (ANET_ERR, st2))"

definition anetTcpServer :: "'k posix \<Rightarrow> int \<Rightarrow> string \<Rightarrow> int \<Rightarrow> 'k anet \<Rightarrow> int \<times> 'k anet" where
  "anetTcpServer P port bindaddr backlog = anet_tcp_server P port bindaddr AF_INET backlog"

definition anetTcp6Server :: "'k posix \<Rightarrow> int \<Rightarrow> string \<Rightarrow> int \<Rightarrow> 'k anet \<Rightarrow> int \<times> 'k anet" where
  "anetTcp6Server P port bindaddr backlog = anet_tcp_server P port bindaddr AF_INET6 backlog"

definition anetUnixServer :: "'k posix \<Rightarrow> string \<Rightarrow> int \<Rightarrow> int \<Rightarrow> 'k anet \<Rightarrow> int \<times> 'k anet" where
  "anetUnixServer P path perm backlog st =
     (let (s, st1) = anetCreateSocket P AF_LOCAL st in
      if s = ANET_ERR then (ANET_ERR, st1) else
      let (r1, st2) = anetListen P s (sun_path path) backlog st1 in
      if r1 = ANET_ERR then (ANET_ERR, st2) else
      let st3 = (if perm \<noteq> 0 then snd (c_call (\<lambda>k. sys_chmod P k (take 107 path) perm) st2) else st2) in
      (s, st3))"

subsection \<open>Accepting\<close>

text \<open>The loop retries for as long as the call is interrupted: \<open>None\<close> if that is forever.\<close>

partial_function (option) anetGenericAccept ::
  "'k posix \<Rightarrow> int \<Rightarrow> 'k anet \<Rightarrow> (int \<times> sockaddr \<times> 'k anet) option" where
  "anetGenericAccept P s st =
     (case sys_accept P (a_kern st) s of
        (k, Ret fd, sa) \<Rightarrow> Some (fd, sa, st\<lparr>a_kern := k\<rparr>)
      | (k, Err e, sa) \<Rightarrow>
          if e = EINTR then anetGenericAccept P s (st\<lparr>a_kern := k, a_errno := e\<rparr>)
          else Some (ANET_ERR, sa, anetSetErrno P ''accept: '' (st\<lparr>a_kern := k, a_errno := e\<rparr>)))"

text \<open>Address text and port as the caller's buffers receive them.\<close>

definition anet_addr_out :: "nat \<Rightarrow> sockaddr \<Rightarrow> string option \<times> int option" where
  "anet_addr_out ip_len sa =
     (case sa of
        Sa_inet ip port \<Rightarrow> (inet_ntop ip ip_len, Some port)
      | Sa_inet6 ip port \<Rightarrow> (inet_ntop ip ip_len, Some port)
      | _ \<Rightarrow> (None, None))"

definition anetTcpAccept ::
  "'k posix \<Rightarrow> int \<Rightarrow> nat \<Rightarrow> 'k anet \<Rightarrow> (int \<times> (string option \<times> int option) \<times> 'k anet) option" where
  "anetTcpAccept P s ip_len st =
     (case anetGenericAccept P s st of
        None \<Rightarrow> None
      | Some (fd, sa, st1) \<Rightarrow>
          if fd = -1 then Some (ANET_ERR, (None, None), st1)
          else Some (fd, anet_addr_out ip_len sa, st1))"

definition anetUnixAccept :: "'k posix \<Rightarrow> int \<Rightarrow> 'k anet \<Rightarrow> (int \<times> 'k anet) option" where
  "anetUnixAccept P s st =
     (case anetGenericAccept P s st of
        None \<Rightarrow> None
      | Some (fd, sa, st1) \<Rightarrow> Some (if fd = -1 then ANET_ERR else fd, st1))"

subsection \<open>Names of sockets\<close>

text \<open>The text \<open>anetPeerToString\<close> leaves in \<open>ip\<close> when it fails.\<close>

definition anet_unknown :: "nat \<Rightarrow> string option" where
  "anet_unknown ip_len = (if ip_len \<ge> 2 then Some ''?'' else if ip_len = 1 then Some '''' else None)"

definition anetPeerToString ::
  "'k posix \<Rightarrow> int \<Rightarrow> nat \<Rightarrow> 'k anet \<Rightarrow> int \<times> string option \<times> int \<times> 'k anet" where
  "anetPeerToString P fd ip_len st =
     (case sys_getpeername P (a_kern st) fd of
        (k, Err e, sa) \<Rightarrow> (-1, anet_unknown ip_len, 0, st\<lparr>a_kern := k, a_errno := e\<rparr>)
      | (k, Ret n, sa) \<Rightarrow>
          let st1 = st\<lparr>a_kern := k\<rparr> in
          if ip_len = 0 then (-1, anet_unknown ip_len, 0, st1)
          else (case sa of
                  Sa_inet ip port \<Rightarrow> (0, inet_ntop ip ip_len, port, st1)
                | Sa_inet6 ip port \<Rightarrow> (0, inet_ntop ip ip_len, port, st1)
                | Sa_unix path \<Rightarrow> (0, Some (take ip_len ''/unixsocket''), 0, st1)
                | Sa_other \<Rightarrow> (-1, anet_unknown ip_len, 0, st1)))"

definition anetFormatAddr :: "nat \<Rightarrow> string \<Rightarrow> int \<Rightarrow> string \<times> int" where
  "anetFormatAddr buf_len ip port =
     c_snprintf buf_len
       (if CHR '':'' \<in> set ip then ''['' @ ip @ '']:'' @ show_int port
        else ip @ '':'' @ show_int port)"

definition INET6_ADDRSTRLEN :: nat where "INET6_ADDRSTRLEN = 46"

text \<open>The local buffer \<open>ip\<close> is read as it is: unwritten, that is a fault.\<close>

definition anetFormatPeer ::
  "'k posix \<Rightarrow> int \<Rightarrow> nat \<Rightarrow> 'k anet \<Rightarrow> fault + ((string \<times> int) \<times> 'k anet)" where
  "anetFormatPeer P fd buf_len st =
     (case anetPeerToString P fd INET6_ADDRSTRLEN st of
        (rc, None, port, st1) \<Rightarrow> Inl UninitRead
      | (rc, Some ip, port, st1) \<Rightarrow> Inr (anetFormatAddr buf_len ip port, st1))"

definition anetSockName ::
  "'k posix \<Rightarrow> int \<Rightarrow> nat \<Rightarrow> 'k anet \<Rightarrow> int \<times> (string option \<times> int option) \<times> 'k anet" where
  "anetSockName P fd ip_len st =
     (case sys_getsockname P (a_kern st) fd of
        (k, Err e, sa) \<Rightarrow> (-1, (Some ''?'', Some 0), st\<lparr>a_kern := k, a_errno := e\<rparr>)
      | (k, Ret n, sa) \<Rightarrow> (0, anet_addr_out ip_len sa, st\<lparr>a_kern := k\<rparr>))"

definition anetFormatSock ::
  "'k posix \<Rightarrow> int \<Rightarrow> nat \<Rightarrow> 'k anet \<Rightarrow> fault + ((string \<times> int) \<times> 'k anet)" where
  "anetFormatSock P fd buf_len st =
     (case anetSockName P fd INET6_ADDRSTRLEN st of
        (rc, (Some ip, Some port), st1) \<Rightarrow> Inr (anetFormatAddr buf_len ip port, st1)
      | _ \<Rightarrow> Inl UninitRead)"

end
