(* ===== verification/World.thy ===== *)
theory World
  imports Parr Queue Posix
begin

text \<open>
  The memory the library works on: the sockets (\<open>struct fsock_sock\<close>), the worker threads
  (\<open>struct fsock_thread\<close>), the tasks and events that wait in their queues, the mutexes that
  are held, and the calls made to libev, pthreads and the kernel, in order.

  An address is the number of the allocation that returned it. The queue items embedded in
  these objects are the constructors of \<open>item\<close>, so the \<open>next\<close> fields of all of them are the
  one store \<open>w_next\<close> of the theory Queue. The library framer is a parameter: \<open>'x\<close> is
  whatever its structures hold beyond the fields the code reads, and a record \<open>'x framer\<close>
  gives its functions.
\<close>

subsection \<open>Constants\<close>

definition FSOCK_SOCK_BASE :: int where "FSOCK_SOCK_BASE = 1"
definition FSOCK_SOCK_BIND :: int where "FSOCK_SOCK_BIND = 2"
definition FSOCK_SOCK_IN :: int where "FSOCK_SOCK_IN = 3"
definition FSOCK_SOCK_OUT :: int where "FSOCK_SOCK_OUT = 4"

definition FSOCK_SOCK_ZOMBIE :: "32 word" where "FSOCK_SOCK_ZOMBIE = 2"
definition FSOCK_SOCK_STOP_OP :: int where "FSOCK_SOCK_STOP_OP = -1"
definition FSOCK_SOCK_HWM_DEFAULT :: int where "FSOCK_SOCK_HWM_DEFAULT = 1000"

lemmas sock_consts [simp] =
  FSOCK_SOCK_BASE_def FSOCK_SOCK_BIND_def FSOCK_SOCK_IN_def FSOCK_SOCK_OUT_def
  FSOCK_SOCK_STOP_OP_def FSOCK_SOCK_HWM_DEFAULT_def

subsection \<open>Data\<close>

text \<open>The five tasks every socket carries; the type of a task is its constructor.\<close>

datatype tkind = START_READ | STOP_READ | START_WRITE | STOP_WRITE | CLOSE

text \<open>
  Queue items: a task embedded in a socket, the \<open>stop\<close> task embedded in a thread, a task
  allocated by \<open>utils/thread.c\<close>, and an event.
\<close>

datatype item = Sock_task nat tkind | Stop_task nat | New_task nat | Event nat

datatype lockid = Glock | Sock_sync nat | Thr_sync nat

datatype watcher = Rio | Wio

datatype handler = Accept_handler | Read_handler | Write_handler

text \<open>The calls that leave the program, in the order they were made.\<close>

datatype effect =
    Io_init nat watcher handler int
  | Io_start nat nat watcher          \<comment> \<open>thread, socket\<close>
  | Io_stop nat watcher
  | Async_init nat
  | Async_start nat
  | Async_send nat
  | Loop_break nat
  | Loop_destroy nat
  | Thread_create nat
  | Thread_join nat
  | Efd_signal nat
  | Cond_wait nat
  | Cond_broadcast nat
  | Close_fd int
  | Free nat
  | Frame_term nat
  | Frame_free nat
  | Parser_term nat
  | Out_list_term nat

record ev_io =
  io_fd :: int
  io_cb :: handler

text \<open>\<open>struct frm_out_frame_list\<close>: the ends of its list, and the rest of it.\<close>

record 'x outlist =
  ol_first :: "nat option"
  ol_last :: "nat option"
  ol_rest :: 'x

record outlinks =
  on_next :: "nat \<Rightarrow> nat option"
  on_prev :: "nat \<Rightarrow> nat option"

text \<open>
  \<open>struct fsock_sock\<close>. The mutex is in \<open>w_held\<close>, the tasks are items, and \<open>s_sigs\<close> is the
  counter of the kernel's eventfd object \<open>s_efd\<close> stands for. A watcher is \<open>None\<close> until
  \<open>ev_io_init\<close>.
\<close>

record 'x sock =
  s_type :: int
  s_flags :: "32 word"
  s_fd :: int
  s_uniq :: int
  s_rio :: "ev_io option"
  s_wio :: "ev_io option"
  s_writing :: int
  s_reading :: int
  s_want_efd :: int
  s_sndhwm :: int
  s_rcvhwm :: int
  s_sndqsz :: int
  s_rcvqsz :: int
  s_want_wcond :: int
  s_efd :: int
  s_sigs :: nat
  s_events :: "item queue"
  s_owner :: "nat option"
  s_thr :: "nat option"
  s_conns :: "nat parr"
  s_binds :: "nat parr"
  s_ol :: "'x outlist"
  s_parser :: 'x
  s_in_frames :: "nat list"
  s_idx :: int
  s_idxlocal :: int

text \<open>\<open>struct fsock_event\<close>: its type and the member of the union that type selects.\<close>

datatype event = New_conn int | New_frame nat

text \<open>
  \<open>struct task_data\<close> of \<open>utils/thread.c\<close>, whose \<open>addr\<close> is a copy with an address of its own,
  and a task allocated there: its type and the address of its data.
\<close>

record task_data =
  td_addr :: "(nat \<times> string) option"
  td_port :: int
  td_sock :: nat

datatype thr_task = THR_BIND nat | THR_CONN nat

text \<open>
  \<open>struct fsock_thread\<close>: its queue and whether its loop exists. The mutex is in \<open>w_held\<close>, the
  \<open>stop\<close> task is an item.
\<close>

record fthread =
  t_loop :: bool
  t_jobs :: "item queue"

text \<open>
  What the environment decides: whether the \<open>n\<close>-th allocation succeeds, whether \<open>realloc\<close>
  succeeds for so many bytes, what \<open>rand\<close> and \<open>eventfd\<close> return for the socket at an address.
\<close>

record environs =
  o_malloc :: "nat \<Rightarrow> bool"
  o_realloc :: "64 word \<Rightarrow> bool"
  o_rand :: "nat \<Rightarrow> int"
  o_eventfd :: "nat \<Rightarrow> sysret"
  o_loop_new :: "nat \<Rightarrow> bool"

record 'x world =
  w_heap :: "nat \<Rightarrow> 'x sock option"
  w_next :: "item links"
  w_events :: "nat \<Rightarrow> event option"
  w_tasks :: "nat \<Rightarrow> thr_task option"
  w_tdata :: "nat \<Rightarrow> task_data option"
  w_threads :: "fthread list"
  w_out :: outlinks
  w_oframe :: "nat \<Rightarrow> nat"
  w_held :: "lockid set"
  w_log :: "effect list"
  w_errno :: errno
  g_initialized :: bool
  thr_last_idx :: int
  g_socks :: "nat parr"
  w_allocs :: nat
  w_env :: environs

text \<open>
  The functions of framer the code calls. \<open>frm_parse parser buf nread\<close> gives the return
  value, the parser afterwards and the frames it appended to \<open>in_frames\<close>; \<open>frm_ol_iovs links ol n\<close>
  are the pieces \<open>get_iovs\<close> hands out, at most \<open>n\<close>; \<open>frm_ol_written\<close> gives the number of frames
  it removed.
\<close>

record 'x framer =
  frm_parser_init :: 'x
  frm_parse :: "'x \<Rightarrow> byte list \<Rightarrow> int \<Rightarrow> int \<times> 'x \<times> nat list"
  frm_ol_init :: 'x
  frm_ol_insert :: "outlinks \<Rightarrow> 'x outlist \<Rightarrow> nat \<Rightarrow> outlinks \<times> 'x outlist"
  frm_ol_empty :: "'x outlist \<Rightarrow> bool"
  frm_ol_iovs :: "outlinks \<Rightarrow> 'x outlist \<Rightarrow> nat \<Rightarrow> byte list list"
  frm_ol_written :: "outlinks \<Rightarrow> 'x outlist \<Rightarrow> int \<Rightarrow> int \<times> outlinks \<times> 'x outlist"

subsection \<open>Memory\<close>

definition sock_at :: "'x world \<Rightarrow> nat \<Rightarrow> fault + 'x sock" where
  "sock_at w a = (case w_heap w a of None \<Rightarrow> Inl UseAfterFree | Some s \<Rightarrow> Inr s)"

definition sock_put :: "nat \<Rightarrow> 'x sock \<Rightarrow> 'x world \<Rightarrow> 'x world" where
  "sock_put a s w = w\<lparr>w_heap := (w_heap w)(a := Some s)\<rparr>"

definition sock_upd :: "nat \<Rightarrow> ('x sock \<Rightarrow> 'x sock) \<Rightarrow> 'x world \<Rightarrow> fault + 'x world" where
  "sock_upd a f w = rbind (sock_at w a) (\<lambda>s. Inr (sock_put a (f s) w))"

text \<open>Dereferencing a pointer field, and the pointer a slot of an array holds.\<close>

definition ptr_deref :: "nat option \<Rightarrow> fault + nat" where
  "ptr_deref p = (case p of None \<Rightarrow> Inl NullDeref | Some a \<Rightarrow> Inr a)"

definition parr_ptr :: "nat parr \<Rightarrow> int \<Rightarrow> fault + nat" where
  "parr_ptr p i = rbind (parr_read p i) (\<lambda>c. case c of Elem a \<Rightarrow> Inr a | _ \<Rightarrow> Inl WildDeref)"

text \<open>\<open>malloc\<close> returns a new address or NULL.\<close>

definition c_malloc :: "'x world \<Rightarrow> nat option \<times> 'x world" where
  "c_malloc w =
     (let n = w_allocs w in
      (if o_malloc (w_env w) n then Some n else None, w\<lparr>w_allocs := Suc n\<rparr>))"

lemma c_malloc_ok:
  "o_malloc (w_env w) (w_allocs w) \<Longrightarrow> c_malloc w = (Some (w_allocs w), w\<lparr>w_allocs := Suc (w_allocs w)\<rparr>)"
  by (simp add: c_malloc_def Let_def)

lemma c_malloc_fails:
  "\<not> o_malloc (w_env w) (w_allocs w) \<Longrightarrow> c_malloc w = (None, w\<lparr>w_allocs := Suc (w_allocs w)\<rparr>)"
  by (simp add: c_malloc_def Let_def)

definition log_eff :: "effect \<Rightarrow> 'x world \<Rightarrow> 'x world" where
  "log_eff e w = w\<lparr>w_log := w_log w @ [e]\<rparr>"

definition set_errno :: "errno \<Rightarrow> 'x world \<Rightarrow> 'x world" where
  "set_errno e w = w\<lparr>w_errno := e\<rparr>"

subsection \<open>Mutexes\<close>

text \<open>
  \<open>utils/mutex.c\<close> and \<open>utils/glock.c\<close>, as the thread that runs the modelled call sees them:
  \<open>w_held\<close> is what it holds. Locking a mutex twice and unlocking one that is not held are
  undefined (\<open>utils/mutex.h\<close>) and are faults.
\<close>

definition lock_exists :: "lockid \<Rightarrow> 'x world \<Rightarrow> bool" where
  "lock_exists l w \<longleftrightarrow>
     (case l of Glock \<Rightarrow> True | Sock_sync a \<Rightarrow> w_heap w a \<noteq> None | Thr_sync i \<Rightarrow> i < length (w_threads w))"

definition fsock_mutex_lock :: "lockid \<Rightarrow> 'x world \<Rightarrow> fault + 'x world" where
  "fsock_mutex_lock l w =
     (if \<not> lock_exists l w then Inl UseAfterFree
      else if l \<in> w_held w then Inl Deadlock
      else Inr (w\<lparr>w_held := insert l (w_held w)\<rparr>))"

definition fsock_mutex_unlock :: "lockid \<Rightarrow> 'x world \<Rightarrow> fault + 'x world" where
  "fsock_mutex_unlock l w =
     (if \<not> lock_exists l w then Inl UseAfterFree
      else if l \<in> w_held w then Inr (w\<lparr>w_held := w_held w - {l}\<rparr>)
      else Inl BadUnlock)"

definition fsock_mutex_init :: "lockid \<Rightarrow> 'x world \<Rightarrow> 'x world" where
  "fsock_mutex_init l w = w\<lparr>w_held := w_held w - {l}\<rparr>"

text \<open>\<open>pthread_mutex_destroy\<close> reports a locked mutex, and the assertion then ends the process.\<close>

definition fsock_mutex_term :: "lockid \<Rightarrow> 'x world \<Rightarrow> fault + unit" where
  "fsock_mutex_term l w =
     (if \<not> lock_exists l w then Inl UseAfterFree else assert_that (l \<notin> w_held w))"

definition fsock_glock_lock :: "'x world \<Rightarrow> fault + 'x world" where
  "fsock_glock_lock w = fsock_mutex_lock Glock w"

definition fsock_glock_unlock :: "'x world \<Rightarrow> fault + 'x world" where
  "fsock_glock_unlock w = fsock_mutex_unlock Glock w"

lemma mutex_lock_ok: "lock_exists l w \<Longrightarrow> l \<notin> w_held w \<Longrightarrow> fsock_mutex_lock l w = Inr (w\<lparr>w_held := insert l (w_held w)\<rparr>)"
  by (simp add: fsock_mutex_lock_def)

lemma mutex_unlock_ok:
  "lock_exists l w \<Longrightarrow> w_held w = insert l H \<Longrightarrow> l \<notin> H \<Longrightarrow> fsock_mutex_unlock l w = Inr (w\<lparr>w_held := H\<rparr>)"
  by (simp add: fsock_mutex_unlock_def)

end
