(* ===== verification/Thread.thy ===== *)
theory Thread
  imports World
begin

text \<open>
  The worker threads of \<open>utils/thread.h\<close> and \<open>utils/thread.c\<close>: a queue of tasks, a mutex, a
  libev loop and an async watcher that wakes the loop. A thread is its index in the array
  \<open>threads\<close> of \<open>core/global.c\<close>.
\<close>

subsection \<open>Threads\<close>

definition thread_at :: "'x world \<Rightarrow> nat \<Rightarrow> fault + fthread" where
  "thread_at w i = (if i < length (w_threads w) then Inr (w_threads w ! i) else Inl OutOfBounds)"

definition thread_put :: "nat \<Rightarrow> fthread \<Rightarrow> 'x world \<Rightarrow> 'x world" where
  "thread_put i t w = w\<lparr>w_threads := (w_threads w)[i := t]\<rparr>"

definition thread_push :: "nat \<Rightarrow> item \<Rightarrow> 'x world \<Rightarrow> fault + 'x world" where
  "thread_push i it w =
     rbind (thread_at w i) (\<lambda>t.
     rbind (fsock_queue_push (w_next w) (t_jobs t) it) (\<lambda>(n, q).
     Inr (thread_put i (t\<lparr>t_jobs := q\<rparr>) (w\<lparr>w_next := n\<rparr>))))"

definition thread_remove :: "nat \<Rightarrow> item \<Rightarrow> 'x world \<Rightarrow> fault + 'x world" where
  "thread_remove i it w =
     rbind (thread_at w i) (\<lambda>t.
     rbind (fsock_queue_remove (w_next w) (t_jobs t) it) (\<lambda>(n, q).
     Inr (thread_put i (t\<lparr>t_jobs := q\<rparr>) (w\<lparr>w_next := n\<rparr>))))"

definition item_isinqueue :: "item \<Rightarrow> 'x world \<Rightarrow> bool" where
  "item_isinqueue it w \<longleftrightarrow> fsock_queue_item_isinqueue (w_next w) it"

text \<open>\<open>ev_async_send\<close> on a loop that was never made dereferences NULL.\<close>

definition thread_wake :: "nat \<Rightarrow> 'x world \<Rightarrow> fault + 'x world" where
  "thread_wake i w =
     rbind (thread_at w i) (\<lambda>t. if t_loop t then Inr (log_eff (Async_send i) w) else Inl NullDeref)"

subsection \<open>Tasks\<close>

definition fsock_task_init :: "item \<Rightarrow> 'x world \<Rightarrow> 'x world" where
  "fsock_task_init it w = w\<lparr>w_next := fsock_queue_item_init (w_next w) it\<rparr>"

definition fsock_task_term :: "item \<Rightarrow> 'x world \<Rightarrow> fault + unit" where
  "fsock_task_term it w = assert_that (\<not> item_isinqueue it w)"

definition fsock_thread_schedule_task :: "nat \<Rightarrow> item \<Rightarrow> 'x world \<Rightarrow> fault + 'x world" where
  "fsock_thread_schedule_task i it w =
     rbind (fsock_mutex_lock (Thr_sync i) w) (\<lambda>w1.
     rbind (thread_push i it w1) (\<lambda>w2.
     rbind (thread_wake i w2) (\<lambda>w3.
     fsock_mutex_unlock (Thr_sync i) w3)))"

definition fsock_thread_schedule_task_unsafe :: "nat \<Rightarrow> item \<Rightarrow> 'x world \<Rightarrow> fault + 'x world" where
  "fsock_thread_schedule_task_unsafe i it w = thread_push i it w"

definition fsock_thread_schedule_task_signal :: "nat \<Rightarrow> 'x world \<Rightarrow> fault + 'x world" where
  "fsock_thread_schedule_task_signal i w = thread_wake i w"

subsection \<open>Starting and stopping\<close>

text \<open>When no loop can be made the function returns early and initialises nothing else.\<close>

definition fsock_thread_init :: "nat \<Rightarrow> 'x world \<Rightarrow> fault + 'x world" where
  "fsock_thread_init i w =
     rbind (thread_at w i) (\<lambda>t.
     if \<not> o_loop_new (w_env w) i then Inr (thread_put i (t\<lparr>t_loop := False\<rparr>) w)
     else
       let w1 = fsock_mutex_init (Thr_sync i) w;
           w2 = thread_put i \<lparr>t_loop = True, t_jobs = fsock_queue_init\<rparr> w1;
           w3 = fsock_task_init (Stop_task i) w2
       in Inr (log_eff (Async_start i) (log_eff (Async_init i) w3)))"

text \<open>
  A thread of its own: the memory is zeroed, and the pointer is returned even when there is no
  loop. The new thread's index stands for its address.
\<close>

definition fsock_thread_new :: "'x world \<Rightarrow> fault + (nat option \<times> 'x world)" where
  "fsock_thread_new w =
     (case c_malloc w of
        (None, w1) \<Rightarrow> Inr (None, w1)
      | (Some p, w1) \<Rightarrow>
          let i = length (w_threads w1);
              w2 = w1\<lparr>w_threads := w_threads w1 @ [\<lparr>t_loop = False, t_jobs = \<lparr>q_head = Null, q_tail = Null\<rparr>\<rparr>]\<rparr>
          in rbind (fsock_thread_init i w2) (\<lambda>w3. Inr (Some i, w3)))"

text \<open>The body of a worker: \<open>run i\<close> is \<open>ev_run\<close> on its loop, until it is broken.\<close>

definition thread_routine :: "(nat \<Rightarrow> 'x world \<Rightarrow> 'x world) \<Rightarrow> nat \<Rightarrow> 'x world \<Rightarrow> fault + 'x world" where
  "thread_routine run i w =
     rbind (thread_at w i) (\<lambda>t. if t_loop t then Inr (run i w) else Inl NullDeref)"

definition fsock_thread_term :: "nat \<Rightarrow> 'x world \<Rightarrow> fault + 'x world" where
  "fsock_thread_term i w =
     rbind (thread_at w i) (\<lambda>t.
     rbind (fsock_mutex_term (Thr_sync i) w) (\<lambda>_.
     let w1 = thread_put i (t\<lparr>t_loop := False, t_jobs := fsock_queue_term\<rparr>) (log_eff (Loop_destroy i) w) in
     rbind (fsock_task_term (Stop_task i) w1) (\<lambda>_. Inr w1)))"

definition fsock_thread_start :: "nat \<Rightarrow> 'x world \<Rightarrow> 'x world" where
  "fsock_thread_start i w = log_eff (Thread_create i) w"

text \<open>
  \<open>pthread_join\<close> waits until the worker has returned; \<open>worker i\<close> is what the worker does
  to the memory until then.
\<close>

definition fsock_thread_join :: "(nat \<Rightarrow> 'x world \<Rightarrow> 'x world) \<Rightarrow> nat \<Rightarrow> 'x world \<Rightarrow> fault + 'x world" where
  "fsock_thread_join worker i w =
     rbind (fsock_thread_schedule_task i (Stop_task i) w) (\<lambda>w1.
     Inr (log_eff (Thread_join i) (worker i w1)))"

subsection \<open>Handing a socket to its thread\<close>

text \<open>Both allocations are made before the first is used, and neither result is checked.\<close>

definition fsock_thread_start_listen ::
  "nat \<Rightarrow> nat \<Rightarrow> string \<Rightarrow> int \<Rightarrow> 'x world \<Rightarrow> fault + 'x world" where
  "fsock_thread_start_listen i a addr port w =
     (let (d, w1) = c_malloc w; (t, w2) = c_malloc w1; (s, w3) = c_malloc w2 in
      rbind (ptr_deref d) (\<lambda>data.
      rbind (ptr_deref t) (\<lambda>task.
      let td = \<lparr>td_addr = map_option (\<lambda>p. (p, addr)) s, td_port = port, td_sock = a\<rparr>;
          w4 = w3\<lparr>w_tdata := (w_tdata w3)(data := Some td), w_tasks := (w_tasks w3)(task := Some (THR_BIND data))\<rparr>
      in fsock_thread_schedule_task i (New_task task) (fsock_task_init (New_task task) w4))))"

definition fsock_thread_start_connection :: "nat \<Rightarrow> nat \<Rightarrow> 'x world \<Rightarrow> fault + 'x world" where
  "fsock_thread_start_connection i a w =
     (let (d, w1) = c_malloc w; (t, w2) = c_malloc w1 in
      rbind (ptr_deref d) (\<lambda>data.
      rbind (ptr_deref t) (\<lambda>task.
      let td = \<lparr>td_addr = None, td_port = 0, td_sock = a\<rparr>;
          w3 = w2\<lparr>w_tdata := (w_tdata w2)(data := Some td), w_tasks := (w_tasks w2)(task := Some (THR_CONN data))\<rparr>
      in fsock_thread_schedule_task i (New_task task) (fsock_task_init (New_task task) w3))))"

definition io_init :: "nat \<Rightarrow> watcher \<Rightarrow> handler \<Rightarrow> int \<Rightarrow> 'x world \<Rightarrow> fault + 'x world" where
  "io_init a k h fd w =
     rbind (sock_upd a (\<lambda>s. let v = Some \<lparr>io_fd = fd, io_cb = h\<rparr> in
       case k of Rio \<Rightarrow> s\<lparr>s_rio := v\<rparr> | Wio \<Rightarrow> s\<lparr>s_wio := v\<rparr>) w) (\<lambda>w1.
     Inr (log_eff (Io_init a k h fd) w1))"

definition free_task :: "nat \<Rightarrow> nat \<Rightarrow> 'x world \<Rightarrow> 'x world" where
  "free_task data task w =
     (let w1 = log_eff (Free data) (w\<lparr>w_tdata := (w_tdata w)(data := None)\<rparr>)
      in log_eff (Free task) (w1\<lparr>w_tasks := (w_tasks w1)(task := None)\<rparr>))"

text \<open>The routine of these tasks, run by thread \<open>i\<close> on the task at address \<open>task\<close>.\<close>

definition thr_task_routine :: "nat \<Rightarrow> nat \<Rightarrow> 'x world \<Rightarrow> fault + 'x world" where
  "thr_task_routine i task w =
     (case w_tasks w task of
        None \<Rightarrow> Inl UseAfterFree
      | Some (THR_BIND data) \<Rightarrow>
          (case w_tdata w data of
             None \<Rightarrow> Inl UseAfterFree
           | Some td \<Rightarrow>
               rbind (sock_at w (td_sock td)) (\<lambda>s.
               rbind (io_init (td_sock td) Rio Accept_handler (s_fd s) w) (\<lambda>w1.
               let w2 = log_eff (Io_start i (td_sock td) Rio) w1;
                   w3 = (case td_addr td of None \<Rightarrow> w2 | Some (p, _) \<Rightarrow> log_eff (Free p) w2)
               in Inr (free_task data task w3))))
      | Some (THR_CONN data) \<Rightarrow>
          (case w_tdata w data of
             None \<Rightarrow> Inl UseAfterFree
           | Some td \<Rightarrow>
               rbind (sock_at w (td_sock td)) (\<lambda>s.
               rbind (io_init (td_sock td) Rio Read_handler (s_fd s) w) (\<lambda>w1.
               rbind (io_init (td_sock td) Wio Write_handler (s_fd s) w1) (\<lambda>w2.
               Inr (free_task data task (log_eff (Io_start i (td_sock td) Rio) w2)))))))"

subsection \<open>The queues of the program\<close>

text \<open>
  The program's queues by name: the jobs of thread \<open>i\<close>, the events of the socket at \<open>a\<close>, and
  the local queue of a handler, which exists only while the handler runs.
\<close>

datatype queue_id = Jobs nat | Events_of nat | Local

definition queue_hdr :: "'x world \<Rightarrow> queue_id \<Rightarrow> item queue option" where
  "queue_hdr w k =
     (case k of
        Jobs i \<Rightarrow> if i < length (w_threads w) then Some (t_jobs (w_threads w ! i)) else None
      | Events_of a \<Rightarrow> map_option s_events (w_heap w a)
      | Local \<Rightarrow> None)"

definition queues_ok :: "'x world \<Rightarrow> (queue_id \<Rightarrow> item list) \<Rightarrow> bool" where
  "queues_ok w Q \<longleftrightarrow> queue_family (w_next w) (queue_hdr w) Q"

lemma queue_hdr_Jobs: "i < length (w_threads w) \<Longrightarrow> queue_hdr w (Jobs i) = Some (t_jobs (w_threads w ! i))"
  by (simp add: queue_hdr_def)

lemma queue_hdr_Events: "w_heap w a = Some s \<Longrightarrow> queue_hdr w (Events_of a) = Some (s_events s)"
  by (simp add: queue_hdr_def)

lemma queue_hdr_frame:
  "w_heap w' = w_heap w \<Longrightarrow> w_threads w' = w_threads w \<Longrightarrow> queue_hdr w' = queue_hdr w"
  by (rule ext) (simp add: queue_hdr_def split: queue_id.split)

lemma queue_hdr_thread_put:
  "i < length (w_threads w) \<Longrightarrow> queue_hdr (thread_put i t w) = (queue_hdr w)(Jobs i := Some (t_jobs t))"
  by (rule ext) (auto simp: queue_hdr_def thread_put_def nth_list_update split: queue_id.split)

lemma queue_hdr_sock_put: "queue_hdr (sock_put a s w) = (queue_hdr w)(Events_of a := Some (s_events s))"
  by (rule ext) (auto simp: queue_hdr_def sock_put_def split: queue_id.split)

lemma queues_ok_frame:
  "queues_ok w Q \<Longrightarrow> w_heap w' = w_heap w \<Longrightarrow> w_threads w' = w_threads w \<Longrightarrow> w_next w' = w_next w \<Longrightarrow> queues_ok w' Q"
  using queue_hdr_frame [of w' w] by (simp add: queues_ok_def)

text \<open>Writing a socket's other fields does not touch its queue of events.\<close>

lemma queues_ok_sock_put:
  assumes "queues_ok w Q" "w_heap w a = Some s" "s_events s' = s_events s"
  shows "queues_ok (sock_put a s' w) Q"
proof -
  have "(queue_hdr w)(Events_of a := Some (s_events s')) = queue_hdr w"
    using queue_hdr_Events [OF assms(2)] assms(3) by auto
  then show ?thesis using assms(1) by (simp add: queues_ok_def queue_hdr_sock_put) (simp add: sock_put_def)
qed

lemma queues_ok_linked: "queues_ok w Q \<Longrightarrow> item_isinqueue it w \<longleftrightarrow> (\<exists>k. it \<in> set (Q k))"
  using family_linked by (fastforce simp: queues_ok_def item_isinqueue_def fsock_queue_item_isinqueue_def)

text \<open>\<open>jobs_step w w'\<close>: only the threads' queues and the links have changed.\<close>

definition jobs_step :: "'x world \<Rightarrow> 'x world \<Rightarrow> bool" where
  "jobs_step w w' \<longleftrightarrow>
     w' = w\<lparr>w_next := w_next w', w_threads := w_threads w'\<rparr> \<and>
     map t_loop (w_threads w') = map t_loop (w_threads w)"

lemma jobs_step_refl [simp]: "jobs_step w w"
  by (simp add: jobs_step_def)

lemma jobs_stepD:
  assumes "jobs_step w w'"
  shows "w_heap w' = w_heap w" "w_held w' = w_held w" "w_log w' = w_log w" "w_env w' = w_env w"
    "w_allocs w' = w_allocs w" "w_out w' = w_out w" "w_events w' = w_events w" "w_tasks w' = w_tasks w"
    "w_tdata w' = w_tdata w" "g_socks w' = g_socks w" "length (w_threads w') = length (w_threads w)"
    "map t_loop (w_threads w') = map t_loop (w_threads w)" "w_errno w' = w_errno w"
    "thr_last_idx w' = thr_last_idx w" "g_initialized w' = g_initialized w" "w_oframe w' = w_oframe w"
proof -
  have eq: "w' = w\<lparr>w_next := w_next w', w_threads := w_threads w'\<rparr>"
    and loops: "map t_loop (w_threads w') = map t_loop (w_threads w)"
    using assms by (simp_all add: jobs_step_def)
  show "w_heap w' = w_heap w" "w_held w' = w_held w" "w_log w' = w_log w" "w_env w' = w_env w"
    "w_allocs w' = w_allocs w" "w_out w' = w_out w" "w_events w' = w_events w" "w_tasks w' = w_tasks w"
    "w_tdata w' = w_tdata w" "g_socks w' = g_socks w" "w_errno w' = w_errno w"
    "thr_last_idx w' = thr_last_idx w" "g_initialized w' = g_initialized w" "w_oframe w' = w_oframe w"
    by (subst eq, simp)+
  show "map t_loop (w_threads w') = map t_loop (w_threads w)" by (rule loops)
  then show "length (w_threads w') = length (w_threads w)" by (rule map_eq_imp_length_eq)
qed

lemma jobs_step_trans:
  assumes 1: "jobs_step w1 w2" and 2: "jobs_step w2 w3"
  shows "jobs_step w1 w3"
proof -
  have e2: "w2 = w1\<lparr>w_next := w_next w2, w_threads := w_threads w2\<rparr>"
    and e3: "w3 = w2\<lparr>w_next := w_next w3, w_threads := w_threads w3\<rparr>"
    and l: "map t_loop (w_threads w3) = map t_loop (w_threads w1)"
    using 1 2 by (simp_all add: jobs_step_def)
  have "w2\<lparr>w_next := w_next w3, w_threads := w_threads w3\<rparr> = w1\<lparr>w_next := w_next w3, w_threads := w_threads w3\<rparr>"
    by (subst e2) simp
  then show ?thesis using e3 l by (simp add: jobs_step_def)
qed

lemma jobs_step_put:
  assumes "i < length (w_threads w)" "t_loop t = t_loop (w_threads w ! i)"
  shows "jobs_step w (thread_put i t (w\<lparr>w_next := n\<rparr>))"
proof -
  have "map t_loop ((w_threads w)[i := t]) = map t_loop (w_threads w)"
    using assms by (simp add: map_update list_update_same_conv)
  then show ?thesis by (simp add: jobs_step_def thread_put_def)
qed

lemma thread_push_ok:
  assumes ok: "queues_ok w Q" and i: "i < length (w_threads w)" and free: "\<not> item_isinqueue it w"
  shows "\<exists>w'. thread_push i it w = Inr w' \<and> queues_ok w' (Q(Jobs i := Q (Jobs i) @ [it])) \<and> jobs_step w w'"
proof -
  have "w_next w it = NotInQueue" using free by (simp add: item_isinqueue_def fsock_queue_item_isinqueue_def)
  then obtain n q where p: "fsock_queue_push (w_next w) (t_jobs (w_threads w ! i)) it = Inr (n, q)"
      "queue_family n ((queue_hdr w)(Jobs i := Some q)) (Q(Jobs i := Q (Jobs i) @ [it]))"
    using family_push [of "w_next w" "queue_hdr w" Q "Jobs i" "t_jobs (w_threads w ! i)" it] ok
      queue_hdr_Jobs [OF i] by (auto simp: queues_ok_def)
  let ?w = "thread_put i ((w_threads w ! i)\<lparr>t_jobs := q\<rparr>) (w\<lparr>w_next := n\<rparr>)"
  have "thread_push i it w = Inr ?w" using p(1) i by (simp add: thread_push_def thread_at_def)
  moreover have "queues_ok ?w (Q(Jobs i := Q (Jobs i) @ [it]))"
    using p(2) i queue_hdr_frame [of "w\<lparr>w_next := n\<rparr>" w]
    by (simp add: queues_ok_def queue_hdr_thread_put) (simp add: thread_put_def)
  moreover have "jobs_step w ?w" using i by (intro jobs_step_put) auto
  ultimately show ?thesis by blast
qed

lemma thread_remove_ok:
  assumes ok: "queues_ok w Q" and i: "i < length (w_threads w)"
  shows "\<exists>w'. thread_remove i it w = Inr w' \<and> queues_ok w' (Q(Jobs i := remove1 it (Q (Jobs i)))) \<and> jobs_step w w'"
proof -
  obtain n q where p: "fsock_queue_remove (w_next w) (t_jobs (w_threads w ! i)) it = Inr (n, q)"
      "queue_family n ((queue_hdr w)(Jobs i := Some q)) (Q(Jobs i := remove1 it (Q (Jobs i))))"
    using family_remove [of "w_next w" "queue_hdr w" Q "Jobs i" "t_jobs (w_threads w ! i)" it] ok
      queue_hdr_Jobs [OF i] by (auto simp: queues_ok_def)
  let ?w = "thread_put i ((w_threads w ! i)\<lparr>t_jobs := q\<rparr>) (w\<lparr>w_next := n\<rparr>)"
  have "thread_remove i it w = Inr ?w" using p(1) i by (simp add: thread_remove_def thread_at_def)
  moreover have "queues_ok ?w (Q(Jobs i := remove1 it (Q (Jobs i))))"
    using p(2) i queue_hdr_frame [of "w\<lparr>w_next := n\<rparr>" w]
    by (simp add: queues_ok_def queue_hdr_thread_put) (simp add: thread_put_def)
  moreover have "jobs_step w ?w" using i by (intro jobs_step_put) auto
  ultimately show ?thesis by blast
qed

text \<open>\<open>fsock_thread_schedule_task\<close> under the thread's mutex.\<close>

lemma schedule_task_ok:
  assumes ok: "queues_ok w Q" and i: "i < length (w_threads w)" and loop: "t_loop (w_threads w ! i)"
    and free: "\<not> item_isinqueue it w" and unheld: "Thr_sync i \<notin> w_held w"
  shows "\<exists>w'. fsock_thread_schedule_task i it w = Inr (log_eff (Async_send i) w') \<and>
    queues_ok w' (Q(Jobs i := Q (Jobs i) @ [it])) \<and> jobs_step w w'"
proof -
  let ?w1 = "w\<lparr>w_held := insert (Thr_sync i) (w_held w)\<rparr>"
  have lock: "fsock_mutex_lock (Thr_sync i) w = Inr ?w1"
    using i unheld by (simp add: fsock_mutex_lock_def lock_exists_def)
  have ok1: "queues_ok ?w1 Q" using ok by (rule queues_ok_frame) simp_all
  have "\<not> item_isinqueue it ?w1" using free by (simp add: item_isinqueue_def)
  then obtain w2 where w2: "thread_push i it ?w1 = Inr w2" "queues_ok w2 (Q(Jobs i := Q (Jobs i) @ [it]))" "jobs_step ?w1 w2"
    using thread_push_ok [OF ok1, of i it] i by auto
  note d = jobs_stepD [OF w2(3)]
  have il: "i < length (w_threads w2)" using d(11) i by simp
  have "map t_loop (w_threads w2) ! i = map t_loop (w_threads w) ! i" using d(12) by simp
  then have lp: "t_loop (w_threads w2 ! i)" using il i loop by simp
  let ?w3 = "w2\<lparr>w_held := w_held w\<rparr>"
  have "w_held w2 - {Thr_sync i} = w_held w" using d(2) unheld by auto
  then have "fsock_mutex_unlock (Thr_sync i) (log_eff (Async_send i) w2) = Inr (log_eff (Async_send i) ?w3)"
    using il d(2) by (simp add: fsock_mutex_unlock_def lock_exists_def log_eff_def)
  then have run: "fsock_thread_schedule_task i it w = Inr (log_eff (Async_send i) ?w3)"
    using lock w2(1) il lp by (simp add: fsock_thread_schedule_task_def thread_wake_def thread_at_def)
  have q: "queues_ok ?w3 (Q(Jobs i := Q (Jobs i) @ [it]))" using w2(2) by (rule queues_ok_frame) simp_all
  have "w2 = ?w1\<lparr>w_next := w_next w2, w_threads := w_threads w2\<rparr>" using w2(3) by (simp add: jobs_step_def)
  then have "w2\<lparr>w_held := w_held w\<rparr> = ?w1\<lparr>w_next := w_next w2, w_threads := w_threads w2, w_held := w_held w\<rparr>"
    by (rule arg_cong [where f = "\<lambda>v. v\<lparr>w_held := w_held w\<rparr>"])
  then have "jobs_step w ?w3" using d(12) by (simp add: jobs_step_def)
  with run q show ?thesis by blast
qed

end
