(* ===== verification/Workers.thy ===== *)
theory Workers
  imports Thread
begin

text \<open>
  The four worker threads of \<open>core/global.c\<close> as the sockets use them: choosing the thread of
  a new socket, and locking, unlocking and waking all of them at once.
\<close>

text \<open>\<open>f_choose_thr\<close>: the threads are taken in turn.\<close>

definition f_choose_thr :: "'x world \<Rightarrow> nat \<times> 'x world" where
  "f_choose_thr w =
     (let thr = nat (thr_last_idx w);
          n = thr_last_idx w + 1
      in (thr, w\<lparr>thr_last_idx := (if n = 4 then 0 else n)\<rparr>))"

text \<open>A loop \<open>for (int i = 0; i < 4; i++)\<close> over the threads.\<close>

fun for_each :: "(nat \<Rightarrow> 'x world \<Rightarrow> fault + 'x world) \<Rightarrow> nat list \<Rightarrow> 'x world \<Rightarrow> fault + 'x world" where
  "for_each f [] w = Inr w"
| "for_each f (i # is) w = rbind (f i w) (for_each f is)"

definition fsock_workers_lock :: "'x world \<Rightarrow> fault + 'x world" where
  "fsock_workers_lock = for_each (\<lambda>i. fsock_mutex_lock (Thr_sync i)) [0, 1, 2, 3]"

definition fsock_workers_unlock :: "'x world \<Rightarrow> fault + 'x world" where
  "fsock_workers_unlock = for_each (\<lambda>i. fsock_mutex_unlock (Thr_sync i)) [0, 1, 2, 3]"

definition fsock_workers_signal :: "'x world \<Rightarrow> fault + 'x world" where
  "fsock_workers_signal = for_each fsock_thread_schedule_task_signal [0, 1, 2, 3]"

end
