(* ===== verification/Sock.thy ===== *)
theory Sock
  imports Workers
begin

unbundle bit_operations_syntax

text \<open>
  The sockets of \<open>core/sock.h\<close> and \<open>core/sock.c\<close>: initialisation, the tasks a worker runs
  on a socket, and the three handlers libev calls when a descriptor is ready. A handler's
  socket is the one its watcher is embedded in.
\<close>

subsection \<open>Initialisation\<close>

text \<open>
  \<open>nn_efd_init\<close> for the socket at \<open>a\<close>: the descriptor it leaves in \<open>efd\<close>. Running out of
  descriptors is an error return, which \<open>fsock_sock_init\<close> ignores; any other failure aborts.
\<close>

definition sock_efd_init :: "nat \<Rightarrow> 'x world \<Rightarrow> fault + int" where
  "sock_efd_init a w =
     (case o_eventfd (w_env w) a of
        Ret fd \<Rightarrow> Inr fd
      | Err e \<Rightarrow> if e = EMFILE \<or> e = ENFILE then Inr (-1) else Inl Abort)"

definition sock_tasks :: "nat \<Rightarrow> item list" where
  "sock_tasks a = map (Sock_task a) [START_READ, STOP_READ, START_WRITE, STOP_WRITE, CLOSE]"

definition fsock_sock_init :: "'x framer \<Rightarrow> nat \<Rightarrow> int \<Rightarrow> 'x world \<Rightarrow> fault + 'x world" where
  "fsock_sock_init F a type w =
     rbind (sock_efd_init a w) (\<lambda>efd.
     let s = \<lparr>s_type = type, s_flags = 0, s_fd = -1, s_uniq = o_rand (w_env w) a,
              s_rio = None, s_wio = None, s_writing = 0, s_reading = 0, s_want_efd = 0,
              s_sndhwm = FSOCK_SOCK_HWM_DEFAULT, s_rcvhwm = FSOCK_SOCK_HWM_DEFAULT,
              s_sndqsz = 0, s_rcvqsz = 0, s_want_wcond = 0, s_efd = efd, s_sigs = 0,
              s_events = fsock_queue_init, s_owner = None, s_thr = None,
              s_conns = fsock_parr_init 10, s_binds = fsock_parr_init 10,
              s_ol = \<lparr>ol_first = None, ol_last = None, ol_rest = frm_ol_init F\<rparr>,
              s_parser = frm_parser_init F, s_in_frames = [], s_idx = -1, s_idxlocal = -1\<rparr>;
         w1 = fsock_mutex_init (Sock_sync a) (sock_put a s w)
     in Inr (fold fsock_task_init (sock_tasks a) w1))"

text \<open>Storing a new connection in the array \<open>conns\<close> of the socket at \<open>a\<close>.\<close>

definition conns_insert :: "nat \<Rightarrow> nat \<Rightarrow> 'x world \<Rightarrow> fault + (int \<times> 'x world)" where
  "conns_insert a c w =
     rbind (sock_at w a) (\<lambda>s.
     rbind (fsock_parr_insert (o_realloc (w_env w)) (s_conns s) c) (\<lambda>(index, p).
     let w1 = sock_put a (s\<lparr>s_conns := p\<rparr>) w in
     Inr (index, if index = -1 then set_errno ENOMEM w1 else w1)))"

definition binds_insert :: "nat \<Rightarrow> nat \<Rightarrow> 'x world \<Rightarrow> fault + (int \<times> 'x world)" where
  "binds_insert a c w =
     rbind (sock_at w a) (\<lambda>s.
     rbind (fsock_parr_insert (o_realloc (w_env w)) (s_binds s) c) (\<lambda>(index, p).
     let w1 = sock_put a (s\<lparr>s_binds := p\<rparr>) w in
     Inr (index, if index = -1 then set_errno ENOMEM w1 else w1)))"

definition sock_free :: "nat \<Rightarrow> 'x world \<Rightarrow> 'x world" where
  "sock_free a w = log_eff (Free a) (w\<lparr>w_heap := (w_heap w)(a := None)\<rparr>)"

subsection \<open>Tasks of a socket\<close>

text \<open>Run by thread \<open>i\<close> on the task \<open>k\<close> of the socket at \<open>a\<close>.\<close>

definition sock_task_routine :: "nat \<Rightarrow> nat \<Rightarrow> tkind \<Rightarrow> 'x world \<Rightarrow> fault + 'x world" where
  "sock_task_routine i a k w =
     (case k of
        START_READ \<Rightarrow>
          rbind (sock_upd a (\<lambda>s. s\<lparr>s_reading := 1\<rparr>) w) (\<lambda>w1. Inr (log_eff (Io_start i a Rio) w1))
      | STOP_READ \<Rightarrow> rbind (sock_at w a) (\<lambda>_. Inr (log_eff (Io_stop a Rio) w))
      | START_WRITE \<Rightarrow> rbind (sock_at w a) (\<lambda>_. Inr (log_eff (Io_start i a Wio) w))
      | STOP_WRITE \<Rightarrow> Inr w
      | CLOSE \<Rightarrow> Inr w)"

text \<open>
  \<open>fsock_sock_bulk_schedule_unsafe\<close>: for every connection, schedule one task and take the
  opposite one back. The body does not change the array it runs over.
\<close>

definition bulk_schedule_one :: "tkind \<Rightarrow> tkind \<Rightarrow> nat \<Rightarrow> 'x world \<Rightarrow> fault + 'x world" where
  "bulk_schedule_one field other c w =
     rbind (sock_at w c) (\<lambda>s.
     rbind (if \<not> item_isinqueue (Sock_task c field) w
            then rbind (ptr_deref (s_thr s)) (\<lambda>i. fsock_thread_schedule_task_unsafe i (Sock_task c field) w)
            else Inr w) (\<lambda>w1.
     if item_isinqueue (Sock_task c other) w1
     then rbind (ptr_deref (s_thr s)) (\<lambda>i. thread_remove i (Sock_task c other) w1)
     else Inr w1))"

definition fsock_sock_bulk_schedule_unsafe :: "nat \<Rightarrow> tkind \<Rightarrow> tkind \<Rightarrow> 'x world \<Rightarrow> fault + 'x world" where
  "fsock_sock_bulk_schedule_unsafe a field other w =
     rbind (sock_at w a) (\<lambda>s.
     parr_fold (\<lambda>i c w1. rbind (bulk_schedule_one field other c w1) (\<lambda>w2. Inr (True, w2))) (s_conns s) w)"

text \<open>The same under the locks of all workers, which are then woken.\<close>

definition bulk_schedule :: "nat \<Rightarrow> tkind \<Rightarrow> tkind \<Rightarrow> 'x world \<Rightarrow> fault + 'x world" where
  "bulk_schedule a field other w =
     rbind (fsock_workers_lock w) (\<lambda>w1.
     rbind (fsock_sock_bulk_schedule_unsafe a field other w1) (\<lambda>w2.
     rbind (fsock_workers_unlock w2) fsock_workers_signal))"

subsection \<open>Events\<close>

definition FSOCK_EVENT_NEW_CONN :: int where "FSOCK_EVENT_NEW_CONN = 1"
definition FSOCK_EVENT_NEW_FRAME :: int where "FSOCK_EVENT_NEW_FRAME = 3"

definition event_push :: "nat \<Rightarrow> event \<Rightarrow> item queue \<Rightarrow> 'x world \<Rightarrow> fault + (item queue \<times> 'x world)" where
  "event_push e ev q w =
     (let w1 = w\<lparr>w_events := (w_events w)(e := Some ev), w_next := fsock_queue_item_init (w_next w) (Event e)\<rparr> in
      rbind (fsock_queue_push (w_next w1) q (Event e)) (\<lambda>(n, q1). Inr (q1, w1\<lparr>w_next := n\<rparr>)))"

definition fsock_queue_event ::
  "item queue \<Rightarrow> int \<Rightarrow> nat \<Rightarrow> int \<Rightarrow> 'x world \<Rightarrow> fault + (parr_rc \<times> item queue \<times> 'x world)" where
  "fsock_queue_event q type fr conn w =
     (case c_malloc w of
        (None, w1) \<Rightarrow> Inr (ENOMEM_rc, q, w1)
      | (Some e, w1) \<Rightarrow>
          if type = FSOCK_EVENT_NEW_CONN
          then rbind (event_push e (New_conn conn) q w1) (\<lambda>(q1, w2). Inr (OK, q1, w2))
          else if type = FSOCK_EVENT_NEW_FRAME
          then rbind (event_push e (New_frame fr) q w1) (\<lambda>(q1, w2). Inr (OK, q1, w2))
          else Inl Abort)"

subsection \<open>Accepting\<close>

text \<open>\<open>fd\<close> is the result of \<open>anetTcpAccept\<close> on the listening socket at \<open>a\<close>.\<close>

definition fsock_sock_accept_handler :: "'x framer \<Rightarrow> nat \<Rightarrow> int \<Rightarrow> 'x world \<Rightarrow> fault + 'x world" where
  "fsock_sock_accept_handler F a fd w =
     (if fd < 0 then Inr w else
      rbind (sock_at w a) (\<lambda>sock.
      case c_malloc w of
        (None, w1) \<Rightarrow> Inr w1
      | (Some conn, w1) \<Rightarrow>
          rbind (ptr_deref (s_owner sock)) (\<lambda>root.
          rbind (sock_at w1 root) (\<lambda>r.
          rbind (assert_that (s_type r = FSOCK_SOCK_BASE)) (\<lambda>_.
          rbind (fsock_sock_init F conn FSOCK_SOCK_IN w1) (\<lambda>w2.
          rbind (sock_upd conn (\<lambda>s. s\<lparr>s_owner := Some root\<rparr>) w2) (\<lambda>w3.
          rbind (fsock_mutex_lock (Sock_sync a) w3) (\<lambda>w4.
          rbind (conns_insert a conn w4) (\<lambda>(indexlocal, w5).
          rbind (fsock_mutex_unlock (Sock_sync a) w5) (\<lambda>w6.
          if indexlocal < 0 then Inr (sock_free conn w6) else
          rbind (fsock_mutex_lock (Sock_sync root) w6) (\<lambda>w7.
          rbind (conns_insert root conn w7) (\<lambda>(index, w8).
          rbind (fsock_mutex_unlock (Sock_sync root) w8) (\<lambda>w9.
          if index < 0 then Inr w9 else
          rbind (fsock_glock_lock w9) (\<lambda>w10.
          let (thr, w11) = f_choose_thr w10 in
          rbind (fsock_glock_unlock w11) (\<lambda>w12.
          rbind (sock_upd conn (\<lambda>s. s\<lparr>s_thr := Some thr, s_fd := fd, s_idx := index,
                                      s_idxlocal := indexlocal\<rparr>) w12) (\<lambda>w13.
          fsock_thread_start_connection thr conn w13))))))))))))))))"

subsection \<open>Reading\<close>

text \<open>
  The loop over \<open>in_frames\<close>: each frame is erased from the list and queued as an event in
  the local queue. When the event cannot be allocated the loop ends, the frame already
  being erased.
\<close>

fun read_collect ::
  "nat \<Rightarrow> nat list \<Rightarrow> item queue \<Rightarrow> int \<Rightarrow> 'x world \<Rightarrow> fault + (item queue \<times> int \<times> 'x world)" where
  "read_collect conn [] q cnt w = Inr (q, cnt, w)"
| "read_collect conn (fr # frs) q cnt w =
     rbind (sock_upd conn (\<lambda>s. s\<lparr>s_in_frames := frs\<rparr>) w) (\<lambda>w1.
     rbind (fsock_queue_event q FSOCK_EVENT_NEW_FRAME fr (-1) w1) (\<lambda>(rc, q1, w2).
     if rc \<noteq> OK then Inr (q1, cnt, w2)
     else rbind (c_int (cnt + 1)) (\<lambda>cnt1. read_collect conn frs q1 cnt1 w2)))"

text \<open>
  \<open>nn_efd_signal\<close> adds one to the eventfd's counter; with no descriptor it does nothing.
\<close>

definition sock_efd_signal :: "nat \<Rightarrow> 'x world \<Rightarrow> fault + 'x world" where
  "sock_efd_signal a w =
     rbind (sock_at w a) (\<lambda>s.
     if s_efd s < 0 then Inr w
     else Inr (log_eff (Efd_signal a) (sock_put a (s\<lparr>s_sigs := Suc (s_sigs s)\<rparr>) w)))"

text \<open>Handing the local queue over, with the owner's mutex held.\<close>

definition read_append :: "nat \<Rightarrow> item queue \<Rightarrow> 'x world \<Rightarrow> fault + 'x world" where
  "read_append owner q w =
     rbind (sock_at w owner) (\<lambda>s.
     rbind (queue_splice (w_next w) (s_events s) q) (\<lambda>(n, ev).
     let w1 = sock_put owner (s\<lparr>s_events := ev\<rparr>) (w\<lparr>w_next := n\<rparr>) in
     if s_want_efd s = 1
     then rbind (sock_efd_signal owner w1) (sock_upd owner (\<lambda>s. s\<lparr>s_want_efd := 0\<rparr>))
     else Inr w1))"

definition read_deliver :: "nat \<Rightarrow> item queue \<Rightarrow> int \<Rightarrow> 'x world \<Rightarrow> fault + 'x world" where
  "read_deliver owner q cnt w =
     rbind (fsock_mutex_lock (Sock_sync owner) w) (\<lambda>w1.
     rbind (sock_at w1 owner) (\<lambda>s.
     rbind (c_int (s_rcvqsz s + cnt)) (\<lambda>n.
     let w2 = sock_put owner (s\<lparr>s_rcvqsz := n\<rparr>) w1 in
     rbind (if cnt > 0 then read_append owner q w2 else Inr w2) (\<lambda>w3.
     rbind (sock_at w3 owner) (\<lambda>s3.
     rbind (if s_rcvhwm s3 > 0 \<and> s_rcvhwm s3 < s_rcvqsz s3
            then bulk_schedule owner STOP_READ START_READ
                   (sock_put owner (s3\<lparr>s_reading := FSOCK_SOCK_STOP_OP\<rparr>) w3)
            else Inr w3) (\<lambda>w4.
     fsock_mutex_unlock (Sock_sync owner) w4))))))"

text \<open>The end of a connection: label \<open>stop\<close>.\<close>

definition read_stop :: "nat \<Rightarrow> 'x world \<Rightarrow> fault + 'x world" where
  "read_stop conn w =
     rbind (fsock_mutex_lock (Sock_sync conn) (log_eff (Io_stop conn Wio) (log_eff (Io_stop conn Rio) w))) (\<lambda>w1.
     rbind (sock_upd conn (\<lambda>s. if s_flags s AND FSOCK_SOCK_ZOMBIE = 0
                               then s\<lparr>s_flags := s_flags s OR FSOCK_SOCK_ZOMBIE\<rparr> else s) w1) (\<lambda>w2.
     fsock_mutex_unlock (Sock_sync conn) w2))"

text \<open>
  The descriptor of a watcher is read through the watcher, and the handler asserts that it is
  the socket's.
\<close>

definition io_fd_of :: "ev_io option \<Rightarrow> fault + int" where
  "io_fd_of v = (case v of None \<Rightarrow> Inl UninitRead | Some r \<Rightarrow> Inr (io_fd r))"

text \<open>
  \<open>rd\<close> is the result of \<open>read (fd, buf, 1400)\<close> and \<open>cnt0\<close> the indeterminate value the
  uninitialised variable \<open>cnt\<close> starts with.
\<close>

definition fsock_sock_read_handler ::
  "'x framer \<Rightarrow> nat \<Rightarrow> errno + byte list \<Rightarrow> int \<Rightarrow> 'x world \<Rightarrow> fault + 'x world" where
  "fsock_sock_read_handler F conn rd cnt0 w =
     rbind (sock_at w conn) (\<lambda>s.
     rbind (io_fd_of (s_rio s)) (\<lambda>rfd.
     rbind (assert_that (s_fd s = rfd)) (\<lambda>_.
     case c_malloc w of
       (None, w1) \<Rightarrow> Inr w1
     | (Some cbuf, w1) \<Rightarrow>
         let w2 = (case rd of Inl e \<Rightarrow> set_errno e w1 | Inr bs \<Rightarrow> w1);
             nread = (case rd of Inl e \<Rightarrow> -1 | Inr bs \<Rightarrow> int (length bs));
             buf = (case rd of Inl e \<Rightarrow> [] | Inr bs \<Rightarrow> bs)
         in
         if nread = 0 then read_stop conn w2
         else if nread < 0 \<and> (w_errno w2 = EAGAIN \<or> w_errno w2 = EWOULDBLOCK) then Inr w2
         else
           let (rc, parser, frames) = frm_parse F (s_parser s) buf nread;
               w3 = sock_put conn (s\<lparr>s_parser := parser, s_in_frames := s_in_frames s @ frames\<rparr>) w2
           in
           if rc \<noteq> 0 then read_stop conn w3
           else
             rbind (read_collect conn (s_in_frames s @ frames) fsock_queue_init cnt0 w3) (\<lambda>(q, cnt, w4).
             rbind (ptr_deref (s_owner s)) (\<lambda>owner. read_deliver owner q cnt w4)))))"

subsection \<open>Writing\<close>

text \<open>
  Putting the local list back in front of what was queued in the meantime. The links of the
  items are joined; the list header that is copied back is the local one.
\<close>

definition write_merge :: "'x framer \<Rightarrow> nat \<Rightarrow> 'x outlist \<Rightarrow> 'x world \<Rightarrow> fault + 'x world" where
  "write_merge F conn ol w =
     rbind (fsock_mutex_lock (Sock_sync conn) w) (\<lambda>w1.
     rbind (sock_at w1 conn) (\<lambda>s.
     rbind (if frm_ol_empty F (s_ol s) then Inr w1
            else
              rbind (case ol_last ol of Some l \<Rightarrow> Inr l | None \<Rightarrow> ptr_deref (ol_first ol)) (\<lambda>l.
              rbind (ptr_deref (ol_first (s_ol s))) (\<lambda>f.
              let o1 = w_out w1; o2 = o1\<lparr>on_next := (on_next o1)(l := Some f)\<rparr> in
              Inr (w1\<lparr>w_out := o2\<lparr>on_prev := (on_prev o2)(f := Some l)\<rparr>\<rparr>)))) (\<lambda>w2.
     rbind (sock_upd conn (\<lambda>s. s\<lparr>s_ol := ol\<rparr>) w2) (\<lambda>w3.
     fsock_mutex_unlock (Sock_sync conn) w3))))"

text \<open>How the inner loop ends: list written out, \<open>return\<close>, \<open>break\<close> or \<open>goto stop\<close>.\<close>

datatype write_end = W_drained | W_return | W_break | W_stop

text \<open>
  \<open>wv n iovs\<close> is the \<open>n\<close>-th \<open>writev\<close>: its result, and the memory afterwards, since other threads
  may queue frames on the connection while it runs without the mutex. The handler's loops
  have no bound of their own, so they are partial functions: \<open>None\<close> is a loop that never ends.
\<close>

type_synonym 'x writev = "nat \<Rightarrow> byte list list \<Rightarrow> 'x world \<Rightarrow> (errno + int) \<times> 'x world"

partial_function (option) write_inner ::
  "'x framer \<Rightarrow> 'x writev \<Rightarrow> nat \<Rightarrow> nat \<Rightarrow> 'x outlist \<Rightarrow> int \<Rightarrow> 'x world \<Rightarrow>
   (fault + (write_end \<times> nat \<times> int \<times> 'x world)) option" where
  "write_inner F wv conn n ol removed w =
     (if frm_ol_empty F ol then Some (Inr (W_drained, n, removed, w))
      else case wv n (frm_ol_iovs F (w_out w) ol 128) w of
        (Inl e, w1) \<Rightarrow>
          if e = EAGAIN \<or> e = EWOULDBLOCK
          then Some (rbind (write_merge F conn ol (set_errno e w1)) (\<lambda>w2.
                 Inr (if removed = 0 then W_return else W_break, Suc n, removed, w2)))
          else Some (Inr (W_stop, Suc n, removed, set_errno e w1))
      | (Inr nw, w1) \<Rightarrow>
          if nw \<le> 0 then Some (Inr (W_stop, Suc n, removed, w1))
          else
            (let (k, links, ol1) = frm_ol_written F (w_out w1) ol nw in
             case c_int (removed + k) of
               Inl f \<Rightarrow> Some (Inl f)
             | Inr removed1 \<Rightarrow> write_inner F wv conn (Suc n) ol1 removed1 (w1\<lparr>w_out := links\<rparr>)))"

text \<open>Taking the connection's list: \<open>None\<close> when it is empty.\<close>

definition write_take :: "'x framer \<Rightarrow> nat \<Rightarrow> 'x world \<Rightarrow> fault + ('x outlist option \<times> 'x world)" where
  "write_take F conn w =
     rbind (fsock_mutex_lock (Sock_sync conn) w) (\<lambda>w1.
     rbind (sock_at w1 conn) (\<lambda>s.
     if frm_ol_empty F (s_ol s)
     then rbind (fsock_mutex_unlock (Sock_sync conn) w1) (\<lambda>w2. Inr (None, w2))
     else
       let w2 = sock_put conn (s\<lparr>s_ol := \<lparr>ol_first = None, ol_last = None, ol_rest = frm_ol_init F\<rparr>\<rparr>) w1 in
       rbind (fsock_mutex_unlock (Sock_sync conn) w2) (\<lambda>w3. Inr (Some (s_ol s), w3))))"

text \<open>The loop \<open>for (;;)\<close>; \<open>W_drained\<close> is its \<open>break\<close> with \<open>must_stop\<close>.\<close>

partial_function (option) write_outer ::
  "'x framer \<Rightarrow> 'x writev \<Rightarrow> nat \<Rightarrow> nat \<Rightarrow> int \<Rightarrow> 'x world \<Rightarrow>
   (fault + (write_end \<times> int \<times> 'x world)) option" where
  "write_outer F wv conn n removed w =
     (case write_take F conn w of
        Inl f \<Rightarrow> Some (Inl f)
      | Inr (None, w1) \<Rightarrow> Some (Inr (if removed > 0 then W_drained else W_stop, removed, w1))
      | Inr (Some ol, w1) \<Rightarrow>
          (case write_inner F wv conn n ol removed w1 of
             None \<Rightarrow> None
           | Some (Inl f) \<Rightarrow> Some (Inl f)
           | Some (Inr (e, n2, removed2, w2)) \<Rightarrow>
               if e = W_return \<or> e = W_stop then Some (Inr (e, removed2, w2))
               else write_outer F wv conn n2 removed2 w2))"

definition write_account :: "nat \<Rightarrow> int \<Rightarrow> 'x world \<Rightarrow> fault + 'x world" where
  "write_account owner removed w =
     rbind (fsock_mutex_lock (Sock_sync owner) w) (\<lambda>w1.
     rbind (sock_at w1 owner) (\<lambda>s.
     rbind (c_int (s_sndqsz s - removed)) (\<lambda>q.
     let room = (s_sndhwm s > 0 \<and> s_writing s = FSOCK_SOCK_STOP_OP \<and> q < s_sndhwm s);
         broadcast = (room \<and> s_want_wcond s \<noteq> 0);
         s1 = s\<lparr>s_sndqsz := q\<rparr>;
         s2 = (if room then s1\<lparr>s_writing := 0\<rparr> else s1);
         s3 = (if broadcast then s2\<lparr>s_want_wcond := 0\<rparr> else s2)
     in
     rbind (fsock_mutex_unlock (Sock_sync owner) (sock_put owner s3 w1)) (\<lambda>w2.
     Inr (if broadcast then log_eff (Cond_broadcast owner) w2 else w2)))))"

definition write_stop :: "nat \<Rightarrow> 'x world \<Rightarrow> fault + 'x world" where
  "write_stop conn w =
     rbind (fsock_mutex_lock (Sock_sync conn) (log_eff (Io_stop conn Wio) w)) (\<lambda>w1.
     rbind (sock_upd conn (\<lambda>s. s\<lparr>s_writing := 0\<rparr>) w1) (\<lambda>w2.
     fsock_mutex_unlock (Sock_sync conn) w2))"

definition fsock_sock_write_handler :: "'x framer \<Rightarrow> 'x writev \<Rightarrow> nat \<Rightarrow> 'x world \<Rightarrow> fault + 'x world" where
  "fsock_sock_write_handler F wv conn w =
     rbind (sock_at w conn) (\<lambda>s.
     rbind (io_fd_of (s_wio s)) (\<lambda>wfd.
     rbind (assert_that (s_fd s = wfd)) (\<lambda>_.
     if s_flags s AND FSOCK_SOCK_ZOMBIE \<noteq> 0 then Inr w
     else case write_outer F wv conn 0 0 w of
        None \<Rightarrow> Inl Hang
      | Some (Inl f) \<Rightarrow> Inl f
      | Some (Inr (W_return, removed, w1)) \<Rightarrow> Inr w1
      | Some (Inr (W_stop, removed, w1)) \<Rightarrow> write_stop conn w1
      | Some (Inr (_, removed, w1)) \<Rightarrow>
          rbind (ptr_deref (s_owner s)) (\<lambda>owner.
          rbind (write_account owner removed w1) (write_stop conn)))))"

subsection \<open>Termination\<close>

text \<open>\<open>nn_efd_term\<close>: the descriptor is closed unless there is none.\<close>

definition sock_efd_term :: "nat \<Rightarrow> 'x world \<Rightarrow> fault + 'x world" where
  "sock_efd_term a w =
     rbind (sock_at w a) (\<lambda>s.
     let w1 = sock_put a (s\<lparr>s_efd := -1\<rparr>) w in
     Inr (if s_efd s < 0 then w1 else log_eff (Close_fd (s_efd s)) w1))"

definition conns_clear :: "nat \<Rightarrow> int \<Rightarrow> 'x world \<Rightarrow> fault + 'x world" where
  "conns_clear a i w =
     rbind (sock_at w a) (\<lambda>s.
     rbind (fsock_parr_clear (o_realloc (w_env w)) (s_conns s) i) (\<lambda>(rc, p).
     Inr (sock_put a (s\<lparr>s_conns := p\<rparr>) w)))"

definition binds_clear :: "nat \<Rightarrow> int \<Rightarrow> 'x world \<Rightarrow> fault + 'x world" where
  "binds_clear a i w =
     rbind (sock_at w a) (\<lambda>s.
     rbind (fsock_parr_clear (o_realloc (w_env w)) (s_binds s) i) (\<lambda>(rc, p).
     Inr (sock_put a (s\<lparr>s_binds := p\<rparr>) w)))"

fun tasks_term :: "item list \<Rightarrow> 'x world \<Rightarrow> fault + unit" where
  "tasks_term [] w = Inr ()"
| "tasks_term (it # its) w = rbind (fsock_task_term it w) (\<lambda>_. tasks_term its w)"

text \<open>What \<open>fsock_sock_term\<close> checks and resets once both arrays are torn down.\<close>

definition sock_term_rest :: "nat \<Rightarrow> 'x world \<Rightarrow> fault + 'x world" where
  "sock_term_rest a w =
     rbind (sock_at w a) (\<lambda>s.
     rbind (fsock_parr_term (s_binds s)) (\<lambda>_.
     rbind (fsock_parr_term (s_conns s)) (\<lambda>_.
     let w1 = sock_put a (s\<lparr>s_events := fsock_queue_term\<rparr>) w in
     rbind (fsock_mutex_term (Sock_sync a) w1) (\<lambda>_.
     rbind (tasks_term (sock_tasks a) w1) (\<lambda>_. Inr w1)))))"

text \<open>
  The three functions call each other. Their first argument bounds the depth of the calls
  together with the number of rounds of the loops; running out of it is \<open>Hang\<close>.
  \<open>conn_parr_loop n self h it\<close> runs over the array \<open>conns\<close> of the socket at \<open>h\<close>, which is
  \<open>self\<close> or one of its binds, from the iterator \<open>it\<close>.
\<close>

fun fsock_sock_term :: "nat \<Rightarrow> nat \<Rightarrow> 'x world \<Rightarrow> fault + 'x world"
  and conn_parr_loop :: "nat \<Rightarrow> nat \<Rightarrow> nat \<Rightarrow> nat option \<times> int \<Rightarrow> 'x world \<Rightarrow> fault + 'x world"
  and bind_parr_loop :: "nat \<Rightarrow> nat \<Rightarrow> nat option \<times> int \<Rightarrow> 'x world \<Rightarrow> fault + 'x world" where
  "fsock_sock_term 0 a w = Inl Hang"
| "fsock_sock_term (Suc n) a w =
     rbind (sock_at w a) (\<lambda>s.
     let w1 = (if s_fd s \<noteq> -1 then log_eff (Close_fd (s_fd s)) w else w) in
     rbind (sock_efd_term a w1) (\<lambda>w2.
     let w3 = log_eff (Out_list_term a) (log_eff (Parser_term a) w2) in
     rbind (sock_at w3 a) (\<lambda>s3.
     rbind (fsock_parr_begin (s_binds s3)) (\<lambda>it.
     rbind (bind_parr_loop n a it w3) (\<lambda>w4.
     rbind (sock_at w4 a) (\<lambda>s4.
     rbind (fsock_parr_begin (s_conns s4)) (\<lambda>it2.
     rbind (conn_parr_loop n a a it2 w4) (sock_term_rest a))))))))"
| "conn_parr_loop 0 self h it w = Inl Hang"
| "conn_parr_loop (Suc n) self h it w =
     (case it of
        (None, i) \<Rightarrow> Inr w
      | (Some p, i) \<Rightarrow>
          rbind (sock_at w h) (\<lambda>hs.
          rbind (parr_ptr (s_conns hs) i) (\<lambda>conn.
          rbind (sock_at w conn) (\<lambda>c.
          rbind (if s_type c = FSOCK_SOCK_IN then conns_clear self (s_idx c) w else Inr w) (\<lambda>w1.
          rbind (fsock_sock_term n conn w1) (\<lambda>w2.
          rbind (conns_clear h i (sock_free conn w2)) (\<lambda>w3.
          rbind (sock_at w3 h) (\<lambda>hs3.
          rbind (fsock_parr_next (s_conns hs3) i) (\<lambda>it1.
          conn_parr_loop n self h it1 w3)))))))))"
| "bind_parr_loop 0 self it w = Inl Hang"
| "bind_parr_loop (Suc n) self it w =
     (case it of
        (None, i) \<Rightarrow> Inr w
      | (Some p, i) \<Rightarrow>
          rbind (sock_at w self) (\<lambda>s.
          rbind (parr_ptr (s_binds s) i) (\<lambda>bnd.
          rbind (sock_at w bnd) (\<lambda>b.
          rbind (fsock_parr_begin (s_conns b)) (\<lambda>it2.
          rbind (conn_parr_loop n self bnd it2 w) (\<lambda>w1.
          rbind (fsock_sock_term n bnd w1) (\<lambda>w2.
          rbind (binds_clear self i (sock_free bnd w2)) (\<lambda>w3.
          rbind (sock_at w3 self) (\<lambda>s3.
          rbind (fsock_parr_next (s_binds s3) i) (\<lambda>it1.
          bind_parr_loop n self it1 w3))))))))))"

end
