(* ===== verification/Async.thy ===== *)
theory Async
  imports Sock
begin

text \<open>
  The worker's side of \<open>utils/thread.c\<close>: \<open>async_routine\<close>, which libev calls in the worker's
  thread after \<open>ev_async_send\<close>. It takes the whole queue of jobs under the mutex and runs the
  tasks without it.
\<close>

subsection \<open>Running the jobs\<close>

definition world_push :: "'x world \<Rightarrow> item queue \<Rightarrow> item \<Rightarrow> fault + ('x world \<times> item queue)" where
  "world_push w q it = rbind (fsock_queue_push (w_next w) q it) (\<lambda>(n, q1). Inr (w\<lparr>w_next := n\<rparr>, q1))"

definition world_pop :: "'x world \<Rightarrow> item queue \<Rightarrow> fault + (item option \<times> 'x world \<times> item queue)" where
  "world_pop w q = rbind (fsock_queue_pop (w_next w) q) (\<lambda>(it, n, q1). Inr (it, w\<lparr>w_next := n\<rparr>, q1))"

text \<open>
  \<open>task->fn (self, task)\<close>: the routine a task was initialised with. A \<open>stop\<close> task has none,
  and an event is no task.
\<close>

definition task_fn :: "nat \<Rightarrow> item \<Rightarrow> 'x world \<Rightarrow> fault + 'x world" where
  "task_fn i it w =
     (case it of
        Sock_task a k \<Rightarrow> sock_task_routine i a k w
      | New_task t \<Rightarrow> thr_task_routine i t w
      | Stop_task j \<Rightarrow> Inl Abort
      | Event e \<Rightarrow> Inl WildDeref)"

definition async_take :: "nat \<Rightarrow> 'x world \<Rightarrow> fault + (item queue \<times> 'x world)" where
  "async_take i w =
     rbind (fsock_mutex_lock (Thr_sync i) w) (\<lambda>w1.
     rbind (thread_at w1 i) (\<lambda>t.
     rbind (fsock_mutex_unlock (Thr_sync i) (thread_put i (t\<lparr>t_jobs := fsock_queue_init\<rparr>) w1)) (\<lambda>w2.
     Inr (t_jobs t, w2))))"

text \<open>The result also lists the tasks that were run, and says whether the thread is to stop.\<close>

definition async_routine :: "nat \<Rightarrow> 'x world \<Rightarrow> fault + (item list \<times> bool \<times> 'x world)" where
  "async_routine i w =
     rbind (async_take i w) (\<lambda>(jobs, w1).
     case drain_with world_pop (\<lambda>it. it = Stop_task i) (task_fn i) [] w1 jobs of
       None \<Rightarrow> Inl Hang
     | Some r \<Rightarrow> rbind r (\<lambda>(ran, stop, w2). Inr (ran, stop, if stop then log_eff (Loop_break i) w2 else w2)))"

subsection \<open>The local queue\<close>

lemma family_linked_Local: "queue_family (w_next w) H Q \<Longrightarrow> item_isinqueue it w \<longleftrightarrow> (\<exists>k. it \<in> set (Q k))"
  using family_linked [of "w_next w" H Q it] by (simp add: item_isinqueue_def fsock_queue_item_isinqueue_def)

text \<open>
  The worker's local queue, while it holds the jobs it has taken, beside the queues of the
  program.
\<close>

definition local_queue :: "(queue_id \<Rightarrow> item list) \<Rightarrow> 'x world \<Rightarrow> item queue \<Rightarrow> item list \<Rightarrow> bool" where
  "local_queue Q w q xs \<longleftrightarrow> queue_family (w_next w) ((queue_hdr w)(Local := Some q)) (Q(Local := xs))"

lemma queue_hdr_next [simp]: "queue_hdr (w\<lparr>w_next := n\<rparr>) = queue_hdr w"
  by (rule queue_hdr_frame) simp_all

lemma local_queue_linked: "local_queue Q w q xs \<Longrightarrow> item_isinqueue it w \<longleftrightarrow> it \<in> set xs \<or> (\<exists>k. k \<noteq> Local \<and> it \<in> set (Q k))"
  unfolding local_queue_def by (drule family_linked_Local) (auto split: if_splits)

interpretation world_queue: fifo_queue "local_queue Q" "\<lambda>w it. item_isinqueue it w" world_push world_pop
  for Q :: "queue_id \<Rightarrow> item list"
proof unfold_locales
  fix w :: "'a world" and q :: "item queue" and xs x i
  show "local_queue Q w q xs \<Longrightarrow> x \<in> set xs \<Longrightarrow> item_isinqueue x w"
    by (simp add: local_queue_linked)
  show "\<exists>w' q'. world_push w q i = Inr (w', q') \<and> local_queue Q w' q' (xs @ [i]) \<and>
      (\<forall>j. item_isinqueue j w' \<longleftrightarrow> item_isinqueue j w \<or> j = i)"
    if rep: "local_queue Q w q xs" and new: "\<not> item_isinqueue i w"
  proof -
    have "w_next w i = NotInQueue" using new by (simp add: item_isinqueue_def fsock_queue_item_isinqueue_def)
    then obtain n q' where p: "fsock_queue_push (w_next w) q i = Inr (n, q')"
        "queue_family n ((queue_hdr w)(Local := Some q')) (Q(Local := xs @ [i]))"
      using family_push [OF rep [unfolded local_queue_def], of Local q i] by auto
    then have l: "local_queue Q (w\<lparr>w_next := n\<rparr>) q' (xs @ [i])" by (simp add: local_queue_def)
    have "item_isinqueue j (w\<lparr>w_next := n\<rparr>) \<longleftrightarrow> item_isinqueue j w \<or> j = i" for j
      unfolding local_queue_linked [OF l] local_queue_linked [OF rep] by auto
    with p(1) l show ?thesis by (auto simp: world_push_def)
  qed
  show "item_isinqueue i w \<Longrightarrow> world_push w q i = Inl Abort"
    by (simp add: world_push_def item_isinqueue_def fsock_queue_push_def fsock_queue_item_isinqueue_def)
  show "world_pop w q = Inr (None, w, q)" if "local_queue Q w q []"
  proof -
    have "queue_rep (w_next w) q []" using that family_rep [of "w_next w" _ _ Local q] by (fastforce simp: local_queue_def)
    then show ?thesis by (simp add: world_pop_def queue_pop_empty)
  qed
  show "\<exists>w' q'. world_pop w q = Inr (Some x, w', q') \<and> local_queue Q w' q' xs \<and>
      (\<forall>j. item_isinqueue j w' \<longleftrightarrow> item_isinqueue j w \<and> j \<noteq> x)"
    if rep: "local_queue Q w q (x # xs)"
  proof -
    obtain n q' where p: "fsock_queue_pop (w_next w) q = Inr (Some x, n, q')"
        "queue_family n ((queue_hdr w)(Local := Some q')) (Q(Local := xs))"
      using family_pop [OF rep [unfolded local_queue_def], of Local q x xs] by auto
    then have l: "local_queue Q (w\<lparr>w_next := n\<rparr>) q' xs" by (simp add: local_queue_def)
    have d: "x \<notin> set xs" using family_distinct [OF rep [unfolded local_queue_def], of Local] by simp
    have o: "x \<notin> set (Q k)" if "k \<noteq> Local" for k
      using family_disjoint [OF rep [unfolded local_queue_def], of x Local k] that by auto
    have "item_isinqueue j (w\<lparr>w_next := n\<rparr>) \<longleftrightarrow> item_isinqueue j w \<and> j \<noteq> x" for j
      unfolding local_queue_linked [OF l] local_queue_linked [OF rep] using d o by auto
    with p(1) l show ?thesis by (auto simp: world_pop_def)
  qed
qed

end
