(* ===== verification/Scheduling.thy ===== *)
theory Scheduling
  imports Sock
begin

text \<open>
  What the bulk scheduling of \<open>core/sock.h\<close> does to the threads' queues: the macro
  \<open>fsock_sock_bulk_schedule_unsafe\<close> under the locks of all workers, by which a socket stops
  and restarts the reads of all its connections at its high water mark.
\<close>

subsection \<open>Scheduling for all connections\<close>

definition bulk_queues ::
  "tkind \<Rightarrow> tkind \<Rightarrow> (nat \<Rightarrow> nat) \<Rightarrow> nat \<Rightarrow> (queue_id \<Rightarrow> item list) \<Rightarrow> queue_id \<Rightarrow> item list" where
  "bulk_queues field other thr c Q =
     (let Q1 = (if \<exists>k. Sock_task c field \<in> set (Q k) then Q
                else Q(Jobs (thr c) := Q (Jobs (thr c)) @ [Sock_task c field]))
      in Q1(Jobs (thr c) := remove1 (Sock_task c other) (Q1 (Jobs (thr c)))))"

text \<open>Every connection in \<open>cs\<close> is a live socket with one of the worker threads.\<close>

definition conns_placed :: "'x world \<Rightarrow> (nat \<Rightarrow> nat) \<Rightarrow> nat set \<Rightarrow> bool" where
  "conns_placed w thr cs \<longleftrightarrow>
     (\<forall>c \<in> cs. \<exists>s. w_heap w c = Some s \<and> s_thr s = Some (thr c) \<and> thr c < length (w_threads w))"

lemma conns_placed_step: "conns_placed w thr cs \<Longrightarrow> jobs_step w w' \<Longrightarrow> conns_placed w' thr cs"
  by (simp add: conns_placed_def jobs_stepD)

lemma bulk_schedule_one_ok:
  assumes ok: "queues_ok w Q" and c: "conns_placed w thr {c}"
  shows "\<exists>w'. bulk_schedule_one field other c w = Inr w' \<and>
    queues_ok w' (bulk_queues field other thr c Q) \<and> jobs_step w w'"
proof -
  obtain s where s: "w_heap w c = Some s" "s_thr s = Some (thr c)" "thr c < length (w_threads w)"
    using c by (auto simp: conns_placed_def)
  let ?f = "Sock_task c field" and ?o = "Sock_task c other" and ?i = "thr c"
  let ?Q1 = "if \<exists>k. ?f \<in> set (Q k) then Q else Q(Jobs ?i := Q (Jobs ?i) @ [?f])"
  obtain w1 where w1: "(if \<not> item_isinqueue ?f w
            then rbind (ptr_deref (s_thr s)) (\<lambda>i. fsock_thread_schedule_task_unsafe i ?f w)
            else Inr w) = Inr w1" "queues_ok w1 ?Q1" "jobs_step w w1"
  proof (cases "item_isinqueue ?f w")
    case True
    then have "\<exists>k. ?f \<in> set (Q k)" using queues_ok_linked [OF ok] by blast
    then show ?thesis using that [of w] True ok by simp
  next
    case False
    then have "\<not> (\<exists>k. ?f \<in> set (Q k))" using queues_ok_linked [OF ok] by blast
    then show ?thesis
      using thread_push_ok [OF ok s(3), of ?f] False that s(2)
      by (auto simp: ptr_deref_def fsock_thread_schedule_task_unsafe_def)
  qed
  have i1: "?i < length (w_threads w1)" using s(3) jobs_stepD(11) [OF w1(3)] by simp
  let ?Q2 = "?Q1(Jobs ?i := remove1 ?o (?Q1 (Jobs ?i)))"
  have "\<exists>w2. (if item_isinqueue ?o w1 then rbind (ptr_deref (s_thr s)) (\<lambda>i. thread_remove i ?o w1) else Inr w1) = Inr w2 \<and>
      queues_ok w2 ?Q2 \<and> jobs_step w1 w2"
  proof (cases "item_isinqueue ?o w1")
    case True
    then show ?thesis using thread_remove_ok [OF w1(2) i1, of ?o] s(2) by (simp add: ptr_deref_def)
  next
    case False
    then have "?o \<notin> set (?Q1 (Jobs ?i))" using queues_ok_linked [OF w1(2), of ?o] by blast
    then have "?Q2 = ?Q1" by (simp add: remove1_idem)
    then show ?thesis using False w1(2) by simp
  qed
  then obtain w2 where w2: "(if item_isinqueue ?o w1 then rbind (ptr_deref (s_thr s)) (\<lambda>i. thread_remove i ?o w1) else Inr w1) = Inr w2"
      "queues_ok w2 ?Q2" "jobs_step w1 w2" by blast
  have "bulk_schedule_one field other c w = Inr w2"
    using s(1) w1(1) w2(1) by (simp add: bulk_schedule_one_def sock_at_def)
  moreover have "bulk_queues field other thr c Q = ?Q2" by (simp add: bulk_queues_def Let_def)
  ultimately show ?thesis using w2(2) jobs_step_trans [OF w1(3) w2(3)] by auto
qed

text \<open>What one round keeps and establishes about the two tasks of each connection.\<close>

definition task_home :: "(queue_id \<Rightarrow> item list) \<Rightarrow> tkind \<Rightarrow> (nat \<Rightarrow> nat) \<Rightarrow> nat \<Rightarrow> bool" where
  "task_home Q k thr c \<longleftrightarrow> (\<forall>l. Sock_task c k \<in> set (Q l) \<longrightarrow> l = Jobs (thr c))"

definition task_set :: "(queue_id \<Rightarrow> item list) \<Rightarrow> tkind \<Rightarrow> tkind \<Rightarrow> nat \<Rightarrow> bool" where
  "task_set Q field other c \<longleftrightarrow> (\<exists>k. Sock_task c field \<in> set (Q k)) \<and> (\<forall>k. Sock_task c other \<notin> set (Q k))"

lemma bulk_queues_establishes:
  assumes "\<And>k. distinct (Q k)" "field \<noteq> other" "task_home Q other thr c"
  shows "task_set (bulk_queues field other thr c Q) field other c"
proof -
  define Q1 where "Q1 = (if \<exists>k. Sock_task c field \<in> set (Q k) then Q
      else Q(Jobs (thr c) := Q (Jobs (thr c)) @ [Sock_task c field]))"
  have eq: "bulk_queues field other thr c Q = Q1(Jobs (thr c) := remove1 (Sock_task c other) (Q1 (Jobs (thr c))))"
    by (simp add: bulk_queues_def Q1_def Let_def)
  obtain k where k: "Sock_task c field \<in> set (Q1 k)"
    by (cases "\<exists>k. Sock_task c field \<in> set (Q k)") (auto simp: Q1_def)
  have home1: "l = Jobs (thr c)" if "Sock_task c other \<in> set (Q1 l)" for l
    using that assms(2,3) unfolding Q1_def task_home_def by (cases "l = Jobs (thr c)") (simp_all split: if_splits)
  have "distinct (Q1 (Jobs (thr c)))"
    using assms(1) [of "Jobs (thr c)"] by (cases "\<exists>k. Sock_task c field \<in> set (Q k)") (simp_all add: Q1_def)
  then have "Sock_task c other \<notin> set ((bulk_queues field other thr c Q) l)" for l
    using home1 [of l] unfolding eq by (cases "l = Jobs (thr c)") (simp, simp, blast)
  moreover have "Sock_task c field \<in> set ((bulk_queues field other thr c Q) k)"
    using k assms(2) unfolding eq by (cases "k = Jobs (thr c)") simp_all
  ultimately show ?thesis by (auto simp: task_set_def)
qed

lemma bulk_queues_keeps_set:
  assumes "field \<noteq> other" "task_set Q field other c"
  shows "task_set (bulk_queues field other thr d Q) field other c"
proof -
  obtain k where k: "Sock_task c field \<in> set (Q k)" and no: "\<And>k. Sock_task c other \<notin> set (Q k)"
    using assms(2) by (auto simp: task_set_def)
  have "Sock_task c field \<in> set (bulk_queues field other thr d Q k)"
    using k assms(1) by (auto simp: bulk_queues_def Let_def)
  moreover have "Sock_task c other \<notin> set (bulk_queues field other thr d Q l)" for l
    using no assms(1) by (auto simp: bulk_queues_def Let_def dest: notin_set_remove1 split: if_splits)
  ultimately show ?thesis by (auto simp: task_set_def)
qed

lemma bulk_queues_keeps_home:
  assumes "field \<noteq> other" "task_home Q other thr c"
  shows "task_home (bulk_queues field other thr d Q) other thr c"
  using assms by (auto simp: task_home_def bulk_queues_def Let_def dest: notin_set_remove1 split: if_splits
      dest!: set_remove1_subset [THEN subsetD])

definition bulk_touched :: "nat set \<Rightarrow> tkind \<Rightarrow> tkind \<Rightarrow> item \<Rightarrow> bool" where
  "bulk_touched cs field other it \<longleftrightarrow> (\<exists>c \<in> cs. it = Sock_task c field \<or> it = Sock_task c other)"

lemma filter_remove1_out: "\<not> P x \<Longrightarrow> filter P (remove1 x xs) = filter P xs"
  by (induction xs) auto

lemma bulk_queues_filter:
  assumes "d \<in> cs"
  shows "filter (\<lambda>it. \<not> bulk_touched cs field other it) (bulk_queues field other thr d Q k) =
    filter (\<lambda>it. \<not> bulk_touched cs field other it) (Q k)"
proof -
  have t: "bulk_touched cs field other (Sock_task d field)" "bulk_touched cs field other (Sock_task d other)"
    using assms by (auto simp: bulk_touched_def)
  then show ?thesis by (simp add: bulk_queues_def Let_def filter_remove1_out)
qed

lemma bulk_fold_ok:
  assumes "queues_ok w Q" "conns_placed w thr (snd ` set ls)" "field \<noteq> other" "snd ` set ls \<subseteq> cs"
    "\<And>c. c \<in> cs \<Longrightarrow> task_home Q other thr c"
  shows "\<exists>w' Q'. fold_live (\<lambda>i c w1. rbind (bulk_schedule_one field other c w1) (\<lambda>w2. Inr (True, w2))) ls w = Inr w' \<and>
    queues_ok w' Q' \<and> jobs_step w w' \<and>
    (\<forall>c \<in> snd ` set ls. task_set Q' field other c) \<and>
    (\<forall>c. task_set Q field other c \<longrightarrow> task_set Q' field other c) \<and>
    (\<forall>k. filter (\<lambda>it. \<not> bulk_touched cs field other it) (Q' k) = filter (\<lambda>it. \<not> bulk_touched cs field other it) (Q k))"
  using assms
proof (induction ls arbitrary: w Q)
  case Nil
  then show ?case by auto
next
  case (Cons ic ls)
  obtain i c where ic: "ic = (i, c)" by (cases ic)
  have placed: "conns_placed w thr {c}" using Cons.prems(2) by (simp add: ic conns_placed_def)
  let ?Q1 = "bulk_queues field other thr c Q"
  obtain w1 where w1: "bulk_schedule_one field other c w = Inr w1" "queues_ok w1 ?Q1" "jobs_step w w1"
    using bulk_schedule_one_ok [OF Cons.prems(1) placed] by blast
  have p1: "conns_placed w1 thr (snd ` set ls)"
    using conns_placed_step [OF Cons.prems(2) w1(3)] by (simp add: conns_placed_def)
  have h1: "task_home ?Q1 other thr d" if "d \<in> cs" for d
    using bulk_queues_keeps_home [OF Cons.prems(3) Cons.prems(5) [OF that]] .
  have sub: "snd ` set ls \<subseteq> cs" and c: "c \<in> cs" using Cons.prems(4) by (auto simp: ic)
  obtain w' Q' where w': "fold_live (\<lambda>i c w1. rbind (bulk_schedule_one field other c w1) (\<lambda>w2. Inr (True, w2))) ls w1 = Inr w'"
      "queues_ok w' Q'" "jobs_step w1 w'" "\<forall>c \<in> snd ` set ls. task_set Q' field other c"
      "\<forall>c. task_set ?Q1 field other c \<longrightarrow> task_set Q' field other c"
      "\<forall>k. filter (\<lambda>it. \<not> bulk_touched cs field other it) (Q' k) = filter (\<lambda>it. \<not> bulk_touched cs field other it) (?Q1 k)"
    using Cons.IH [OF w1(2) p1 Cons.prems(3) sub h1] by blast
  have "distinct (Q k)" for k using Cons.prems(1) family_distinct by (auto simp: queues_ok_def)
  then have "task_set ?Q1 field other c"
    using bulk_queues_establishes [OF _ Cons.prems(3) Cons.prems(5) [OF c]] by blast
  then have "\<forall>d \<in> snd ` set (ic # ls). task_set Q' field other d" using w'(4,5) by (auto simp: ic)
  moreover have "\<forall>d. task_set Q field other d \<longrightarrow> task_set Q' field other d"
    using bulk_queues_keeps_set [OF Cons.prems(3)] w'(5) by blast
  moreover have "fold_live (\<lambda>i c w1. rbind (bulk_schedule_one field other c w1) (\<lambda>w2. Inr (True, w2))) (ic # ls) w = Inr w'"
    using w1(1) w'(1) by (simp add: ic)
  ultimately show ?case
    using w'(2,6) jobs_step_trans [OF w1(3) w'(3)] bulk_queues_filter [OF c, of field other thr Q]
    by (intro exI [of _ w'] exI [of _ Q']) auto
qed


text \<open>With every worker's mutex taken and given back around it.\<close>

definition workers_up :: "'x world \<Rightarrow> bool" where
  "workers_up w \<longleftrightarrow> length (w_threads w) = 4 \<and> (\<forall>i < 4. t_loop (w_threads w ! i)) \<and> (\<forall>i. Thr_sync i \<notin> w_held w)"

lemma workers_lock_ok:
  assumes "workers_up w"
  shows "fsock_workers_lock w = Inr (w\<lparr>w_held := {Thr_sync 0, Thr_sync 1, Thr_sync 2, Thr_sync 3} \<union> w_held w\<rparr>)"
  using assms by (simp add: fsock_workers_lock_def fsock_mutex_lock_def lock_exists_def workers_up_def insert_commute)

lemma workers_unlock_ok:
  assumes "length (w_threads w) = 4" "w_held w = {Thr_sync 0, Thr_sync 1, Thr_sync 2, Thr_sync 3} \<union> H"
    "\<And>i. Thr_sync i \<notin> H"
  shows "fsock_workers_unlock w = Inr (w\<lparr>w_held := H\<rparr>)"
proof -
  have "{Thr_sync 0, Thr_sync 1, Thr_sync 2, Thr_sync 3} \<union> H - {Thr_sync 0} - {Thr_sync (Suc 0)} - {Thr_sync 2} - {Thr_sync 3} = H"
    using assms(3) by auto
  then show ?thesis
    using assms(1,2) by (simp add: fsock_workers_unlock_def fsock_mutex_unlock_def lock_exists_def)
qed

lemma workers_signal_ok:
  assumes "length (w_threads w) = 4" "\<forall>i < 4. t_loop (w_threads w ! i)"
  shows "fsock_workers_signal w =
    Inr (w\<lparr>w_log := w_log w @ [Async_send 0, Async_send 1, Async_send 2, Async_send 3]\<rparr>)"
  using assms by (simp add: fsock_workers_signal_def fsock_thread_schedule_task_signal_def thread_wake_def
      thread_at_def log_eff_def)

definition live_conns :: "nat option list \<Rightarrow> nat set" where
  "live_conns ss = snd ` set (live_from 0 ss)"

lemma bulk_schedule_ok:
  assumes ok: "queues_ok w Q" and up: "workers_up w" and a: "w_heap w a = Some s" and rep: "parr_rep ss (s_conns s)"
    and placed: "conns_placed w thr (live_conns ss)" and ne: "field \<noteq> other"
    and home: "\<And>c. c \<in> live_conns ss \<Longrightarrow> task_home Q other thr c"
  shows "\<exists>w1 Q'. bulk_schedule a field other w =
      Inr (w1\<lparr>w_log := w_log w @ [Async_send 0, Async_send 1, Async_send 2, Async_send 3]\<rparr>) \<and>
    jobs_step w w1 \<and> queues_ok w1 Q' \<and>
    (\<forall>c \<in> live_conns ss. task_set Q' field other c) \<and>
    (\<forall>k. filter (\<lambda>it. \<not> bulk_touched (live_conns ss) field other it) (Q' k) =
         filter (\<lambda>it. \<not> bulk_touched (live_conns ss) field other it) (Q k))"
proof -
  let ?L = "{Thr_sync 0, Thr_sync 1, Thr_sync 2, Thr_sync 3}"
  let ?wl = "w\<lparr>w_held := ?L \<union> w_held w\<rparr>"
  have ok1: "queues_ok ?wl Q" using ok by (rule queues_ok_frame) simp_all
  have pl: "conns_placed ?wl thr (snd ` set (live_from 0 ss))"
    using placed by (simp add: conns_placed_def live_conns_def)
  obtain w2 Q' where w2: "fold_live (\<lambda>i c w1. rbind (bulk_schedule_one field other c w1) (\<lambda>w2. Inr (True, w2))) (live_from 0 ss) ?wl = Inr w2"
      "queues_ok w2 Q'" "jobs_step ?wl w2" "\<forall>c \<in> live_conns ss. task_set Q' field other c"
      "\<forall>k. filter (\<lambda>it. \<not> bulk_touched (live_conns ss) field other it) (Q' k) = filter (\<lambda>it. \<not> bulk_touched (live_conns ss) field other it) (Q k)"
    using bulk_fold_ok [OF ok1 pl ne _ home, of "live_conns ss"] by (auto simp: live_conns_def)
  note d = jobs_stepD [OF w2(3)]
  have len: "length (w_threads w2) = 4" using d(11) up by (simp add: workers_up_def)
  have loops: "\<forall>i < 4. t_loop (w_threads w2 ! i)"
  proof (intro allI impI)
    fix i :: nat assume i: "i < 4"
    have "map t_loop (w_threads w2) ! i = map t_loop (w_threads w) ! i" using d(12) by simp
    then show "t_loop (w_threads w2 ! i)" using i len up by (simp add: workers_up_def)
  qed
  have fold: "fsock_sock_bulk_schedule_unsafe a field other ?wl = Inr w2"
    using w2(1) a by (simp add: fsock_sock_bulk_schedule_unsafe_def sock_at_def parr_fold_rep [OF rep])
  let ?w3 = "w2\<lparr>w_held := w_held w\<rparr>"
  have unl: "fsock_workers_unlock w2 = Inr ?w3"
    using len d(2) up by (intro workers_unlock_ok) (simp_all add: workers_up_def)
  have sig: "fsock_workers_signal ?w3 = Inr (?w3\<lparr>w_log := w_log w @ [Async_send 0, Async_send 1, Async_send 2, Async_send 3]\<rparr>)"
    using workers_signal_ok [of ?w3] len loops d(3) by simp
  have "bulk_schedule a field other w =
      Inr (?w3\<lparr>w_log := w_log w @ [Async_send 0, Async_send 1, Async_send 2, Async_send 3]\<rparr>)"
    unfolding bulk_schedule_def workers_lock_ok [OF up] rbind_Inr fold unl sig ..
  moreover have "queues_ok ?w3 Q'" using w2(2) by (rule queues_ok_frame) simp_all
  moreover have "jobs_step w ?w3"
  proof -
    have "w2 = ?wl\<lparr>w_next := w_next w2, w_threads := w_threads w2\<rparr>" using w2(3) by (simp add: jobs_step_def)
    then have "?w3 = ?wl\<lparr>w_next := w_next w2, w_threads := w_threads w2, w_held := w_held w\<rparr>"
      by (rule arg_cong [where f = "\<lambda>v. v\<lparr>w_held := w_held w\<rparr>"])
    then show ?thesis using d(12) by (simp add: jobs_step_def)
  qed
  ultimately show ?thesis using w2(4,5) by (intro exI [of _ ?w3] exI [of _ Q'] conjI) simp_all
qed

end
