(* ===== verification/Example.thy ===== *)
theory Example
  imports Sock
begin

text \<open>
  One small concrete memory, and a concrete framer, at which the witnesses evaluate the
  handlers and the operations of the public interface.
\<close>

text \<open>A world to run the handlers on: a base socket 0, a connection 1 on thread 0, four threads.\<close>

definition example_sock :: "int \<Rightarrow> unit sock" where
  "example_sock type =
     \<lparr>s_type = type, s_flags = 0, s_fd = 5, s_uniq = 0, s_rio = Some \<lparr>io_fd = 5, io_cb = Read_handler\<rparr>,
      s_wio = Some \<lparr>io_fd = 5, io_cb = Write_handler\<rparr>, s_writing = 0, s_reading = 0, s_want_efd = 0,
      s_sndhwm = 1000, s_rcvhwm = 1000, s_sndqsz = 0, s_rcvqsz = 0, s_want_wcond = 0, s_efd = 3, s_sigs = 0,
      s_events = fsock_queue_init, s_owner = None, s_thr = None, s_conns = fsock_parr_init 10,
      s_binds = fsock_parr_init 10, s_ol = \<lparr>ol_first = None, ol_last = None, ol_rest = ()\<rparr>, s_parser = (),
      s_in_frames = [], s_idx = 0, s_idxlocal = -1\<rparr>"

definition example_parr :: "nat \<Rightarrow> nat parr" where
  "example_parr a = \<lparr>pa_elems = Some (Elem a # replicate 9 Uninit), pa_last = 1, pa_capacity = 10, pa_increment = 10\<rparr>"

definition example_base :: "unit sock" where
  "example_base = (example_sock FSOCK_SOCK_BASE)\<lparr>s_conns := example_parr 1\<rparr>"

definition example_conn :: "unit sock" where
  "example_conn = (example_sock FSOCK_SOCK_OUT)\<lparr>s_owner := Some 0, s_thr := Some 0\<rparr>"

definition example_env :: environs where
  "example_env = \<lparr>o_malloc = \<lambda>_. True, o_realloc = \<lambda>_. True, o_rand = \<lambda>_. 7, o_eventfd = \<lambda>a. Ret (int a + 3),
     o_loop_new = \<lambda>_. True\<rparr>"

definition example_world :: "unit world" where
  "example_world =
     \<lparr>w_heap = [0 \<mapsto> example_base, 1 \<mapsto> example_conn], w_next = \<lambda>_. NotInQueue, w_events = \<lambda>_. None,
      w_tasks = \<lambda>_. None, w_tdata = \<lambda>_. None,
      w_threads = replicate 4 \<lparr>t_loop = True, t_jobs = fsock_queue_init\<rparr>,
      w_out = \<lparr>on_next = \<lambda>_. None, on_prev = \<lambda>_. None\<rparr>, w_oframe = \<lambda>_. 0, w_held = {}, w_log = [],
      w_errno = EINVAL, g_initialized = True, thr_last_idx = 0, g_socks = example_parr 0, w_allocs = 2,
      w_env = example_env\<rparr>"

text \<open>A framer whose parser makes one frame of every byte, and whose out list holds at most one frame of one byte.\<close>

definition example_framer :: "unit framer" where
  "example_framer =
     \<lparr>frm_parser_init = (), frm_parse = \<lambda>p bs n. (0, (), map unat bs), frm_ol_init = (),
      frm_ol_insert = \<lambda>l ol i. (l, \<lparr>ol_first = Some i, ol_last = Some i, ol_rest = ()\<rparr>),
      frm_ol_empty = \<lambda>ol. ol_first ol = None, frm_ol_iovs = \<lambda>l ol n. if ol_first ol = None then [] else [[0]],
      frm_ol_written = \<lambda>l ol n. (1, l, \<lparr>ol_first = None, ol_last = None, ol_rest = ()\<rparr>)\<rparr>"

lemma example_simps [simp]:
  "w_heap example_world 0 = Some example_base" "w_heap example_world (Suc 0) = Some example_conn" "w_next example_world = (\<lambda>_. NotInQueue)"
  "w_threads example_world = replicate 4 \<lparr>t_loop = True, t_jobs = fsock_queue_init\<rparr>"
  "w_held example_world = {}" "w_log example_world = []" "w_allocs example_world = 2"
  "w_env example_world = example_env" "g_socks example_world = example_parr 0" "o_malloc example_env = (\<lambda>_. True)"
  "o_realloc example_env = (\<lambda>_. True)" "thr_last_idx example_world = 0" "g_initialized example_world"
  "o_eventfd example_env = (\<lambda>a. Ret (int a + 3))" "o_rand example_env = (\<lambda>_. 7)"
  "w_events example_world = (\<lambda>_. None)"
  by (simp_all add: example_world_def example_env_def)

lemma example_queues: "queues_ok example_world (\<lambda>_. [])"
  by (auto simp: queues_ok_def queue_family_def queue_hdr_def example_world_def example_base_def example_conn_def example_sock_def
      split: queue_id.split)

end
