(* ===== verification/Global.thy ===== *)
theory Global
  imports Sock
begin

unbundle bit_operations_syntax

text \<open>
  The public interface of the library, \<open>fsock.h\<close> and \<open>core/global.c\<close>: the global state (the
  array of sockets and the four threads), opening and closing sockets, binding, connecting,
  receiving events and sending frames.
\<close>

subsection \<open>Constants\<close>

definition FSOCK_DONWAIT :: "32 word" where "FSOCK_DONWAIT = 1"
definition FSOCK_STOP_ONERR :: "32 word" where "FSOCK_STOP_ONERR = 2"
definition FSOCK_SND_UNSAFE :: "32 word" where "FSOCK_SND_UNSAFE = 4"

definition FSOCK_SND_ALL :: int where "FSOCK_SND_ALL = 1"
definition FSOCK_SND_BIND :: int where "FSOCK_SND_BIND = 3"
definition FSOCK_SND_BINDCONN :: int where "FSOCK_SND_BINDCONN = 4"

definition FSOCK_DIST_IN :: "32 word" where "FSOCK_DIST_IN = 1"
definition FSOCK_DIST_OUT :: "32 word" where "FSOCK_DIST_OUT = 2"

subsection \<open>Global state\<close>

definition fsock_global_init :: "'x world \<Rightarrow> fault + (int \<times> 'x world)" where
  "fsock_global_init w =
     rbind (for_each (\<lambda>i w1. rbind (fsock_thread_init i w1) (\<lambda>w2. Inr (fsock_thread_start i w2))) [0, 1, 2, 3]
              (w\<lparr>g_initialized := True, g_socks := fsock_parr_init 10\<rparr>)) (\<lambda>w3.
     Inr (0, w3))"

definition fsock_global_term :: "(nat \<Rightarrow> 'x world \<Rightarrow> 'x world) \<Rightarrow> 'x world \<Rightarrow> fault + 'x world" where
  "fsock_global_term worker w =
     (if \<not> g_initialized w then Inr w else
      rbind (for_each (\<lambda>i w1. rbind (fsock_thread_join worker i w1) (fsock_thread_term i)) [0, 1, 2, 3] w) (\<lambda>w2.
      rbind (fsock_parr_term (g_socks w2)) (\<lambda>_.
      Inr (w2\<lparr>g_initialized := False\<rparr>))))"

subsection \<open>Opening and closing\<close>

definition fsock_socket :: "'x framer \<Rightarrow> 'x world \<Rightarrow> fault + (int \<times> 'x world)" where
  "fsock_socket F w =
     (case c_malloc w of
        (None, w1) \<Rightarrow> Inr (-1, set_errno ENOMEM w1)
      | (Some sock, w1) \<Rightarrow>
          rbind (fsock_glock_lock w1) (\<lambda>w2.
          rbind (if \<not> g_initialized w2 then fsock_global_init w2 else Inr (0, w2)) (\<lambda>(rc, w3).
          if rc \<noteq> 0 then rbind (fsock_glock_unlock w3) (\<lambda>w4. Inr (-1, w4)) else
          rbind (fsock_parr_insert (o_realloc (w_env w3)) (g_socks w3) sock) (\<lambda>(index, p).
          let w4 = w3\<lparr>g_socks := p\<rparr> in
          if index < 0 then
            rbind (fsock_glock_unlock (sock_free sock w4)) (\<lambda>w5. Inr (-1, set_errno ENOMEM w5))
          else
            rbind (fsock_sock_init F sock FSOCK_SOCK_BASE w4) (\<lambda>w5.
            rbind (sock_upd sock (\<lambda>s. s\<lparr>s_idx := index\<rparr>) w5) (\<lambda>w6.
            rbind (fsock_glock_unlock w6) (\<lambda>w7. Inr (index, w7))))))))"

text \<open>
  The function ends without a \<open>return\<close>, so its normal result is indeterminate: \<open>ret0\<close>. The
  number \<open>n\<close> bounds the recursion of \<open>fsock_sock_term\<close>.
\<close>

definition fsock_close ::
  "nat \<Rightarrow> (nat \<Rightarrow> 'x world \<Rightarrow> 'x world) \<Rightarrow> int \<Rightarrow> int \<Rightarrow> 'x world \<Rightarrow> fault + (int \<times> 'x world)" where
  "fsock_close n worker ret0 s w =
     (if \<not> g_initialized w then Inr (c_EINVAL, w) else
      rbind (fsock_glock_lock w) (\<lambda>w1.
      rbind (assert_that (s \<ge> 0 \<and> s < pa_last (g_socks w1))) (\<lambda>_.
      rbind (parr_read (g_socks w1) s) (\<lambda>c.
      case c of
        Elem sock \<Rightarrow>
          rbind (fsock_parr_clear (o_realloc (w_env w1)) (g_socks w1) s) (\<lambda>(rc, p).
          rbind (assert_that (rc = 0)) (\<lambda>_.
          rbind (fsock_parr_size p) (\<lambda>sz.
          rbind (fsock_glock_unlock (w1\<lparr>g_socks := p\<rparr>)) (\<lambda>w2.
          rbind (fsock_sock_term n sock w2) (\<lambda>w3.
          rbind (if sz = 0 then fsock_global_term worker (sock_free sock w3) else Inr (sock_free sock w3)) (\<lambda>w4.
          Inr (ret0, w4)))))))
      | _ \<Rightarrow> Inl Abort))))"

subsection \<open>Binding and connecting\<close>

text \<open>
  The socket a caller names by its number. The slot is read as it is; a sentinel found there
  is a wild pointer once it is used.
\<close>

definition cell_ptr :: "nat cell \<Rightarrow> fault + nat" where
  "cell_ptr c = (case c of Elem a \<Rightarrow> Inr a | _ \<Rightarrow> Inl WildDeref)"

definition cell_owner :: "nat cell \<Rightarrow> nat option" where
  "cell_owner c = (case c of Elem a \<Rightarrow> Some a | _ \<Rightarrow> None)"

text \<open>\<open>server\<close> is \<open>anetTcpServer\<close> on the address: the descriptor, or -1.\<close>

definition fsock_bind ::
  "'x framer \<Rightarrow> (string \<Rightarrow> int \<Rightarrow> int) \<Rightarrow> int \<Rightarrow> string \<Rightarrow> int \<Rightarrow> 'x world \<Rightarrow> fault + (int \<times> 'x world)" where
  "fsock_bind F server s addr port w =
     (case c_malloc w of
        (None, w1) \<Rightarrow> Inr (-1, set_errno ENOMEM w1)
      | (Some bnd, w1) \<Rightarrow>
          rbind (fsock_glock_lock w1) (\<lambda>w2.
          let (thr, w3) = f_choose_thr w2 in
          rbind (fsock_glock_unlock w3) (\<lambda>w4.
          rbind (fsock_sock_init F bnd FSOCK_SOCK_BIND w4) (\<lambda>w5.
          rbind (parr_read (g_socks w5) s) (\<lambda>c.
          rbind (sock_upd bnd (\<lambda>b. b\<lparr>s_owner := cell_owner c, s_thr := Some thr\<rparr>) w5) (\<lambda>w6.
          let fd = server addr port in
          if fd < 0 then Inr (-1, w6) else
          rbind (cell_ptr c) (\<lambda>sock.
          rbind (binds_insert sock bnd w6) (\<lambda>(index, w7).
          rbind (assert_that (\<not> index < 0)) (\<lambda>_.
          rbind (sock_upd bnd (\<lambda>b. b\<lparr>s_idx := index, s_fd := fd\<rparr>) w7) (\<lambda>w8.
          rbind (fsock_thread_start_listen thr bnd addr port w8) (\<lambda>w9.
          Inr (index, w9))))))))))))"

text \<open>\<open>client\<close> is \<open>anetTcpNonBlockConnect\<close> on the address: the descriptor, or -1.\<close>

definition fsock_connect ::
  "'x framer \<Rightarrow> (string \<Rightarrow> int \<Rightarrow> int) \<Rightarrow> int \<Rightarrow> string \<Rightarrow> int \<Rightarrow> 'x world \<Rightarrow> fault + (int \<times> 'x world)" where
  "fsock_connect F client s addr port w =
     (case c_malloc w of
        (None, w1) \<Rightarrow> Inr (-1, set_errno ENOMEM w1)
      | (Some conn, w1) \<Rightarrow>
          rbind (fsock_glock_lock w1) (\<lambda>w2.
          let (thr, w3) = f_choose_thr w2 in
          rbind (fsock_glock_unlock w3) (\<lambda>w4.
          rbind (fsock_sock_init F conn FSOCK_SOCK_OUT w4) (\<lambda>w5.
          rbind (parr_read (g_socks w5) s) (\<lambda>c.
          rbind (sock_upd conn (\<lambda>b. b\<lparr>s_owner := cell_owner c, s_thr := Some thr\<rparr>) w5) (\<lambda>w6.
          let fd = client addr port in
          if fd < 0 then Inr (-1, w6) else
          rbind (cell_ptr c) (\<lambda>sock.
          rbind (fsock_mutex_lock (Sock_sync sock) w6) (\<lambda>w7.
          rbind (conns_insert sock conn w7) (\<lambda>(index, w8).
          rbind (fsock_mutex_unlock (Sock_sync sock) w8) (\<lambda>w9.
          rbind (assert_that (\<not> index < 0)) (\<lambda>_.
          rbind (sock_upd conn (\<lambda>b. b\<lparr>s_idx := index, s_fd := fd\<rparr>) w9) (\<lambda>w10.
          rbind (fsock_thread_start_connection thr conn w10) (\<lambda>w11.
          Inr (index, w11))))))))))))))"

subsection \<open>Receiving\<close>

text \<open>
  \<open>nn_efd_wait\<close> on the socket's eventfd: without a descriptor it fails at once; otherwise
  \<open>wait\<close> gives its return value and the memory after what the other threads did meanwhile.
\<close>

definition sock_efd_wait ::
  "nat \<Rightarrow> ('x world \<Rightarrow> int \<times> 'x world) \<Rightarrow> 'x world \<Rightarrow> fault + (int \<times> 'x world)" where
  "sock_efd_wait a wait w =
     rbind (sock_at w a) (\<lambda>s. if s_efd s < 0 then Inr (- c_EBADF, w) else Inr (wait w))"

text \<open>\<open>nn_efd_unsignal\<close>: reading an eventfd whose counter is zero fails, and aborts.\<close>

definition sock_efd_unsignal :: "nat \<Rightarrow> 'x world \<Rightarrow> fault + 'x world" where
  "sock_efd_unsignal a w =
     rbind (sock_at w a) (\<lambda>s.
     if s_efd s < 0 then Inr w
     else rbind (assert_that (s_sigs s \<noteq> 0)) (\<lambda>_. Inr (sock_put a (s\<lparr>s_sigs := 0\<rparr>) w)))"

text \<open>The second half of \<open>fsock_get_event\<close>, from the assertion that there is an event on.\<close>

definition get_event_pop :: "nat \<Rightarrow> 'x world \<Rightarrow> fault + (item option \<times> 'x world)" where
  "get_event_pop a w =
     rbind (sock_at w a) (\<lambda>s.
     rbind (assert_that (\<not> fsock_queue_empty (s_events s))) (\<lambda>_.
     rbind (fsock_queue_pop (w_next w) (s_events s)) (\<lambda>(it, n, q).
     rbind (assert_that (it \<noteq> None)) (\<lambda>_.
     rbind (c_int (s_rcvqsz s - 1)) (\<lambda>sz.
     let s1 = s\<lparr>s_events := q, s_rcvqsz := sz\<rparr>;
         w1 = sock_put a s1 (w\<lparr>w_next := n\<rparr>)
     in
     rbind (if s_rcvhwm s1 > 0 \<and> s_reading s1 = FSOCK_SOCK_STOP_OP \<and> s_rcvqsz s1 < s_rcvhwm s1
            then bulk_schedule a START_READ STOP_READ (sock_put a (s1\<lparr>s_reading := 0\<rparr>) w1)
            else Inr w1) (\<lambda>w2.
     rbind (fsock_mutex_unlock (Sock_sync a) w2) (\<lambda>w3.
     Inr (it, w3))))))))"

text \<open>The result is the item the returned event is embedded in, or \<open>None\<close> for NULL.\<close>

definition fsock_get_event ::
  "('x world \<Rightarrow> int \<times> 'x world) \<Rightarrow> int \<Rightarrow> 32 word \<Rightarrow> 'x world \<Rightarrow> fault + (item option \<times> 'x world)" where
  "fsock_get_event wait s flags w =
     rbind (parr_ptr (g_socks w) s) (\<lambda>a.
     rbind (sock_at w a) (\<lambda>sock.
     rbind (assert_that (s_type sock = FSOCK_SOCK_BASE)) (\<lambda>_.
     rbind (fsock_mutex_lock (Sock_sync a) w) (\<lambda>w1.
     if \<not> fsock_queue_empty (s_events sock) then get_event_pop a w1
     else if flags AND FSOCK_DONWAIT \<noteq> 0
     then rbind (fsock_mutex_unlock (Sock_sync a) w1) (\<lambda>w2. Inr (None, w2))
     else
       rbind (fsock_mutex_unlock (Sock_sync a) (sock_put a (sock\<lparr>s_want_efd := 1\<rparr>) w1)) (\<lambda>w2.
       rbind (sock_efd_wait a wait w2) (\<lambda>(rc, w3).
       if rc = - c_ETIMEDOUT then Inr (None, set_errno ETIMEDOUT w3)
       else
         rbind (assert_that (rc = 0)) (\<lambda>_.
         rbind (sock_efd_unsignal a w3) (\<lambda>w4.
         rbind (fsock_mutex_lock (Sock_sync a) w4) (\<lambda>w5.
         get_event_pop a w5)))))))))"

text \<open>\<open>refs\<close> is the result of \<open>frm_frame_term\<close>: 0 when the last reference went away.\<close>

definition fsock_event_destroy :: "int \<Rightarrow> nat \<Rightarrow> 'x world \<Rightarrow> fault + 'x world" where
  "fsock_event_destroy refs e w =
     (case w_events w e of
        None \<Rightarrow> Inl UseAfterFree
      | Some ev \<Rightarrow>
          let w1 = (case ev of
                      New_conn c \<Rightarrow> w
                    | New_frame f \<Rightarrow>
                        if refs = 0 then log_eff (Frame_free f) (log_eff (Frame_term f) w)
                        else log_eff (Frame_term f) w)
          in Inr (log_eff (Free e) (w1\<lparr>w_events := (w_events w1)(e := None)\<rparr>)))"

definition fsock_rand :: "int \<Rightarrow> 'x world \<Rightarrow> fault + int" where
  "fsock_rand s w =
     rbind (parr_ptr (g_socks w) s) (\<lambda>a. rbind (sock_at w a) (\<lambda>sock. Inr (s_uniq sock)))"

subsection \<open>Sending\<close>

text \<open>
  \<open>pthread_cond_wait\<close> gives the mutex back while it waits; \<open>others\<close> is what the other threads
  do to the memory until the caller holds it again.
\<close>

definition cond_wait :: "('x world \<Rightarrow> 'x world) \<Rightarrow> nat \<Rightarrow> 'x world \<Rightarrow> fault + 'x world" where
  "cond_wait others a w =
     rbind (fsock_mutex_unlock (Sock_sync a) w) (\<lambda>w1.
     let w2 = others (log_eff (Cond_wait a) w1) in
     fsock_mutex_lock (Sock_sync a) w2)"

definition lock_if :: "bool \<Rightarrow> nat \<Rightarrow> 'x world \<Rightarrow> fault + 'x world" where
  "lock_if b a w = (if b then fsock_mutex_lock (Sock_sync a) w else Inr w)"

definition unlock_if :: "bool \<Rightarrow> nat \<Rightarrow> 'x world \<Rightarrow> fault + 'x world" where
  "unlock_if b a w = (if b then fsock_mutex_unlock (Sock_sync a) w else Inr w)"

text \<open>Waiting once until there may be room, when the socket has stopped sending.\<close>

definition send_wait :: "('x world \<Rightarrow> 'x world) \<Rightarrow> bool \<Rightarrow> nat \<Rightarrow> 'x world \<Rightarrow> fault + 'x world" where
  "send_wait others canlock a w =
     rbind (sock_at w a) (\<lambda>s.
     if s_writing s \<noteq> FSOCK_SOCK_STOP_OP then Inr w else
     rbind (lock_if canlock a w) (\<lambda>w1.
     rbind (sock_upd a (\<lambda>s. s\<lparr>s_want_wcond := 1\<rparr>) w1) (\<lambda>w2.
     rbind (cond_wait others a w2) (unlock_if canlock a))))"

text \<open>Putting the frame on the connection's list, and waking its thread if it is not writing.\<close>

definition send_enqueue :: "'x framer \<Rightarrow> nat \<Rightarrow> nat \<Rightarrow> 'x world \<Rightarrow> fault + 'x world" where
  "send_enqueue F conn li w =
     rbind (fsock_mutex_lock (Sock_sync conn) w) (\<lambda>w1.
     rbind (sock_at w1 conn) (\<lambda>c.
     rbind (if s_writing c = 0
            then rbind (ptr_deref (s_thr c)) (\<lambda>i.
                 rbind (fsock_thread_schedule_task i (Sock_task conn START_WRITE) w1)
                   (sock_upd conn (\<lambda>c. c\<lparr>s_writing := 1\<rparr>)))
            else Inr w1) (\<lambda>w2.
     rbind (sock_at w2 conn) (\<lambda>c2.
     let (links, ol) = frm_ol_insert F (w_out w2) (s_ol c2) li in
     fsock_mutex_unlock (Sock_sync conn) (sock_put conn (c2\<lparr>s_ol := ol\<rparr>) (w2\<lparr>w_out := links\<rparr>))))))"

definition send_account :: "bool \<Rightarrow> nat \<Rightarrow> 'x world \<Rightarrow> fault + 'x world" where
  "send_account canlock a w =
     rbind (lock_if canlock a w) (\<lambda>w1.
     rbind (sock_at w1 a) (\<lambda>s.
     rbind (c_int (s_sndqsz s + 1)) (\<lambda>q.
     let s1 = s\<lparr>s_sndqsz := q\<rparr>;
         s2 = (if s_sndhwm s1 > 0 \<and> s_writing s1 \<noteq> FSOCK_SOCK_STOP_OP \<and> s_sndqsz s1 \<ge> s_sndhwm s1
               then s1\<lparr>s_writing := FSOCK_SOCK_STOP_OP\<rparr> else s1)
     in unlock_if canlock a (sock_put a s2 w1))))"

text \<open>
  \<open>fr\<close> is the frame pointer, \<open>None\<close> for NULL. On success the function ends without a
  \<open>return\<close>: its result is then the indeterminate \<open>ret0\<close>.
\<close>

definition fsock_send ::
  "'x framer \<Rightarrow> ('x world \<Rightarrow> 'x world) \<Rightarrow> int \<Rightarrow> int \<Rightarrow> int \<Rightarrow> nat option \<Rightarrow> 32 word \<Rightarrow> 'x world \<Rightarrow>
   fault + (int \<times> 'x world)" where
  "fsock_send F others ret0 s c fr flags w =
     (let canlock = (flags AND FSOCK_SND_UNSAFE = 0) in
      rbind (parr_ptr (g_socks w) s) (\<lambda>a.
      rbind (sock_at w a) (\<lambda>sock.
      rbind (assert_that (s_type sock = FSOCK_SOCK_BASE)) (\<lambda>_.
      rbind (assert_that (fr \<noteq> None)) (\<lambda>_.
      rbind (parr_ptr (s_conns sock) c) (\<lambda>conn.
      rbind (sock_at w conn) (\<lambda>cs.
      if s_flags cs AND FSOCK_SOCK_ZOMBIE \<noteq> 0 then Inr (-1, set_errno EINVAL w)
      else if s_writing sock = FSOCK_SOCK_STOP_OP \<and> flags AND FSOCK_DONWAIT \<noteq> 0 then Inr (c_EAGAIN, w)
      else
        rbind (send_wait others canlock a w) (\<lambda>w1.
        case c_malloc w1 of
          (None, w2) \<Rightarrow> Inr (-1, set_errno ENOMEM w2)
        | (Some li, w2) \<Rightarrow>
            rbind (send_enqueue F conn li (w2\<lparr>w_oframe := (w_oframe w2)(li := the fr)\<rparr>)) (\<lambda>w3.
            rbind (send_account canlock a w3) (\<lambda>w4.
            Inr (ret0, w4)))))))))))"

definition fsock_conn_type :: "nat \<Rightarrow> int \<Rightarrow> 'x world \<Rightarrow> fault + int" where
  "fsock_conn_type a c w =
     rbind (sock_at w a) (\<lambda>s.
     rbind (parr_ptr (s_conns s) c) (\<lambda>p.
     rbind (sock_at w p) (\<lambda>cs. Inr (s_type cs))))"

text \<open>The distribution test, with the short-circuits of the source.\<close>

definition send_all_wants :: "nat \<Rightarrow> int \<Rightarrow> 32 word \<Rightarrow> 'x world \<Rightarrow> fault + bool" where
  "send_all_wants a index dflags w =
     (if dflags = 0 then Inr True else
      rbind (if dflags AND FSOCK_DIST_IN \<noteq> 0
             then rbind (fsock_conn_type a index w) (\<lambda>t. Inr (t = FSOCK_SOCK_IN)) else Inr False) (\<lambda>b.
      if b then Inr True
      else if dflags AND FSOCK_DIST_OUT \<noteq> 0
      then rbind (fsock_conn_type a index w) (\<lambda>t. Inr (t = FSOCK_SOCK_OUT)) else Inr False))"

text \<open>
  The loop of \<open>fsock_send_all\<close> over the array \<open>conns\<close> of the socket at \<open>h\<close>. The array is read
  again in every round, because a round may wait and let other threads change it; so
  nothing bounds the loop and it is a partial function.
\<close>

partial_function (option) send_all_loop ::
  "'x framer \<Rightarrow> ('x world \<Rightarrow> 'x world) \<Rightarrow> (int \<Rightarrow> int) \<Rightarrow> int \<Rightarrow> nat \<Rightarrow> nat \<Rightarrow> nat option \<Rightarrow> 32 word \<Rightarrow> 32 word \<Rightarrow>
   nat option \<times> int \<Rightarrow> int \<Rightarrow> 'x world \<Rightarrow> (fault + (int \<times> 'x world)) option" where
  "send_all_loop F others ret0 s a h fr dflags sndflags it rc w =
     (case it of
        (None, index) \<Rightarrow> Some (Inr (rc, w))
      | (Some p, index) \<Rightarrow>
          (case rbind (send_all_wants a index dflags w) (\<lambda>b.
                 if b then rbind (fsock_send F others (ret0 index) s index fr (sndflags OR FSOCK_SND_UNSAFE) w)
                              (\<lambda>(rc1, w1). Inr (rc1, rc1 \<noteq> 0 \<and> sndflags AND FSOCK_STOP_ONERR \<noteq> 0, w1))
                 else Inr (rc, False, w)) of
             Inl f \<Rightarrow> Some (Inl f)
           | Inr (rc1, quit, w1) \<Rightarrow>
               if quit then Some (Inr (rc1, w1))
               else
                 (case rbind (sock_at w1 h) (\<lambda>hs. fsock_parr_next (s_conns hs) index) of
                    Inl f \<Rightarrow> Some (Inl f)
                  | Inr it1 \<Rightarrow> send_all_loop F others ret0 s a h fr dflags sndflags it1 rc1 w1)))"

definition fsock_send_all ::
  "'x framer \<Rightarrow> ('x world \<Rightarrow> 'x world) \<Rightarrow> (int \<Rightarrow> int) \<Rightarrow> int \<Rightarrow> nat \<Rightarrow> nat option \<Rightarrow> 32 word \<Rightarrow> 32 word \<Rightarrow> 'x world \<Rightarrow>
   fault + (int \<times> 'x world)" where
  "fsock_send_all F others ret0 s h fr dflags sndflags w =
     rbind (parr_ptr (g_socks w) s) (\<lambda>a.
     rbind (fsock_mutex_lock (Sock_sync a) w) (\<lambda>w1.
     rbind (sock_at w1 h) (\<lambda>hs.
     rbind (fsock_parr_begin (s_conns hs)) (\<lambda>it.
     case send_all_loop F others ret0 s a h fr dflags sndflags it 0 w1 of
       None \<Rightarrow> Inl Hang
     | Some r \<Rightarrow> rbind r (\<lambda>(rc, w2). rbind (fsock_mutex_unlock (Sock_sync a) w2) (\<lambda>w3. Inr (rc, w3)))))))"

definition fsock_sendc ::
  "'x framer \<Rightarrow> ('x world \<Rightarrow> 'x world) \<Rightarrow> (int \<Rightarrow> int) \<Rightarrow> int \<Rightarrow> int \<Rightarrow> int \<Rightarrow> int \<Rightarrow> nat option \<Rightarrow>
   32 word \<Rightarrow> 32 word \<Rightarrow> 'x world \<Rightarrow> fault + (int \<times> 'x world)" where
  "fsock_sendc F others ret0 s type b c fr dflags sndflags w =
     rbind (parr_read (g_socks w) s) (\<lambda>cell.
     if type = FSOCK_SND_ALL then
       rbind (cell_ptr cell) (\<lambda>a. fsock_send_all F others ret0 s a fr dflags sndflags w)
     else if type = FSOCK_SND_BIND then
       rbind (cell_ptr cell) (\<lambda>a.
       rbind (sock_at w a) (\<lambda>sock.
       rbind (assert_that (pa_last (s_binds sock) > b)) (\<lambda>_.
       rbind (parr_ptr (s_binds sock) b) (\<lambda>bnd.
       fsock_send_all F others ret0 s bnd fr dflags sndflags w))))
     else if type = FSOCK_SND_BINDCONN then
       rbind (cell_ptr cell) (\<lambda>a.
       rbind (sock_at w a) (\<lambda>sock.
       rbind (assert_that (pa_last (s_binds sock) > b)) (\<lambda>_.
       rbind (parr_ptr (s_binds sock) b) (\<lambda>bnd.
       rbind (sock_at w bnd) (\<lambda>bs.
       rbind (assert_that (pa_last (s_conns bs) > c)) (\<lambda>_.
       rbind (parr_ptr (s_conns bs) c) (\<lambda>conn.
       rbind (sock_at w conn) (\<lambda>cs.
       fsock_send F others (ret0 (s_idxlocal cs)) s (s_idxlocal cs) fr sndflags w))))))))
     else Inr (-1, set_errno EINVAL w))"

end
