(* ===== verification/Flow.thy ===== *)
theory Flow
  imports Reading Global
begin

unbundle bit_operations_syntax

text \<open>
  Flow control: the read handler stops the reads of all connections of a socket when the
  socket's queue of events grows beyond its high water mark, and \<open>fsock_get_event\<close> restarts
  them when taking an event out brings the queue below the mark again.
\<close>

subsection \<open>Sockets ready for flow control\<close>

text \<open>
  \<open>flow_ready w Q thr ss\<close>: the four workers run and nobody holds their mutexes, the
  connections in the slots \<open>ss\<close> are live and have threads, given by \<open>thr\<close>, and a read task of
  a connection is queued, if at all, at the connection's thread.
\<close>

definition flow_ready :: "'x world \<Rightarrow> (queue_id \<Rightarrow> item list) \<Rightarrow> (nat \<Rightarrow> nat) \<Rightarrow> nat option list \<Rightarrow> bool" where
  "flow_ready w Q thr ss \<longleftrightarrow>
     workers_up w \<and> conns_placed w thr (live_conns ss) \<and>
     (\<forall>c \<in> live_conns ss. task_home Q START_READ thr c \<and> task_home Q STOP_READ thr c)"

definition all_reads :: "tkind \<Rightarrow> tkind \<Rightarrow> nat option list \<Rightarrow> (queue_id \<Rightarrow> item list) \<Rightarrow> bool" where
  "all_reads field other ss Q \<longleftrightarrow> (\<forall>c \<in> live_conns ss. task_set Q field other c)"

definition wake_all :: "effect list" where
  "wake_all = [Async_send 0, Async_send 1, Async_send 2, Async_send 3]"

lemma flow_bulk:
  assumes ok: "queues_ok w Q" and a: "w_heap w a = Some s" and rep: "parr_rep ss (s_conns s)"
    and ready: "flow_ready w Q thr ss"
    and dir: "field = START_READ \<and> other = STOP_READ \<or> field = STOP_READ \<and> other = START_READ"
  shows "\<exists>w1 Q'. bulk_schedule a field other w = Inr (w1\<lparr>w_log := w_log w @ wake_all\<rparr>) \<and>
    jobs_step w w1 \<and> queues_ok w1 Q' \<and> all_reads field other ss Q' \<and>
    (\<forall>k. filter (\<lambda>it. \<not> bulk_touched (live_conns ss) field other it) (Q' k) =
         filter (\<lambda>it. \<not> bulk_touched (live_conns ss) field other it) (Q k))"
  using bulk_schedule_ok [OF ok _ a rep, of thr field other] ready dir
  unfolding flow_ready_def all_reads_def wake_all_def by auto

text \<open>A world that differs at one socket, whose thread and connections are the same, stays ready.\<close>

lemma flow_ready_frame:
  assumes ready: "flow_ready w Q thr ss" and a: "w_heap w a = Some s" "w_heap w' a = Some s'" "s_thr s' = s_thr s"
    and same: "w_threads w' = w_threads w" "\<And>c. c \<noteq> a \<Longrightarrow> w_heap w' c = w_heap w c"
    and held: "\<And>i. Thr_sync i \<in> w_held w' \<longleftrightarrow> Thr_sync i \<in> w_held w"
  shows "workers_up w' \<and> conns_placed w' thr (live_conns ss)"
proof
  show "workers_up w'" using ready same(1) held by (simp add: flow_ready_def workers_up_def)
  show "conns_placed w' thr (live_conns ss)"
    unfolding conns_placed_def
  proof
    fix c assume "c \<in> live_conns ss"
    then obtain s0 where "w_heap w c = Some s0" "s_thr s0 = Some (thr c)" "thr c < length (w_threads w)"
      using ready by (auto simp: flow_ready_def conns_placed_def)
    then show "\<exists>s. w_heap w' c = Some s \<and> s_thr s = Some (thr c) \<and> thr c < length (w_threads w')"
      using a same by (cases "c = a") auto
  qed
qed

text \<open>The local queue is appended to the owner's, which counts and signals.\<close>

lemma deliver_append:
  assumes ok: "local_ok w q Q" and a: "w_heap w a = Some s" and ne: "Q Local \<noteq> []"
  shows "\<exists>w2 s2. read_append a q (sock_put a (s\<lparr>s_rcvqsz := n\<rparr>) (w\<lparr>w_held := insert l (w_held w)\<rparr>)) = Inr w2 \<and>
    w_heap w2 = (w_heap w)(a \<mapsto> s2) \<and> s_rcvqsz s2 = n \<and> s_rcvhwm s2 = s_rcvhwm s \<and> s_conns s2 = s_conns s \<and> s_thr s2 = s_thr s \<and>
    queues_ok w2 (Q(Events_of a := Q (Events_of a) @ Q Local, Local := [])) \<and> w_threads w2 = w_threads w \<and>
    w_held w2 = insert l (w_held w) \<and> w_log w2 = w_log w @ signal_log a s"
proof -
  let ?s1 = "s\<lparr>s_rcvqsz := n\<rparr>" and ?wl = "w\<lparr>w_held := insert l (w_held w)\<rparr>"
  let ?w1 = "sock_put a ?s1 ?wl"
  have "local_ok ?wl q Q" using ok by (rule local_ok_frame) simp_all
  then have ok1: "local_ok ?w1 q Q" by (rule local_ok_sock_put) (simp_all add: a)
  have h1: "w_heap ?w1 a = Some ?s1" by (simp add: sock_put_def)
  obtain m ev where r: "read_append a q ?w1 = Inr (sock_put a (appended ev ?s1) (?w1\<lparr>w_next := m, w_log := w_log ?w1 @ signal_log a ?s1\<rparr>))"
      "queues_ok (sock_put a (appended ev ?s1) (?w1\<lparr>w_next := m, w_log := w_log ?w1 @ signal_log a ?s1\<rparr>))
         (Q(Events_of a := Q (Events_of a) @ Q Local, Local := []))"
    using read_append_ok [OF ok1 h1 ne] by blast
  show ?thesis
    by (intro exI conjI, rule r(1), unfold sock_put_def, simp, use r(2) in \<open>simp_all add: appended_def signal_log_def sock_put_def\<close>)
qed

text \<open>Stopping the reads under the owner's mutex, and giving the mutex back.\<close>

lemma stop_reads_ok:
  assumes ok: "queues_ok w2 Q2" and h2: "w_heap w2 = (w_heap w)(a \<mapsto> s2)" and a: "w_heap w a = Some s"
    and same: "s_conns s2 = s_conns s" "s_thr s2 = s_thr s" "w_threads w2 = w_threads w" "w_held w2 = insert (Sock_sync a) H"
    and held: "w_held w = H" "Sock_sync a \<notin> H" and home: "\<And>k c. task_home Q k thr c \<Longrightarrow> task_home Q2 k thr c"
    and rep: "parr_rep ss (s_conns s)" and ready: "flow_ready w Q thr ss"
  shows "\<exists>w5 w' Q'. bulk_schedule a STOP_READ START_READ (sock_put a (s2\<lparr>s_reading := FSOCK_SOCK_STOP_OP\<rparr>) w2) = Inr w5 \<and>
    fsock_mutex_unlock (Sock_sync a) w5 = Inr w' \<and> queues_ok w' Q' \<and> all_reads STOP_READ START_READ ss Q' \<and>
    (\<forall>k. filter (\<lambda>it. \<not> bulk_touched (live_conns ss) STOP_READ START_READ it) (Q' k) =
       filter (\<lambda>it. \<not> bulk_touched (live_conns ss) STOP_READ START_READ it) (Q2 k)) \<and>
    w_heap w' a = Some (s2\<lparr>s_reading := FSOCK_SOCK_STOP_OP\<rparr>) \<and> w_held w' = H \<and> w_log w' = w_log w2 @ wake_all"
proof -
  let ?s3 = "s2\<lparr>s_reading := FSOCK_SOCK_STOP_OP\<rparr>"
  let ?w3 = "sock_put a ?s3 w2"
  have ok3: "queues_ok ?w3 Q2" by (rule queues_ok_sock_put [OF ok]) (simp_all add: h2)
  have h3: "w_heap ?w3 a = Some ?s3" by (simp add: sock_put_def)
  have "workers_up ?w3 \<and> conns_placed ?w3 thr (live_conns ss)"
    by (rule flow_ready_frame [OF ready a h3]) (simp_all add: same held(1) h2 sock_put_def)
  then have ready3: "flow_ready ?w3 Q2 thr ss" using ready home by (simp add: flow_ready_def)
  obtain w4 Q' where b: "bulk_schedule a STOP_READ START_READ ?w3 = Inr (w4\<lparr>w_log := w_log ?w3 @ wake_all\<rparr>)"
      "jobs_step ?w3 w4" "queues_ok w4 Q'" "all_reads STOP_READ START_READ ss Q'"
      "\<forall>k. filter (\<lambda>it. \<not> bulk_touched (live_conns ss) STOP_READ START_READ it) (Q' k) =
         filter (\<lambda>it. \<not> bulk_touched (live_conns ss) STOP_READ START_READ it) (Q2 k)"
    using flow_bulk [OF ok3 h3 _ ready3, of STOP_READ START_READ] rep same(1) by auto
  note d = jobs_stepD [OF b(2)]
  let ?w5 = "w4\<lparr>w_log := w_log ?w3 @ wake_all\<rparr>"
  have h4: "w_heap w4 a = Some ?s3" using d(1) by (simp add: sock_put_def)
  have "fsock_mutex_unlock (Sock_sync a) ?w5 = Inr (?w5\<lparr>w_held := H\<rparr>)"
    using h4 d(2) same(4) held(2) by (intro mutex_unlock_ok) (simp_all add: lock_exists_def sock_put_def)
  moreover have "queues_ok (?w5\<lparr>w_held := H\<rparr>) Q'" using b(3) by (rule queues_ok_frame) simp_all
  ultimately show ?thesis using b(1,4,5) h4
    by (intro exI [of _ ?w5] exI [of _ "?w5\<lparr>w_held := H\<rparr>"] exI [of _ Q']) (simp add: sock_put_def)
qed

text \<open>
  C4: events that take the owner's queue beyond its high water mark stop the reads: every
  connection of the owner has the task that stops reading queued and the one that starts it
  taken back, all other queued items stay where they are, all workers are woken, and no mutex
  stays locked.
\<close>

theorem receive_above_hwm_stops_reads:
  assumes ok: "local_ok w q Q" and a: "w_heap w a = Some s" and ne: "Q Local \<noteq> []"
    and cnt: "0 < cnt" "0 \<le> s_rcvqsz s" "s_rcvqsz s + cnt \<le> INT_MAX" and unheld: "Sock_sync a \<notin> w_held w"
    and above: "0 < s_rcvhwm s" "s_rcvhwm s < s_rcvqsz s + cnt"
    and rep: "parr_rep ss (s_conns s)" and ready: "flow_ready w Q thr ss"
  shows "\<exists>w' s' Q'. read_deliver a q cnt w = Inr w' \<and> w_heap w' a = Some s' \<and> s_reading s' = FSOCK_SOCK_STOP_OP \<and>
    s_rcvqsz s' = s_rcvqsz s + cnt \<and> queues_ok w' Q' \<and> all_reads STOP_READ START_READ ss Q' \<and>
    filter (\<lambda>it. \<not> bulk_touched (live_conns ss) STOP_READ START_READ it) (Q' (Events_of a)) =
    filter (\<lambda>it. \<not> bulk_touched (live_conns ss) STOP_READ START_READ it) (Q (Events_of a) @ Q Local) \<and>
    w_held w' = w_held w \<and> w_log w' = w_log w @ signal_log a s @ wake_all"
proof -
  let ?wl = "w\<lparr>w_held := insert (Sock_sync a) (w_held w)\<rparr>" and ?n = "s_rcvqsz s + cnt"
  have lock: "fsock_mutex_lock (Sock_sync a) w = Inr ?wl"
    using unheld a by (simp add: fsock_mutex_lock_def lock_exists_def)
  obtain w2 s2 where r: "read_append a q (sock_put a (s\<lparr>s_rcvqsz := ?n\<rparr>) ?wl) = Inr w2" "w_heap w2 = (w_heap w)(a \<mapsto> s2)"
      "s_rcvqsz s2 = ?n" "s_rcvhwm s2 = s_rcvhwm s" "s_conns s2 = s_conns s" "s_thr s2 = s_thr s"
      "queues_ok w2 (Q(Events_of a := Q (Events_of a) @ Q Local, Local := []))" "w_threads w2 = w_threads w"
      "w_held w2 = insert (Sock_sync a) (w_held w)" "w_log w2 = w_log w @ signal_log a s"
    using deliver_append [OF ok a ne] by blast
  have home: "task_home (Q(Events_of a := Q (Events_of a) @ Q Local, Local := [])) k thr c" if "task_home Q k thr c" for k c
    using that by (auto simp: task_home_def)
  obtain w5 w' Q' where b: "bulk_schedule a STOP_READ START_READ (sock_put a (s2\<lparr>s_reading := FSOCK_SOCK_STOP_OP\<rparr>) w2) = Inr w5"
      "fsock_mutex_unlock (Sock_sync a) w5 = Inr w'" "queues_ok w' Q'" "all_reads STOP_READ START_READ ss Q'"
      "\<forall>k. filter (\<lambda>it. \<not> bulk_touched (live_conns ss) STOP_READ START_READ it) (Q' k) =
         filter (\<lambda>it. \<not> bulk_touched (live_conns ss) STOP_READ START_READ it) ((Q(Events_of a := Q (Events_of a) @ Q Local, Local := [])) k)"
      "w_heap w' a = Some (s2\<lparr>s_reading := FSOCK_SOCK_STOP_OP\<rparr>)" "w_held w' = w_held w" "w_log w' = w_log w2 @ wake_all"
    using stop_reads_ok [OF r(7,2) a r(5,6,8,9) refl unheld home rep ready] by blast
  have at1: "sock_at ?wl a = Inr s" and at2: "sock_at w2 a = Inr s2" using a r(2) by (simp_all add: sock_at_def)
  have ci: "c_int ?n = Inr ?n" using cnt by simp
  have hwm: "s_rcvhwm s2 > 0 \<and> s_rcvhwm s2 < s_rcvqsz s2" using above r(3,4) by simp
  have "read_deliver a q cnt w = Inr w'"
    unfolding read_deliver_def lock rbind_Inr at1 ci Let_def if_P [OF cnt(1)] r(1) at2 if_P [OF hwm] b(1,2) ..
  then show ?thesis
    using b(3-8) r(3,10) by (intro exI [of _ w'] exI [of _ "s2\<lparr>s_reading := FSOCK_SOCK_STOP_OP\<rparr>"] exI [of _ Q']) simp
qed

definition example_local :: "unit world" where
  "example_local = example_world
     \<lparr>w_heap := [0 \<mapsto> example_base\<lparr>s_rcvqsz := 1000\<rparr>, 1 \<mapsto> example_conn],
      w_next := (\<lambda>_. NotInQueue)(Event 2 := Null), w_events := [2 \<mapsto> New_frame 9], w_allocs := 3\<rparr>"

lemma example_rep: "parr_rep [Some a] (example_parr a)" "live_conns [Some c] = {c}"
  by (simp_all add: parr_rep_def parr_block_def example_parr_def live_conns_def live_from_def upt_rec map_filter_simps)

lemma example_local_ready:
  "local_ok example_local \<lparr>q_head = Item (Event 2), q_tail = Item (Event 2)\<rparr> ((\<lambda>_. [])(Local := [Event 2]))"
  "flow_ready example_local ((\<lambda>_. [])(Local := [Event 2])) (\<lambda>_. 0) [Some 1]"
  "w_heap example_local 0 = Some (example_base\<lparr>s_rcvqsz := 1000\<rparr>)" "w_held example_local = {}"
  "parr_rep [Some 1] (s_conns (example_base\<lparr>s_rcvqsz := 1000\<rparr>))" "s_rcvhwm example_base = 1000"
proof -
  show "local_ok example_local \<lparr>q_head = Item (Event 2), q_tail = Item (Event 2)\<rparr> ((\<lambda>_. [])(Local := [Event 2]))"
    by (auto simp: local_ok_def queue_family_def queue_hdr_def example_local_def example_base_def example_conn_def
        example_sock_def queue_rep_def fsock_queue_init_def split: queue_id.split)
  show "flow_ready example_local ((\<lambda>_. [])(Local := [Event 2])) (\<lambda>_. 0) [Some 1]"
    by (simp add: flow_ready_def workers_up_def conns_placed_def example_rep task_home_def example_local_def example_conn_def)
qed (use example_rep(1) in \<open>simp_all add: example_local_def example_base_def example_sock_def\<close>)

theorem receive_above_hwm_stops_reads_witness:
  "\<exists>w' s' Q'. read_deliver 0 \<lparr>q_head = Item (Event 2), q_tail = Item (Event 2)\<rparr> 1 example_local = Inr w' \<and>
     w_heap w' 0 = Some s' \<and> s_reading s' = -1 \<and> s_rcvqsz s' = 1001 \<and> task_set Q' STOP_READ START_READ 1 \<and> queues_ok w' Q'"
  using receive_above_hwm_stops_reads [OF example_local_ready(1,3), of 1 "[Some 1]" "\<lambda>_. 0"] example_local_ready
  by (force simp: INT_MAX_def all_reads_def example_rep)

subsection \<open>Taking an event\<close>

text \<open>The first event is taken out, and the count goes down by one.\<close>

lemma get_event_take:
  assumes ok: "queues_ok w Q" and a: "w_heap w a = Some s" and ev: "Q (Events_of a) = Event e # es"
  shows "\<exists>n q. fsock_queue_pop (w_next w) (s_events s) = Inr (Some (Event e), n, q) \<and>
    \<not> fsock_queue_empty (s_events s) \<and>
    (\<forall>s'. s_events s' = q \<longrightarrow> queues_ok (sock_put a s' (w\<lparr>w_next := n\<rparr>)) (Q(Events_of a := es)))"
proof -
  note hd = queue_hdr_Events [OF a]
  obtain n q where p: "fsock_queue_pop (w_next w) (s_events s) = Inr (Some (Event e), n, q)"
      "queue_family n ((queue_hdr w)(Events_of a := Some q)) (Q(Events_of a := es))"
    using family_pop [of "w_next w" "queue_hdr w" Q "Events_of a" "s_events s" "Event e" es] ok hd ev
    by (auto simp: queues_ok_def)
  have "queues_ok (sock_put a s' (w\<lparr>w_next := n\<rparr>)) (Q(Events_of a := es))" if "s_events s' = q" for s'
    using p(2) that queue_hdr_frame [of "w\<lparr>w_next := n\<rparr>" w]
    by (simp add: queues_ok_def queue_hdr_sock_put) (simp add: sock_put_def)
  moreover have "\<not> fsock_queue_empty (s_events s)"
    using queue_rep_empty [of "w_next w" "s_events s" "Q (Events_of a)"] family_rep [of "w_next w" "queue_hdr w" Q "Events_of a" "s_events s"] ok hd ev
    by (auto simp: queues_ok_def)
  ultimately show ?thesis using p(1) by blast
qed

definition reads_restart :: "'x sock \<Rightarrow> bool" where
  "reads_restart s \<longleftrightarrow> s_rcvhwm s > 0 \<and> s_reading s = FSOCK_SOCK_STOP_OP \<and> s_rcvqsz s - 1 < s_rcvhwm s"

lemma get_event_pop_plain:
  assumes ok: "queues_ok w Q" and a: "w_heap w a = Some s" and ev: "Q (Events_of a) = Event e # es"
    and sz: "- INT_MAX \<le> s_rcvqsz s" "s_rcvqsz s \<le> INT_MAX"
    and held: "w_held w = insert (Sock_sync a) H" "Sock_sync a \<notin> H" and no: "\<not> reads_restart s"
  shows "\<exists>n q w'. get_event_pop a w = Inr (Some (Event e), w') \<and>
    w' = sock_put a (s\<lparr>s_events := q, s_rcvqsz := s_rcvqsz s - 1\<rparr>) (w\<lparr>w_next := n, w_held := H\<rparr>) \<and>
    queues_ok w' (Q(Events_of a := es))"
proof -
  obtain n q where p: "fsock_queue_pop (w_next w) (s_events s) = Inr (Some (Event e), n, q)"
      "\<not> fsock_queue_empty (s_events s)"
      "\<And>s'. s_events s' = q \<Longrightarrow> queues_ok (sock_put a s' (w\<lparr>w_next := n\<rparr>)) (Q(Events_of a := es))"
    using get_event_take [OF ok a ev] by blast
  let ?s1 = "s\<lparr>s_events := q, s_rcvqsz := s_rcvqsz s - 1\<rparr>"
  let ?w' = "sock_put a ?s1 (w\<lparr>w_next := n, w_held := H\<rparr>)"
  have unl: "fsock_mutex_unlock (Sock_sync a) (sock_put a ?s1 (w\<lparr>w_next := n\<rparr>)) = Inr ?w'"
    using held by (subst mutex_unlock_ok [of _ _ H]) (simp_all add: lock_exists_def sock_put_def)
  have "get_event_pop a w = Inr (Some (Event e), ?w')"
    using a p(1,2) sz no unl
    by (auto simp: get_event_pop_def sock_at_def Let_def reads_restart_def)
  moreover have "queues_ok ?w' (Q(Events_of a := es))"
    using p(3) [of ?s1] by (rule queues_ok_frame) (simp_all add: sock_put_def)
  ultimately show ?thesis by blast
qed

lemma get_event_pop_restart:
  assumes ok: "queues_ok w Q" and a: "w_heap w a = Some s" and ev: "Q (Events_of a) = Event e # es"
    and sz: "- INT_MAX \<le> s_rcvqsz s" "s_rcvqsz s \<le> INT_MAX"
    and held: "w_held w = insert (Sock_sync a) H" "Sock_sync a \<notin> H" and yes: "reads_restart s"
    and rep: "parr_rep ss (s_conns s)" and ready: "flow_ready w Q thr ss"
  shows "\<exists>w' s' Q'. get_event_pop a w = Inr (Some (Event e), w') \<and> w_heap w' a = Some s' \<and>
    s_reading s' = 0 \<and> s_rcvqsz s' = s_rcvqsz s - 1 \<and> w_held w' = H \<and> queues_ok w' Q' \<and>
    all_reads START_READ STOP_READ ss Q' \<and>
    filter (\<lambda>it. \<not> bulk_touched (live_conns ss) START_READ STOP_READ it) (Q' (Events_of a)) =
      filter (\<lambda>it. \<not> bulk_touched (live_conns ss) START_READ STOP_READ it) es \<and>
    w_log w' = w_log w @ wake_all"
proof -
  obtain n q where p: "fsock_queue_pop (w_next w) (s_events s) = Inr (Some (Event e), n, q)"
      "\<not> fsock_queue_empty (s_events s)"
      "\<And>s'. s_events s' = q \<Longrightarrow> queues_ok (sock_put a s' (w\<lparr>w_next := n\<rparr>)) (Q(Events_of a := es))"
    using get_event_take [OF ok a ev] by blast
  define s1 where "s1 = s\<lparr>s_events := q, s_rcvqsz := s_rcvqsz s - 1\<rparr>"
  define s2 where "s2 = s1\<lparr>s_reading := 0\<rparr>"
  define w2 where "w2 = sock_put a s2 (sock_put a s1 (w\<lparr>w_next := n\<rparr>))"
  have w2_eq: "w2 = sock_put a s2 (w\<lparr>w_next := n\<rparr>)" by (simp add: w2_def sock_put_def)
  have ok2: "queues_ok w2 (Q(Events_of a := es))"
    unfolding w2_eq by (rule p(3)) (simp add: s2_def s1_def)
  have h2: "w_heap w2 a = Some s2" and f2: "w_held w2 = w_held w" "w_log w2 = w_log w" "w_threads w2 = w_threads w"
    "\<And>c. c \<noteq> a \<Longrightarrow> w_heap w2 c = w_heap w c" by (simp_all add: w2_eq sock_put_def)
  have "workers_up w2 \<and> conns_placed w2 thr (live_conns ss)"
    by (rule flow_ready_frame [OF ready a h2]) (simp_all add: f2 s2_def s1_def)
  moreover have "task_home (Q(Events_of a := es)) k thr c" if "task_home Q k thr c" for k c
    using that unfolding task_home_def by (metis ev fun_upd_apply list.set_intros(2))
  ultimately have ready2: "flow_ready w2 (Q(Events_of a := es)) thr ss"
    using ready by (auto simp: flow_ready_def)
  have rep2: "parr_rep ss (s_conns s2)" using rep by (simp add: s2_def s1_def)
  obtain w3 Q' where b: "bulk_schedule a START_READ STOP_READ w2 = Inr (w3\<lparr>w_log := w_log w2 @ wake_all\<rparr>)"
      "jobs_step w2 w3" "queues_ok w3 Q'" "all_reads START_READ STOP_READ ss Q'"
      "\<forall>k. filter (\<lambda>it. \<not> bulk_touched (live_conns ss) START_READ STOP_READ it) (Q' k) =
         filter (\<lambda>it. \<not> bulk_touched (live_conns ss) START_READ STOP_READ it) ((Q(Events_of a := es)) k)"
    using flow_bulk [OF ok2 h2 rep2 ready2, of START_READ STOP_READ] by auto
  note d = jobs_stepD [OF b(2)]
  let ?w4 = "w3\<lparr>w_log := w_log w2 @ wake_all\<rparr>"
  have unl: "fsock_mutex_unlock (Sock_sync a) ?w4 = Inr (?w4\<lparr>w_held := H\<rparr>)"
    using held d(1,2) f2 h2 by (intro mutex_unlock_ok) (simp_all add: lock_exists_def)
  have "get_event_pop a w = Inr (Some (Event e), ?w4\<lparr>w_held := H\<rparr>)"
    using a p(1,2) sz yes b(1) unl
    by (simp add: get_event_pop_def sock_at_def Let_def reads_restart_def w2_def s2_def s1_def)
  moreover have "queues_ok (?w4\<lparr>w_held := H\<rparr>) Q'" using b(3) by (rule queues_ok_frame) simp_all
  moreover have "w_heap (?w4\<lparr>w_held := H\<rparr>) a = Some s2" using d(1) h2 by simp
  moreover have "s_reading s2 = 0" "s_rcvqsz s2 = s_rcvqsz s - 1" by (simp_all add: s2_def s1_def)
  ultimately show ?thesis using b(4,5) f2(2) by (intro exI [of _ "?w4\<lparr>w_held := H\<rparr>"] exI [of _ s2] exI [of _ Q']) simp
qed


subsection \<open>Receiving an event\<close>

lemma get_event_nonempty:
  assumes s: "parr_ptr (g_socks w) s = Inr a" and a: "w_heap w a = Some so" "s_type so = FSOCK_SOCK_BASE"
    and ok: "queues_ok w Q" and ev: "Q (Events_of a) \<noteq> []" and unheld: "Sock_sync a \<notin> w_held w"
  shows "fsock_get_event wait s flags w = get_event_pop a (w\<lparr>w_held := insert (Sock_sync a) (w_held w)\<rparr>)"
proof -
  have "\<not> fsock_queue_empty (s_events so)"
    using queue_rep_empty [of "w_next w" "s_events so" "Q (Events_of a)"]
      family_rep [of "w_next w" "queue_hdr w" Q "Events_of a" "s_events so"] ok queue_hdr_Events [OF a(1)] ev
    by (auto simp: queues_ok_def)
  then show ?thesis
    using assms by (simp add: fsock_get_event_def sock_at_def fsock_mutex_lock_def lock_exists_def)
qed

text \<open>
  C7: on a socket with events \<open>fsock_get_event\<close> returns the oldest one at once, whatever the
  flags, leaves the others in order, counts it off and releases the mutex; here for the case in which taking the event does
  not restart the reads.
\<close>

theorem get_event_takes_oldest:
  assumes s: "parr_ptr (g_socks w) s = Inr a" and a: "w_heap w a = Some so" "s_type so = FSOCK_SOCK_BASE"
    and ok: "queues_ok w Q" and ev: "Q (Events_of a) = Event e # es" and unheld: "Sock_sync a \<notin> w_held w"
    and sz: "- INT_MAX \<le> s_rcvqsz so" "s_rcvqsz so \<le> INT_MAX" and no: "\<not> reads_restart so"
  shows "\<exists>w' so'. fsock_get_event wait s flags w = Inr (Some (Event e), w') \<and> queues_ok w' (Q(Events_of a := es)) \<and>
    w_heap w' a = Some so' \<and> s_rcvqsz so' = s_rcvqsz so - 1 \<and> w_held w' = w_held w \<and> w_log w' = w_log w"
proof -
  let ?wl = "w\<lparr>w_held := insert (Sock_sync a) (w_held w)\<rparr>"
  have okl: "queues_ok ?wl Q" using ok by (rule queues_ok_frame) simp_all
  have al: "w_heap ?wl a = Some so" using a by simp
  obtain n q w' where p: "get_event_pop a ?wl = Inr (Some (Event e), w')"
      "w' = sock_put a (so\<lparr>s_events := q, s_rcvqsz := s_rcvqsz so - 1\<rparr>) (?wl\<lparr>w_next := n, w_held := w_held w\<rparr>)"
      "queues_ok w' (Q(Events_of a := es))"
    using get_event_pop_plain [OF okl al ev sz _ unheld no] by auto
  have "fsock_get_event wait s flags w = Inr (Some (Event e), w')"
    using get_event_nonempty [OF s a ok _ unheld, of wait flags] ev p(1) by simp
  then show ?thesis using p(2,3) by (intro exI [of _ w']) (simp add: sock_put_def)
qed

definition example_event :: "int \<Rightarrow> int \<Rightarrow> unit world" where
  "example_event sz reading = example_world
     \<lparr>w_heap := [0 \<mapsto> example_base\<lparr>s_events := \<lparr>q_head = Item (Event 2), q_tail = Item (Event 2)\<rparr>,
                                     s_rcvqsz := sz, s_reading := reading\<rparr>, 1 \<mapsto> example_conn],
      w_next := (\<lambda>_. NotInQueue)(Event 2 := Null), w_events := [2 \<mapsto> New_frame 9], w_allocs := 3\<rparr>"

lemma example_event_queues: "queues_ok (example_event sz reading) ((\<lambda>_. [])(Events_of 0 := [Event 2]))"
  by (auto simp: queues_ok_def queue_family_def queue_hdr_def example_event_def example_conn_def example_sock_def
      queue_rep_def fsock_queue_init_def split: queue_id.split)

lemma example_event_simps:
  "parr_ptr (g_socks (example_event sz reading)) 0 = Inr 0"
  "w_heap (example_event sz reading) 0 = Some (example_base\<lparr>s_events := \<lparr>q_head = Item (Event 2), q_tail = Item (Event 2)\<rparr>,
      s_rcvqsz := sz, s_reading := reading\<rparr>)"
  "w_held (example_event sz reading) = {}" "w_log (example_event sz reading) = []" "s_type example_base = 1" "s_rcvhwm example_base = 1000"
  "s_conns example_base = example_parr 1"
  by (simp_all add: example_event_def parr_ptr_def parr_read_def example_parr_def example_base_def example_sock_def)

theorem get_event_takes_oldest_witness:
  "\<exists>w'. fsock_get_event (\<lambda>w. (0, w)) 0 0 (example_event 1 0) = Inr (Some (Event 2), w') \<and> w_held w' = {} \<and>
     queues_ok w' ((\<lambda>_. [])(Events_of 0 := [Event 2], Events_of 0 := []))"
  using get_event_takes_oldest [where w = "example_event 1 0" and e = 2 and es = "[]" and wait = "\<lambda>w. (0, w)" and flags = 0,
      OF example_event_simps(1,2) _ example_event_queues]
  by (auto simp: example_event_simps reads_restart_def INT_MAX_def)

text \<open>
  C5: taking the event that brings a stopped socket below its high water mark restarts the
  reads: every connection has the task that starts reading queued and the one that stops it
  taken back.
\<close>

theorem get_event_restarts_reads:
  assumes s: "parr_ptr (g_socks w) s = Inr a" and a: "w_heap w a = Some so" "s_type so = FSOCK_SOCK_BASE"
    and ok: "queues_ok w Q" and ev: "Q (Events_of a) = Event e # es" and unheld: "Sock_sync a \<notin> w_held w"
    and sz: "- INT_MAX \<le> s_rcvqsz so" "s_rcvqsz so \<le> INT_MAX" and yes: "reads_restart so"
    and rep: "parr_rep ss (s_conns so)" and ready: "flow_ready w Q thr ss"
  shows "\<exists>w' so' Q'. fsock_get_event wait s flags w = Inr (Some (Event e), w') \<and>
    w_heap w' a = Some so' \<and> s_reading so' = 0 \<and> s_rcvqsz so' = s_rcvqsz so - 1 \<and>
    queues_ok w' Q' \<and> all_reads START_READ STOP_READ ss Q' \<and>
    w_held w' = w_held w \<and> w_log w' = w_log w @ wake_all"
proof -
  let ?wl = "w\<lparr>w_held := insert (Sock_sync a) (w_held w)\<rparr>"
  have okl: "queues_ok ?wl Q" using ok by (rule queues_ok_frame) simp_all
  have al: "w_heap ?wl a = Some so" using a by simp
  have rl: "flow_ready ?wl Q thr ss" using ready unfolding flow_ready_def workers_up_def conns_placed_def by simp metis
  obtain w' s' Q' where p: "get_event_pop a ?wl = Inr (Some (Event e), w')" "w_heap w' a = Some s'"
      "s_reading s' = 0" "s_rcvqsz s' = s_rcvqsz so - 1" "w_held w' = w_held w" "queues_ok w' Q'"
      "all_reads START_READ STOP_READ ss Q'" "w_log w' = w_log ?wl @ wake_all"
    using get_event_pop_restart [OF okl al ev sz _ unheld yes rep rl] by auto
  have "fsock_get_event wait s flags w = Inr (Some (Event e), w')"
    using get_event_nonempty [OF s a ok _ unheld, of wait flags] ev p(1) by simp
  then show ?thesis using p by (intro exI [of _ w'] exI [of _ s'] exI [of _ Q']) simp
qed

lemma example_event_ready: "flow_ready (example_event sz reading) ((\<lambda>_. [])(Events_of 0 := [Event 2])) (\<lambda>_. 0) [Some 1]"
  by (simp add: flow_ready_def workers_up_def conns_placed_def example_rep task_home_def example_event_def example_conn_def)

theorem get_event_restarts_reads_witness:
  "\<exists>w' Q'. fsock_get_event (\<lambda>w. (0, w)) 0 0 (example_event 1000 (-1)) = Inr (Some (Event 2), w') \<and>
     task_set Q' START_READ STOP_READ 1 \<and> queues_ok w' Q' \<and> w_log w' = wake_all"
proof -
  have rep: "parr_rep [Some 1] (s_conns (example_base\<lparr>s_events := \<lparr>q_head = Item (Event 2), q_tail = Item (Event 2)\<rparr>,
      s_rcvqsz := 1000, s_reading := -1\<rparr>))" using example_rep(1) by (simp add: example_event_simps)
  show ?thesis
    using get_event_restarts_reads [where e = 2 and es = "[]" and wait = "\<lambda>w. (0, w)" and flags = 0,
        OF example_event_simps(1,2) _ example_event_queues _ _ _ _ _ rep example_event_ready]
    by (auto simp: example_event_simps reads_restart_def INT_MAX_def all_reads_def example_rep)
qed

text \<open>
  C23: what becomes of a receive on an empty socket that has its event descriptor and is still there after the wait. Without waiting it returns NULL and
  changes nothing. Waiting, it first records that it waits; a timeout is reported through
  \<open>errno\<close>; any other failure of the wait, an interrupted call among them, ends the process; and
  so does being woken when there is no event.
\<close>

theorem get_event_on_empty:
  assumes s: "parr_ptr (g_socks w) s = Inr a" and a: "w_heap w a = Some so" "s_type so = FSOCK_SOCK_BASE"
    and empty: "s_events so = fsock_queue_init" and unheld: "Sock_sync a \<notin> w_held w" and efd: "0 \<le> s_efd so"
    and woken: "wait (sock_put a (so\<lparr>s_want_efd := 1\<rparr>) w) = (rc, w3)" "w_heap w3 a = Some s3"
      "Sock_sync a \<notin> w_held w3" "0 \<le> s_efd s3"
  shows "fsock_get_event wait s flags w =
    (if flags AND FSOCK_DONWAIT \<noteq> 0 then Inr (None, w)
     else if rc = - c_ETIMEDOUT then Inr (None, set_errno ETIMEDOUT w3)
     else if rc \<noteq> 0 \<or> s_sigs s3 = 0 then Inl Abort
     else if fsock_queue_empty (s_events s3) then Inl Abort
     else get_event_pop a (sock_put a (s3\<lparr>s_sigs := 0\<rparr>) (w3\<lparr>w_held := insert (Sock_sync a) (w_held w3)\<rparr>)))"
proof -
  let ?wl = "w\<lparr>w_held := insert (Sock_sync a) (w_held w)\<rparr>"
  have un1: "fsock_mutex_unlock (Sock_sync a) ?wl = Inr w"
    using unheld a by (subst mutex_unlock_ok [of _ _ "w_held w"]) (simp_all add: lock_exists_def)
  have un2: "fsock_mutex_unlock (Sock_sync a) (sock_put a (so\<lparr>s_want_efd := 1\<rparr>) ?wl) = Inr (sock_put a (so\<lparr>s_want_efd := 1\<rparr>) w)"
    using unheld by (subst mutex_unlock_ok [of _ _ "w_held w"]) (simp_all add: lock_exists_def sock_put_def)
  have lk: "fsock_mutex_lock (Sock_sync a) (sock_put a (s3\<lparr>s_sigs := 0\<rparr>) w3) =
      Inr (sock_put a (s3\<lparr>s_sigs := 0\<rparr>) (w3\<lparr>w_held := insert (Sock_sync a) (w_held w3)\<rparr>))"
    using woken(3) by (subst mutex_lock_ok) (simp_all add: lock_exists_def sock_put_def)
  have at: "sock_at w a = Inr so" "sock_at (sock_put a (so\<lparr>s_want_efd := 1\<rparr>) w) a = Inr (so\<lparr>s_want_efd := 1\<rparr>)"
    "sock_at w3 a = Inr s3" "fsock_mutex_lock (Sock_sync a) w = Inr ?wl"
    using a woken(2) unheld by (simp_all add: sock_at_def sock_put_def fsock_mutex_lock_def lock_exists_def)
  have pop: "get_event_pop a (sock_put a (s3\<lparr>s_sigs := 0\<rparr>) v) = Inl Abort" if "fsock_queue_empty (s_events s3)" for v
    using that by (simp add: get_event_pop_def sock_at_def sock_put_def)
  show ?thesis
    using assms(3,4) efd woken(1,4) s un1 un2 lk at pop
    by (cases "rc = 0") (auto simp: fsock_get_event_def sock_efd_wait_def sock_efd_unsignal_def fsock_queue_empty_def fsock_queue_init_def)
qed

theorem get_event_on_empty_witness:
  "fsock_get_event (\<lambda>w. (-4, w)) 0 0 example_world = Inl Abort"
proof -
  have p: "parr_ptr (g_socks example_world) 0 = Inr 0" by (simp add: parr_ptr_def parr_read_def example_parr_def)
  show ?thesis
    using get_event_on_empty [OF p example_simps(1), of "\<lambda>w. (-4, w)" "-4"
        "sock_put 0 (example_base\<lparr>s_want_efd := 1\<rparr>) example_world" "example_base\<lparr>s_want_efd := 1\<rparr>" 0]
    by (simp add: example_base_def example_sock_def sock_put_def c_ETIMEDOUT_def)
qed

end
