(* ===== verification/Sending.thy ===== *)
theory Sending
  imports Scheduling Example Global
begin

unbundle bit_operations_syntax

text \<open>
  What \<open>fsock_send\<close> does: refusing, or putting the frame on the connection's list, waking the
  connection's thread, and accounting for it in the socket.
\<close>

subsection \<open>Sending a frame\<close>

definition sent_conn :: "'x framer \<Rightarrow> 'x world \<Rightarrow> nat \<Rightarrow> 'x sock \<Rightarrow> 'x sock" where
  "sent_conn F w li cs =
     cs\<lparr>s_writing := (if s_writing cs = 0 then 1 else s_writing cs), s_ol := snd (frm_ol_insert F (w_out w) (s_ol cs) li)\<rparr>"

definition sent_base :: "'x sock \<Rightarrow> 'x sock" where
  "sent_base s =
     s\<lparr>s_sndqsz := s_sndqsz s + 1,
       s_writing := (if s_sndhwm s > 0 \<and> s_writing s \<noteq> FSOCK_SOCK_STOP_OP \<and> s_sndqsz s + 1 \<ge> s_sndhwm s
                     then FSOCK_SOCK_STOP_OP else s_writing s)\<rparr>"

text \<open>\<open>send_ready\<close>: connection \<open>conn\<close> has thread \<open>t\<close>, and if it is not writing its write task is free.\<close>

definition send_ready :: "'x world \<Rightarrow> nat \<Rightarrow> 'x sock \<Rightarrow> nat \<Rightarrow> bool" where
  "send_ready w conn cs t \<longleftrightarrow>
     w_heap w conn = Some cs \<and> s_thr cs = Some t \<and> t < length (w_threads w) \<and> t_loop (w_threads w ! t) \<and>
     Sock_sync conn \<notin> w_held w \<and> Thr_sync t \<notin> w_held w \<and>
     (s_writing cs = 0 \<longrightarrow> \<not> item_isinqueue (Sock_task conn START_WRITE) w)"

text \<open>Telling the connection's thread to write, when the connection is not being written.\<close>

definition writer_started :: "'x sock \<Rightarrow> 'x sock" where
  "writer_started cs = cs\<lparr>s_writing := (if s_writing cs = 0 then 1 else s_writing cs)\<rparr>"

lemma send_start_ok:
  assumes ok: "queues_ok w Q" and conn: "w_heap w conn = Some cs" "s_thr cs = Some t"
    and t: "t < length (w_threads w)" "t_loop (w_threads w ! t)" "Thr_sync t \<notin> w_held w"
    and idle: "s_writing cs = 0 \<longrightarrow> \<not> item_isinqueue (Sock_task conn START_WRITE) w"
  shows "\<exists>w'. (if s_writing cs = 0
      then rbind (ptr_deref (s_thr cs)) (\<lambda>i.
           rbind (fsock_thread_schedule_task i (Sock_task conn START_WRITE) w) (sock_upd conn (\<lambda>c. c\<lparr>s_writing := 1\<rparr>)))
      else Inr w) = Inr w' \<and>
    queues_ok w' (if s_writing cs = 0 then Q(Jobs t := Q (Jobs t) @ [Sock_task conn START_WRITE]) else Q) \<and>
    w_heap w' = (w_heap w)(conn := Some (writer_started cs)) \<and> w_held w' = w_held w \<and>
    w_log w' = w_log w @ (if s_writing cs = 0 then [Async_send t] else []) \<and> w_oframe w' = w_oframe w \<and>
    w_out w' = w_out w \<and> g_socks w' = g_socks w \<and> length (w_threads w') = length (w_threads w)"
proof (cases "s_writing cs = 0")
  case False
  have "(w_heap w)(conn := Some cs) = w_heap w" using conn by (intro fun_upd_idem) simp
  then show ?thesis using False ok by (intro exI [of _ w]) (simp add: writer_started_def)
next
  case True
  let ?Q = "Q(Jobs t := Q (Jobs t) @ [Sock_task conn START_WRITE])"
  obtain w1 where w1: "fsock_thread_schedule_task t (Sock_task conn START_WRITE) w = Inr (log_eff (Async_send t) w1)"
      "queues_ok w1 ?Q" "jobs_step w w1"
    using schedule_task_ok [OF ok t(1,2), of "Sock_task conn START_WRITE"] True t(3) idle by auto
  note d = jobs_stepD [OF w1(3)]
  let ?w' = "sock_put conn (writer_started cs) (log_eff (Async_send t) w1)"
  have "queues_ok (log_eff (Async_send t) w1) ?Q" using w1(2) by (rule queues_ok_frame) (simp_all add: log_eff_def)
  then have "queues_ok ?w' ?Q" by (rule queues_ok_sock_put) (use conn d in \<open>simp_all add: writer_started_def log_eff_def\<close>)
  then show ?thesis using True conn w1(1) d
    by (intro exI [of _ ?w']) (simp add: ptr_deref_def sock_upd_def sock_at_def sock_put_def log_eff_def writer_started_def)
qed

lemma send_enqueue_ok:
  assumes ok: "queues_ok w Q" and ready: "send_ready w conn cs t"
  shows "\<exists>w'. send_enqueue F conn li w = Inr w' \<and>
    queues_ok w' (if s_writing cs = 0 then Q(Jobs t := Q (Jobs t) @ [Sock_task conn START_WRITE]) else Q) \<and>
    w_heap w' = (w_heap w)(conn := Some (sent_conn F w li cs)) \<and> w_held w' = w_held w \<and>
    w_log w' = w_log w @ (if s_writing cs = 0 then [Async_send t] else []) \<and> w_oframe w' = w_oframe w \<and>
    w_out w' = fst (frm_ol_insert F (w_out w) (s_ol cs) li) \<and> g_socks w' = g_socks w \<and>
    length (w_threads w') = length (w_threads w)"
proof -
  note r = ready [unfolded send_ready_def]
  let ?wl = "w\<lparr>w_held := insert (Sock_sync conn) (w_held w)\<rparr>"
  have lock: "fsock_mutex_lock (Sock_sync conn) w = Inr ?wl"
    using r by (simp add: fsock_mutex_lock_def lock_exists_def)
  have at: "sock_at ?wl conn = Inr cs" using r by (simp add: sock_at_def)
  have okl: "queues_ok ?wl Q" using ok by (rule queues_ok_frame) simp_all
  let ?Q = "if s_writing cs = 0 then Q(Jobs t := Q (Jobs t) @ [Sock_task conn START_WRITE]) else Q"
  define cs1 where "cs1 = cs\<lparr>s_writing := (if s_writing cs = 0 then 1 else s_writing cs)\<rparr>"
  obtain w2 where w2: "(if s_writing cs = 0
            then rbind (ptr_deref (s_thr cs)) (\<lambda>i.
                 rbind (fsock_thread_schedule_task i (Sock_task conn START_WRITE) ?wl)
                   (sock_upd conn (\<lambda>c. c\<lparr>s_writing := 1\<rparr>)))
            else Inr ?wl) = Inr w2" "queues_ok w2 ?Q" "w_heap w2 = (w_heap w)(conn := Some cs1)"
      "w_held w2 = w_held ?wl" "w_log w2 = w_log w @ (if s_writing cs = 0 then [Async_send t] else [])"
      "w_oframe w2 = w_oframe w" "w_out w2 = w_out w" "g_socks w2 = g_socks w" "length (w_threads w2) = length (w_threads w)"
    using send_start_ok [OF okl, of conn cs t] r unfolding cs1_def writer_started_def by (auto simp: item_isinqueue_def)
  obtain links ol where ins: "frm_ol_insert F (w_out w) (s_ol cs) li = (links, ol)" by (cases "frm_ol_insert F (w_out w) (s_ol cs) li")
  have at2: "sock_at w2 conn = Inr cs1" using w2(3) by (simp add: sock_at_def)
  have ol1: "s_ol cs1 = s_ol cs" by (simp add: cs1_def)
  let ?w3 = "sock_put conn (cs1\<lparr>s_ol := ol\<rparr>) (w2\<lparr>w_out := links\<rparr>)"
  have unl: "fsock_mutex_unlock (Sock_sync conn) ?w3 = Inr (?w3\<lparr>w_held := w_held w\<rparr>)"
    using r w2(4) by (intro mutex_unlock_ok) (simp_all add: lock_exists_def sock_put_def)
  have "send_enqueue F conn li w = Inr (?w3\<lparr>w_held := w_held w\<rparr>)"
    unfolding send_enqueue_def lock rbind_Inr at w2(1) at2 ol1 w2(7) ins Let_def split unl ..
  moreover have "queues_ok (w2\<lparr>w_out := links\<rparr>) ?Q" using w2(2) by (rule queues_ok_frame) simp_all
  then have "queues_ok ?w3 ?Q" by (rule queues_ok_sock_put) (use w2(3) in simp_all)
  then have "queues_ok (?w3\<lparr>w_held := w_held w\<rparr>) ?Q" by (rule queues_ok_frame) simp_all
  moreover have "sent_conn F w li cs = cs1\<lparr>s_ol := ol\<rparr>" by (simp add: sent_conn_def cs1_def ins)
  ultimately show ?thesis
    using w2 ins by (intro exI [of _ "?w3\<lparr>w_held := w_held w\<rparr>"]) (simp add: sock_put_def)
qed

lemma send_account_ok:
  assumes a: "w_heap w a = Some s" and sz: "- INT_MAX - 1 \<le> s_sndqsz s" "s_sndqsz s < INT_MAX"
    and lock: "canlock \<longrightarrow> Sock_sync a \<notin> w_held w"
  shows "send_account canlock a w = Inr (sock_put a (sent_base s) w)"
proof -
  have put: "(if s_sndhwm s > 0 \<and> s_writing s \<noteq> FSOCK_SOCK_STOP_OP \<and> s_sndqsz s + 1 \<ge> s_sndhwm s
      then s\<lparr>s_sndqsz := s_sndqsz s + 1, s_writing := FSOCK_SOCK_STOP_OP\<rparr> else s\<lparr>s_sndqsz := s_sndqsz s + 1\<rparr>) = sent_base s"
    by (simp add: sent_base_def)
  show ?thesis
  proof (cases canlock)
    case True
    let ?wl = "w\<lparr>w_held := insert (Sock_sync a) (w_held w)\<rparr>"
    have l: "fsock_mutex_lock (Sock_sync a) w = Inr ?wl" using a lock True by (simp add: fsock_mutex_lock_def lock_exists_def)
    have u: "fsock_mutex_unlock (Sock_sync a) (sock_put a s' ?wl) = Inr (sock_put a s' w)" for s'
      using lock True by (subst mutex_unlock_ok [of _ _ "w_held w"]) (simp_all add: lock_exists_def sock_put_def)
    show ?thesis
      using a sz put True by (simp add: send_account_def lock_if_def unlock_if_def l u sock_at_def Let_def cong: if_cong)
  next
    case False
    then show ?thesis using a sz put by (simp add: send_account_def lock_if_def unlock_if_def sock_at_def Let_def cong: if_cong)
  qed
qed

lemma send_ok:
  assumes s: "parr_ptr (g_socks w) s = Inr a" and a: "w_heap w a = Some so" "s_type so = FSOCK_SOCK_BASE" "a \<noteq> conn"
    and c: "parr_ptr (s_conns so) c = Inr conn" and ok: "queues_ok w Q" and ready: "send_ready w conn cs t"
    and alive: "s_flags cs AND FSOCK_SOCK_ZOMBIE = 0" and room: "s_writing so \<noteq> FSOCK_SOCK_STOP_OP"
    and mem: "o_malloc (w_env w) (w_allocs w)" and sz: "- INT_MAX - 1 \<le> s_sndqsz so" "s_sndqsz so < INT_MAX"
    and lock: "flags AND FSOCK_SND_UNSAFE = 0 \<longrightarrow> Sock_sync a \<notin> w_held w"
  shows "\<exists>w'. fsock_send F others ret0 s c (Some fr) flags w = Inr (ret0, w') \<and>
    w_heap w' = (w_heap w)(conn := Some (sent_conn F w (w_allocs w) cs), a := Some (sent_base so)) \<and>
    queues_ok w' (if s_writing cs = 0 then Q(Jobs t := Q (Jobs t) @ [Sock_task conn START_WRITE]) else Q) \<and>
    w_oframe w' (w_allocs w) = fr \<and> w_held w' = w_held w \<and>
    w_log w' = w_log w @ (if s_writing cs = 0 then [Async_send t] else [])"
proof -
  let ?li = "w_allocs w"
  let ?w2 = "w\<lparr>w_allocs := Suc ?li, w_oframe := (w_oframe w)(?li := fr)\<rparr>"
  have ok2: "queues_ok ?w2 Q" using ok by (rule queues_ok_frame) simp_all
  have ready2: "send_ready ?w2 conn cs t" using ready by (simp add: send_ready_def item_isinqueue_def)
  obtain w3 where w3: "send_enqueue F conn ?li ?w2 = Inr w3"
      "queues_ok w3 (if s_writing cs = 0 then Q(Jobs t := Q (Jobs t) @ [Sock_task conn START_WRITE]) else Q)"
      "w_heap w3 = (w_heap w)(conn := Some (sent_conn F w ?li cs))" "w_held w3 = w_held w"
      "w_log w3 = w_log w @ (if s_writing cs = 0 then [Async_send t] else [])" "w_oframe w3 ?li = fr"
    using send_enqueue_ok [OF ok2 ready2, of F ?li] by (auto simp: sent_conn_def)
  have a3: "w_heap w3 a = Some so" using w3(3) a by simp
  have acc: "send_account (flags AND FSOCK_SND_UNSAFE = 0) a w3 = Inr (sock_put a (sent_base so) w3)"
    using a3 sz lock w3(4) by (intro send_account_ok) auto
  have conn: "w_heap w conn = Some cs" using ready by (simp add: send_ready_def)
  have "fsock_send F others ret0 s c (Some fr) flags w = Inr (ret0, sock_put a (sent_base so) w3)"
    using s a c alive room mem conn w3(1) acc
    by (simp add: fsock_send_def sock_at_def send_wait_def c_malloc_ok)
  moreover have "queues_ok (sock_put a (sent_base so) w3) (if s_writing cs = 0 then Q(Jobs t := Q (Jobs t) @ [Sock_task conn START_WRITE]) else Q)"
    using w3(2) a3 by (rule queues_ok_sock_put) (simp add: sent_base_def)
  ultimately show ?thesis
    using w3 by (intro exI [of _ "sock_put a (sent_base so) w3"]) (simp add: sock_put_def)
qed

text \<open>
  C30: a frame sent on a live connection of a socket with room is put on the connection's list;
  the connection's thread gets the task that starts writing exactly when the connection was
  not writing yet, and is woken then; the socket counts the frame and stops sending exactly
  when the count reaches its high water mark; every mutex is given back.
\<close>

theorem send_queues_frame:
  assumes s: "parr_ptr (g_socks w) s = Inr a" and a: "w_heap w a = Some so" "s_type so = FSOCK_SOCK_BASE" "a \<noteq> conn"
    and c: "parr_ptr (s_conns so) c = Inr conn" and ok: "queues_ok w Q" and ready: "send_ready w conn cs t"
    and alive: "s_flags cs AND FSOCK_SOCK_ZOMBIE = 0" and room: "s_writing so \<noteq> FSOCK_SOCK_STOP_OP"
    and mem: "o_malloc (w_env w) (w_allocs w)" and sz: "- INT_MAX - 1 \<le> s_sndqsz so" "s_sndqsz so < INT_MAX"
    and lock: "flags AND FSOCK_SND_UNSAFE = 0 \<longrightarrow> Sock_sync a \<notin> w_held w"
  shows "\<exists>w'. fsock_send F others ret0 s c (Some fr) flags w = Inr (ret0, w') \<and>
    w_heap w' = (w_heap w)(conn := Some (sent_conn F w (w_allocs w) cs), a := Some (sent_base so)) \<and>
    queues_ok w' (if s_writing cs = 0 then Q(Jobs t := Q (Jobs t) @ [Sock_task conn START_WRITE]) else Q) \<and>
    w_oframe w' (w_allocs w) = fr \<and> w_held w' = w_held w \<and>
    w_log w' = w_log w @ (if s_writing cs = 0 then [Async_send t] else [])"
  by (rule send_ok [OF assms])

lemma example_send:
  "parr_ptr (g_socks example_world) 0 = Inr 0" "parr_ptr (s_conns example_base) 0 = Inr 1"
  "send_ready example_world 1 example_conn 0" "s_type example_base = FSOCK_SOCK_BASE" "s_flags example_conn = 0"
  "s_writing example_base = 0" "s_writing example_conn = 0" "s_sndqsz example_base = 0" "s_sndhwm example_base = 1000"
  by (simp_all add: parr_ptr_def parr_read_def example_parr_def example_base_def example_sock_def example_conn_def
      send_ready_def item_isinqueue_def fsock_queue_item_isinqueue_def)

theorem send_queues_frame_witness:
  "\<exists>w' so. fsock_send example_framer id 0 0 0 (Some 77) 0 example_world = Inr (0, w') \<and>
     w_heap w' 0 = Some so \<and> s_sndqsz so = 1 \<and> w_oframe w' 2 = 77 \<and>
     queues_ok w' ((\<lambda>_. [])(Jobs 0 := [Sock_task 1 START_WRITE])) \<and> w_log w' = [Async_send 0]"
  using send_queues_frame [OF example_send(1) _ _ _ example_send(2) example_queues example_send(3), of 0 example_framer id 0 77]
  by (force simp: example_send INT_MAX_def sent_base_def)

text \<open>
  a connection that was lost refuses frames with \<open>EINVAL\<close>; a socket that has stopped
  sending refuses them with \<open>EAGAIN\<close> as the return value when the caller does not want to
  wait. Nothing else changes.
\<close>

theorem send_refused:
  assumes s: "parr_ptr (g_socks w) s = Inr a" and a: "w_heap w a = Some so" "s_type so = FSOCK_SOCK_BASE"
    and c: "parr_ptr (s_conns so) c = Inr conn" "w_heap w conn = Some cs"
    and no: "s_flags cs AND FSOCK_SOCK_ZOMBIE \<noteq> 0 \<or> s_writing so = FSOCK_SOCK_STOP_OP \<and> flags AND FSOCK_DONWAIT \<noteq> 0"
  shows "fsock_send F others ret0 s c (Some fr) flags w =
    (if s_flags cs AND FSOCK_SOCK_ZOMBIE \<noteq> 0 then Inr (-1, set_errno EINVAL w) else Inr (c_EAGAIN, w))"
  using assms by (auto simp: fsock_send_def sock_at_def)

theorem send_refused_witness:
  "fsock_send example_framer id 0 0 0 (Some 77) FSOCK_DONWAIT
     (sock_put 0 (example_base\<lparr>s_writing := -1\<rparr>) example_world) =
   Inr (c_EAGAIN, sock_put 0 (example_base\<lparr>s_writing := -1\<rparr>) example_world)"
proof -
  let ?w = "sock_put 0 (example_base\<lparr>s_writing := -1\<rparr>) example_world"
  have f: "parr_ptr (g_socks ?w) 0 = Inr 0" "w_heap ?w 0 = Some (example_base\<lparr>s_writing := -1\<rparr>)"
    "w_heap ?w 1 = Some example_conn" "parr_ptr (s_conns (example_base\<lparr>s_writing := -1\<rparr>)) 0 = Inr 1"
    using example_send(1,2) by (simp_all add: sock_put_def)
  show ?thesis
    using send_refused [OF f(1,2) _ f(4,3), of FSOCK_DONWAIT] example_send(4,5) by (simp add: FSOCK_DONWAIT_def)
qed

end
