(* ===== verification/Writing.thy ===== *)
theory Writing
  imports Sock Example
begin

unbundle bit_operations_syntax

text \<open>
  What the write handler of \<open>core/sock.c\<close> sends: it writes a connection's out list until the
  list is empty or the kernel would block, credits the owner with the frames that went out,
  and wakes the senders that wait for room.
\<close>

subsection \<open>What the handler relies on\<close>

text \<open>
  The framer's out list, by two measures: the frames and the bytes it still holds. The pieces
  \<open>get_iovs\<close> hands out are not empty as long as bytes are left; taking written bytes off takes
  them off the bytes and the completed frames off the frames.
\<close>

definition total_bytes :: "byte list list \<Rightarrow> nat" where
  "total_bytes iovs = sum_list (map length iovs)"

definition out_list_laws ::
  "'x framer \<Rightarrow> (outlinks \<Rightarrow> 'x outlist \<Rightarrow> nat) \<Rightarrow> (outlinks \<Rightarrow> 'x outlist \<Rightarrow> nat) \<Rightarrow> bool" where
  "out_list_laws F frames bytes \<longleftrightarrow>
     (\<forall>l ol. (frm_ol_empty F ol \<longleftrightarrow> bytes l ol = 0) \<and> (bytes l ol = 0 \<longleftrightarrow> frames l ol = 0)) \<and>
     frm_ol_empty F \<lparr>ol_first = None, ol_last = None, ol_rest = frm_ol_init F\<rparr> \<and>
     (\<forall>l ol. total_bytes (frm_ol_iovs F l ol 128) \<le> bytes l ol) \<and>
     (\<forall>l ol. 0 < bytes l ol \<longrightarrow> 0 < total_bytes (frm_ol_iovs F l ol 128)) \<and>
     (\<forall>l ol nw k l' ol'. 0 < nw \<and> nw \<le> int (bytes l ol) \<and> frm_ol_written F l ol nw = (k, l', ol') \<longrightarrow>
        0 \<le> k \<and> int (frames l ol) = k + int (frames l' ol') \<and> int (bytes l' ol') = int (bytes l ol) - nw)"

text \<open>The kernel takes some of what it is offered, and no other thread interferes.\<close>

definition writev_accepts :: "'x writev \<Rightarrow> bool" where
  "writev_accepts wv \<longleftrightarrow>
     (\<forall>n iovs w. 0 < total_bytes iovs \<longrightarrow>
        (\<exists>nw. wv n iovs w = (Inr nw, w) \<and> 0 < nw \<and> nw \<le> int (total_bytes iovs)))"

lemma write_inner_drained: "frm_ol_empty F ol \<Longrightarrow> write_inner F wv conn n ol removed w = Some (Inr (W_drained, n, removed, w))"
  by (simp add: write_inner.simps)

lemma write_inner_ok:
  assumes laws: "out_list_laws F frames bytes" and acc: "writev_accepts wv"
  shows "0 \<le> removed \<Longrightarrow> removed + int (frames (w_out w) ol) \<le> INT_MAX \<Longrightarrow>
    \<exists>n' l'. write_inner F wv conn n ol removed w =
      Some (Inr (W_drained, n', removed + int (frames (w_out w) ol), w\<lparr>w_out := l'\<rparr>))"
proof (induction "bytes (w_out w) ol" arbitrary: n ol removed w rule: less_induct)
  case less
  show ?case
  proof (cases "frm_ol_empty F ol")
    case True
    then have "frames (w_out w) ol = 0" using laws unfolding out_list_laws_def by blast
    then show ?thesis using write_inner_drained [OF True] by (intro exI [of _ n] exI [of _ "w_out w"]) simp
  next
    case False
    then have pos: "0 < bytes (w_out w) ol" using laws unfolding out_list_laws_def by blast
    let ?iovs = "frm_ol_iovs F (w_out w) ol 128"
    have tot: "total_bytes ?iovs \<le> bytes (w_out w) ol" "0 < total_bytes ?iovs"
      using laws pos unfolding out_list_laws_def by blast+
    obtain nw where nw: "wv n ?iovs w = (Inr nw, w)" "0 < nw" "nw \<le> int (total_bytes ?iovs)"
      using acc tot(2) unfolding writev_accepts_def by blast
    have le: "nw \<le> int (bytes (w_out w) ol)" using nw(3) tot(1) by simp
    obtain k l1 ol1 where wr: "frm_ol_written F (w_out w) ol nw = (k, l1, ol1)" by (cases "frm_ol_written F (w_out w) ol nw")
    have k: "0 \<le> k" "int (frames (w_out w) ol) = k + int (frames l1 ol1)" "int (bytes l1 ol1) = int (bytes (w_out w) ol) - nw"
      using laws nw(2) le wr unfolding out_list_laws_def by blast+
    have ci: "c_int (removed + k) = Inr (removed + k)" using less.prems k by (simp add: INT_MAX_def)
    have step: "write_inner F wv conn n ol removed w = write_inner F wv conn (Suc n) ol1 (removed + k) (w\<lparr>w_out := l1\<rparr>)"
      using False nw wr ci by (subst write_inner.simps) simp
    have lt: "bytes (w_out (w\<lparr>w_out := l1\<rparr>)) ol1 < bytes (w_out w) ol" using k(3) nw(2) by simp
    have rk: "0 \<le> removed + k" "removed + k + int (frames (w_out (w\<lparr>w_out := l1\<rparr>)) ol1) \<le> INT_MAX"
      using less.prems k by simp_all
    obtain n' l' where "write_inner F wv conn (Suc n) ol1 (removed + k) (w\<lparr>w_out := l1\<rparr>) =
        Some (Inr (W_drained, n', removed + k + int (frames l1 ol1), w\<lparr>w_out := l'\<rparr>))"
      using less.hyps [OF lt rk, of "Suc n"] by auto
    then show ?thesis using step k(2) by (intro exI [of _ n'] exI [of _ l']) (simp add: add.assoc)
  qed
qed

lemma write_take_ok:
  assumes c: "w_heap w conn = Some s" and unheld: "Sock_sync conn \<notin> w_held w"
  shows "write_take F conn w = Inr (if frm_ol_empty F (s_ol s) then (None, w)
    else (Some (s_ol s), sock_put conn (s\<lparr>s_ol := \<lparr>ol_first = None, ol_last = None, ol_rest = frm_ol_init F\<rparr>\<rparr>) w))"
proof -
  let ?wl = "w\<lparr>w_held := insert (Sock_sync conn) (w_held w)\<rparr>"
  let ?s1 = "s\<lparr>s_ol := \<lparr>ol_first = None, ol_last = None, ol_rest = frm_ol_init F\<rparr>\<rparr>"
  have l: "fsock_mutex_lock (Sock_sync conn) w = Inr ?wl" "sock_at ?wl conn = Inr s"
    using assms by (simp_all add: fsock_mutex_lock_def lock_exists_def sock_at_def)
  have u: "fsock_mutex_unlock (Sock_sync conn) ?wl = Inr w" "fsock_mutex_unlock (Sock_sync conn) (sock_put conn ?s1 ?wl) = Inr (sock_put conn ?s1 w)"
    using assms by (subst mutex_unlock_ok [of _ _ "w_held w"]; simp add: lock_exists_def sock_put_def)+
  show ?thesis by (simp add: write_take_def l u Let_def)
qed

text \<open>The owner after \<open>removed\<close> frames went out.\<close>

definition credited :: "int \<Rightarrow> 'x sock \<Rightarrow> 'x sock" where
  "credited removed s =
     (let room = (s_sndhwm s > 0 \<and> s_writing s = FSOCK_SOCK_STOP_OP \<and> s_sndqsz s - removed < s_sndhwm s)
      in s\<lparr>s_sndqsz := s_sndqsz s - removed, s_writing := (if room then 0 else s_writing s),
           s_want_wcond := (if room then 0 else s_want_wcond s)\<rparr>)"

definition credit_log :: "nat \<Rightarrow> int \<Rightarrow> 'x sock \<Rightarrow> effect list" where
  "credit_log a removed s =
     (if s_sndhwm s > 0 \<and> s_writing s = FSOCK_SOCK_STOP_OP \<and> s_sndqsz s - removed < s_sndhwm s \<and> s_want_wcond s \<noteq> 0
      then [Cond_broadcast a] else [])"

lemma write_account_ok:
  assumes a: "w_heap w a = Some s" and unheld: "Sock_sync a \<notin> w_held w"
    and sz: "- INT_MAX - 1 \<le> s_sndqsz s - removed" "s_sndqsz s - removed \<le> INT_MAX"
  shows "write_account a removed w = Inr (sock_put a (credited removed s) (w\<lparr>w_log := w_log w @ credit_log a removed s\<rparr>))"
proof -
  let ?wl = "w\<lparr>w_held := insert (Sock_sync a) (w_held w)\<rparr>"
  have l: "fsock_mutex_lock (Sock_sync a) w = Inr ?wl" "sock_at ?wl a = Inr s"
    using assms by (simp_all add: fsock_mutex_lock_def lock_exists_def sock_at_def)
  have u: "fsock_mutex_unlock (Sock_sync a) (sock_put a s' ?wl) = Inr (sock_put a s' w)" for s'
    using unheld by (subst mutex_unlock_ok [of _ _ "w_held w"]) (simp_all add: lock_exists_def sock_put_def)
  have ci: "c_int (s_sndqsz s - removed) = Inr (s_sndqsz s - removed)" using sz by simp
  show ?thesis
    unfolding write_account_def l rbind_Inr ci Let_def u credited_def credit_log_def
    by (cases s) (auto simp: log_eff_def sock_put_def)
qed

lemma write_stop_ok:
  assumes c: "w_heap w conn = Some s" and unheld: "Sock_sync conn \<notin> w_held w"
  shows "write_stop conn w = Inr (sock_put conn (s\<lparr>s_writing := 0\<rparr>) (log_eff (Io_stop conn Wio) w))"
proof -
  let ?wl = "log_eff (Io_stop conn Wio) (w\<lparr>w_held := insert (Sock_sync conn) (w_held w)\<rparr>)"
  have "fsock_mutex_lock (Sock_sync conn) (log_eff (Io_stop conn Wio) w) = Inr ?wl"
    using assms by (simp add: fsock_mutex_lock_def lock_exists_def log_eff_def)
  moreover have "fsock_mutex_unlock (Sock_sync conn) (sock_put conn (s\<lparr>s_writing := 0\<rparr>) ?wl) =
      Inr (sock_put conn (s\<lparr>s_writing := 0\<rparr>) (log_eff (Io_stop conn Wio) w))"
    using unheld by (subst mutex_unlock_ok [of _ _ "w_held w"]) (simp_all add: lock_exists_def sock_put_def log_eff_def)
  ultimately show ?thesis using c by (simp add: write_stop_def sock_upd_def sock_at_def log_eff_def)
qed

definition write_ready :: "'x world \<Rightarrow> nat \<Rightarrow> 'x sock \<Rightarrow> nat \<Rightarrow> 'x sock \<Rightarrow> bool" where
  "write_ready w conn cs a os \<longleftrightarrow>
     w_heap w conn = Some cs \<and> w_heap w a = Some os \<and> conn \<noteq> a \<and> s_owner cs = Some a \<and>
     io_fd_of (s_wio cs) = Inr (s_fd cs) \<and> s_flags cs AND FSOCK_SOCK_ZOMBIE = 0 \<and>
     Sock_sync conn \<notin> w_held w \<and> Sock_sync a \<notin> w_held w"

text \<open>
  C31: as long as the kernel takes something at every call, the handler returns with the
  connection's list written out completely; it takes exactly the number of frames off the
  owner's count, reopens the owner for sending if that brings it below its high water mark,
  waking the waiting senders then and only then, and stops its watcher.
\<close>

theorem write_handler_sends_all:
  assumes laws: "out_list_laws F frames bytes" and acc: "writev_accepts wv"
    and ready: "write_ready w conn cs a os" and some: "\<not> frm_ol_empty F (s_ol cs)"
    and k: "k = int (frames (w_out w) (s_ol cs))" "k \<le> INT_MAX"
    and sz: "- INT_MAX - 1 \<le> s_sndqsz os - k" "s_sndqsz os - k \<le> INT_MAX"
  shows "\<exists>w' cs'. fsock_sock_write_handler F wv conn w = Inr w' \<and>
    w_heap w' conn = Some cs' \<and> frm_ol_empty F (s_ol cs') \<and> s_writing cs' = 0 \<and>
    w_heap w' a = Some (credited k os) \<and> w_held w' = w_held w \<and> w_next w' = w_next w \<and>
    w_log w' = w_log w @ credit_log a k os @ [Io_stop conn Wio]"
proof -
  note r = ready [unfolded write_ready_def]
  define cs1 where "cs1 = cs\<lparr>s_ol := \<lparr>ol_first = None, ol_last = None, ol_rest = frm_ol_init F\<rparr>\<rparr>"
  have empty: "frm_ol_empty F (s_ol cs1)" using laws by (simp add: out_list_laws_def cs1_def)
  let ?w1 = "sock_put conn cs1 w"
  have take1: "write_take F conn w = Inr (Some (s_ol cs), ?w1)"
    using write_take_ok [of w conn cs F] r some by (simp add: cs1_def)
  have out1: "w_out ?w1 = w_out w" by (simp add: sock_put_def)
  obtain n' l' where inner: "write_inner F wv conn 0 (s_ol cs) 0 ?w1 = Some (Inr (W_drained, n', k, ?w1\<lparr>w_out := l'\<rparr>))"
    using write_inner_ok [OF laws acc, of 0 ?w1 "s_ol cs" conn 0] k out1 by auto
  let ?w2 = "?w1\<lparr>w_out := l'\<rparr>"
  have h2: "w_heap ?w2 conn = Some cs1" "w_heap ?w2 a = Some os" "w_held ?w2 = w_held w" "w_log ?w2 = w_log w"
    using r by (simp_all add: sock_put_def)
  have take2: "write_take F conn ?w2 = Inr (None, ?w2)"
    using write_take_ok [of ?w2 conn cs1 F] h2 r empty by simp
  have pos: "0 < k" using laws some k(1) unfolding out_list_laws_def by (metis gr0I of_nat_0_less_iff)
  have outer2: "write_outer F wv conn n' k ?w2 = Some (Inr (W_drained, k, ?w2))"
    using take2 pos by (subst write_outer.simps) simp
  have outer: "write_outer F wv conn 0 0 w = Some (Inr (W_drained, k, ?w2))"
    using take1 inner outer2 by (subst write_outer.simps) simp
  let ?w3 = "sock_put a (credited k os) (?w2\<lparr>w_log := w_log ?w2 @ credit_log a k os\<rparr>)"
  have acct: "write_account a k ?w2 = Inr ?w3"
    using h2 r sz by (intro write_account_ok) simp_all
  have h3: "w_heap ?w3 conn = Some cs1" "w_held ?w3 = w_held w" using r by (simp_all add: sock_put_def)
  let ?w4 = "sock_put conn (cs1\<lparr>s_writing := 0\<rparr>) (log_eff (Io_stop conn Wio) ?w3)"
  have stop: "write_stop conn ?w3 = Inr ?w4" using h3 r by (intro write_stop_ok) simp_all
  have "fsock_sock_write_handler F wv conn w = Inr ?w4"
    using r outer acct stop by (simp add: fsock_sock_write_handler_def sock_at_def ptr_deref_def)
  moreover have "w_heap ?w4 conn = Some (cs1\<lparr>s_writing := 0\<rparr>)" "w_heap ?w4 a = Some (credited k os)"
    "w_held ?w4 = w_held w" "w_next ?w4 = w_next w" "w_log ?w4 = w_log w @ credit_log a k os @ [Io_stop conn Wio]"
    using r by (simp_all add: sock_put_def log_eff_def)
  ultimately show ?thesis using empty by (intro exI [of _ ?w4] exI [of _ "cs1\<lparr>s_writing := 0\<rparr>"]) simp
qed


definition example_writing_conn :: "unit sock" where
  "example_writing_conn = example_conn\<lparr>s_writing := 1, s_ol := \<lparr>ol_first = Some 9, ol_last = Some 9, ol_rest = ()\<rparr>\<rparr>"

definition example_writer :: "unit world" where
  "example_writer = example_world
     \<lparr>w_heap := [0 \<mapsto> example_base\<lparr>s_sndqsz := 1000, s_writing := -1, s_want_wcond := 1\<rparr>,
                 1 \<mapsto> example_writing_conn]\<rparr>"

definition example_pending :: "outlinks \<Rightarrow> unit outlist \<Rightarrow> nat" where
  "example_pending l ol = (if ol_first ol = None then 0 else 1)"

lemma example_out_list: "out_list_laws example_framer example_pending example_pending"
  by (auto simp: out_list_laws_def example_framer_def example_pending_def total_bytes_def)

lemma example_writer_ready:
  "write_ready example_writer 1 example_writing_conn
     0 (example_base\<lparr>s_sndqsz := 1000, s_writing := -1, s_want_wcond := 1\<rparr>)"
  "w_held example_writer = {}" "w_log example_writer = []" "s_sndhwm example_base = 1000"
  "frm_ol_empty example_framer ol = (ol_first ol = None)"
  "s_ol example_writing_conn = \<lparr>ol_first = Some 9, ol_last = Some 9, ol_rest = ()\<rparr>"
  by (simp_all add: write_ready_def example_writer_def example_writing_conn_def example_conn_def example_sock_def io_fd_of_def example_base_def
      example_framer_def)

theorem write_handler_sends_all_witness:
  "\<exists>w' os. fsock_sock_write_handler example_framer (\<lambda>n iovs w. (Inr (int (total_bytes iovs)), w)) 1 example_writer = Inr w' \<and>
     w_heap w' 0 = Some os \<and> s_sndqsz os = 999 \<and> s_writing os = 0 \<and> w_log w' = [Cond_broadcast 0, Io_stop 1 Wio]"
proof -
  have acc: "writev_accepts (\<lambda>n iovs w. (Inr (int (total_bytes iovs)), w))" by (simp add: writev_accepts_def)
  show ?thesis
    using write_handler_sends_all [OF example_out_list acc example_writer_ready(1) _ refl]
    by (force simp: example_writer_ready example_pending_def credited_def credit_log_def INT_MAX_def)
qed

subsection \<open>When the kernel would block\<close>

lemma write_merge_ok:
  assumes c: "w_heap w conn = Some s" and unheld: "Sock_sync conn \<notin> w_held w" and e: "frm_ol_empty F (s_ol s)"
  shows "write_merge F conn ol w = Inr (sock_put conn (s\<lparr>s_ol := ol\<rparr>) w)"
proof -
  let ?wl = "w\<lparr>w_held := insert (Sock_sync conn) (w_held w)\<rparr>"
  have l: "fsock_mutex_lock (Sock_sync conn) w = Inr ?wl" "sock_at ?wl conn = Inr s"
    using assms by (simp_all add: fsock_mutex_lock_def lock_exists_def sock_at_def)
  have u: "fsock_mutex_unlock (Sock_sync conn) (sock_put conn s' ?wl) = Inr (sock_put conn s' w)" for s'
    using unheld by (subst mutex_unlock_ok [of _ _ "w_held w"]) (simp_all add: lock_exists_def sock_put_def)
  show ?thesis by (simp add: write_merge_def l e sock_upd_def u)
qed

lemma write_merge_join:
  assumes c: "w_heap w conn = Some s" and unheld: "Sock_sync conn \<notin> w_held w" and e: "\<not> frm_ol_empty F (s_ol s)"
    and l: "ol_last ol = Some l" and f: "ol_first (s_ol s) = Some f"
  shows "write_merge F conn ol w =
    Inr (sock_put conn (s\<lparr>s_ol := ol\<rparr>)
      (w\<lparr>w_out := \<lparr>on_next = (on_next (w_out w))(l := Some f), on_prev = (on_prev (w_out w))(f := Some l)\<rparr>\<rparr>))"
proof -
  let ?wl = "w\<lparr>w_held := insert (Sock_sync conn) (w_held w)\<rparr>"
  let ?out = "\<lparr>on_next = (on_next (w_out w))(l := Some f), on_prev = (on_prev (w_out w))(f := Some l)\<rparr>"
  have lk: "fsock_mutex_lock (Sock_sync conn) w = Inr ?wl" "sock_at ?wl conn = Inr s"
    using assms by (simp_all add: fsock_mutex_lock_def lock_exists_def sock_at_def)
  have out: "(w_out w)\<lparr>on_next := (on_next (w_out w))(l := Some f), on_prev := (on_prev (w_out w))(f := Some l)\<rparr> = ?out"
    by (cases "w_out w") simp
  have u: "fsock_mutex_unlock (Sock_sync conn) (sock_put conn s' (?wl\<lparr>w_out := ?out\<rparr>)) = Inr (sock_put conn s' (w\<lparr>w_out := ?out\<rparr>))" for s'
    using unheld by (subst mutex_unlock_ok [of _ _ "w_held w"]) (simp_all add: lock_exists_def sock_put_def)
  have at: "sock_at (?wl\<lparr>w_out := ?out\<rparr>) conn = Inr s" using c by (simp add: sock_at_def)
  show ?thesis
    using u at by (simp add: write_merge_def lk e l f ptr_deref_def Let_def out sock_upd_def)
qed

text \<open>
  when the kernel would block before anything was written, the handler puts the list
  back: nothing but \<open>errno\<close> has changed, and the watcher stays active.
\<close>

theorem write_handler_keeps_unsent:
  assumes ready: "write_ready w conn cs a os" and some: "\<not> frm_ol_empty F (s_ol cs)"
    and init: "frm_ol_empty F \<lparr>ol_first = None, ol_last = None, ol_rest = frm_ol_init F\<rparr>"
    and again: "e = EAGAIN \<or> e = EWOULDBLOCK" "\<And>iovs v. wv 0 iovs v = (Inl e, v)"
  shows "fsock_sock_write_handler F wv conn w = Inr (set_errno e w)"
proof -
  note r = ready [unfolded write_ready_def]
  let ?cs1 = "cs\<lparr>s_ol := \<lparr>ol_first = None, ol_last = None, ol_rest = frm_ol_init F\<rparr>\<rparr>"
  let ?w1 = "sock_put conn ?cs1 w"
  have take1: "write_take F conn w = Inr (Some (s_ol cs), ?w1)"
    using write_take_ok [of w conn cs F] r some by simp
  have "write_merge F conn (s_ol cs) (set_errno e ?w1) = Inr (sock_put conn (?cs1\<lparr>s_ol := s_ol cs\<rparr>) (set_errno e ?w1))"
    using r init by (intro write_merge_ok) (simp_all add: set_errno_def sock_put_def)
  moreover have "sock_put conn (?cs1\<lparr>s_ol := s_ol cs\<rparr>) (set_errno e ?w1) = set_errno e w"
    using r by (simp add: sock_put_def set_errno_def) (simp add: fun_upd_idem)
  ultimately have "write_inner F wv conn 0 (s_ol cs) 0 ?w1 = Some (Inr (W_return, Suc 0, 0, set_errno e w))"
    using some again by (subst write_inner.simps) simp
  then have "write_outer F wv conn 0 0 w = Some (Inr (W_return, 0, set_errno e w))"
    using take1 by (subst write_outer.simps) simp
  then show ?thesis using r by (simp add: fsock_sock_write_handler_def sock_at_def)
qed

theorem write_handler_keeps_unsent_witness:
  "fsock_sock_write_handler example_framer (\<lambda>n iovs w. (Inl EAGAIN, w)) 1 example_writer = Inr (set_errno EAGAIN example_writer)"
  by (rule write_handler_keeps_unsent [OF example_writer_ready(1)])
    (simp_all only: example_writer_ready, simp_all)

text \<open>
  C32: frames that other threads queued while the handler was in a \<open>writev\<close> that would block
  are linked behind the unsent ones, but the list header that is stored is the old one: its
  \<open>last\<close> is still the last unsent item and not the end of the joined list.
\<close>

theorem write_handler_merge_stale_last:
  assumes ready: "write_ready w conn cs a os" and some: "\<not> frm_ol_empty F (s_ol cs)"
    and again: "e = EAGAIN \<or> e = EWOULDBLOCK" "\<And>iovs v. wv 0 iovs v = (Inl e, sock_put conn (cs\<lparr>s_ol := new\<rparr>) v)"
    and new: "\<not> frm_ol_empty F new" "ol_first new = Some f" and last: "ol_last (s_ol cs) = Some l"
  shows "\<exists>w'. fsock_sock_write_handler F wv conn w = Inr w' \<and> w_heap w' conn = Some cs \<and>
    on_next (w_out w') l = Some f \<and> on_prev (w_out w') f = Some l"
proof -
  note r = ready [unfolded write_ready_def]
  let ?cs1 = "cs\<lparr>s_ol := \<lparr>ol_first = None, ol_last = None, ol_rest = frm_ol_init F\<rparr>\<rparr>"
  let ?w1 = "sock_put conn ?cs1 w"
  let ?w2 = "set_errno e (sock_put conn (cs\<lparr>s_ol := new\<rparr>) ?w1)"
  let ?w3 = "sock_put conn ((cs\<lparr>s_ol := new\<rparr>)\<lparr>s_ol := s_ol cs\<rparr>)
      (?w2\<lparr>w_out := \<lparr>on_next = (on_next (w_out ?w2))(l := Some f), on_prev = (on_prev (w_out ?w2))(f := Some l)\<rparr>\<rparr>)"
  have take1: "write_take F conn w = Inr (Some (s_ol cs), ?w1)"
    using write_take_ok [of w conn cs F] r some by simp
  have "write_merge F conn (s_ol cs) ?w2 = Inr ?w3"
    using r new last by (intro write_merge_join) (simp_all add: set_errno_def sock_put_def)
  then have "write_inner F wv conn 0 (s_ol cs) 0 ?w1 = Some (Inr (W_return, Suc 0, 0, ?w3))"
    using some again by (subst write_inner.simps) simp
  then have "write_outer F wv conn 0 0 w = Some (Inr (W_return, 0, ?w3))"
    using take1 by (subst write_outer.simps) simp
  then have "fsock_sock_write_handler F wv conn w = Inr ?w3"
    using r by (simp add: fsock_sock_write_handler_def sock_at_def)
  then show ?thesis by (intro exI [of _ ?w3]) (simp add: sock_put_def)
qed

theorem write_handler_merge_stale_last_witness:
  "\<exists>w'. fsock_sock_write_handler example_framer
      (\<lambda>n iovs w. (Inl EAGAIN, sock_put 1 (example_writing_conn\<lparr>s_ol := \<lparr>ol_first = Some 11, ol_last = Some 12, ol_rest = ()\<rparr>\<rparr>) w))
      1 example_writer = Inr w' \<and>
    w_heap w' 1 = Some example_writing_conn \<and> on_next (w_out w') 9 = Some 11 \<and> on_prev (w_out w') 11 = Some 9"
  by (rule write_handler_merge_stale_last [OF example_writer_ready(1)])
    (simp_all only: example_writer_ready, simp_all)

text \<open>A state from which the outer loop goes round for ever.\<close>

definition spinning :: "'x framer \<Rightarrow> 'x writev \<Rightarrow> nat \<Rightarrow> nat \<Rightarrow> int \<Rightarrow> 'x world \<Rightarrow> bool" where
  "spinning F wv conn n removed w \<longleftrightarrow>
     (\<exists>cs. w_heap w conn = Some cs \<and> \<not> frm_ol_empty F (s_ol cs)) \<and> Sock_sync conn \<notin> w_held w \<and> 0 < removed \<and>
     frm_ol_empty F \<lparr>ol_first = None, ol_last = None, ol_rest = frm_ol_init F\<rparr> \<and>
     (\<forall>m iovs v. n \<le> m \<longrightarrow> wv m iovs v = (Inl EAGAIN, v))"

lemma spinning_step:
  assumes sp: "spinning F wv conn n removed w"
  shows "\<exists>w1 w2 ol. write_take F conn w = Inr (Some ol, w1) \<and>
    write_inner F wv conn n ol removed w1 = Some (Inr (W_break, Suc n, removed, w2)) \<and>
    spinning F wv conn (Suc n) removed w2"
proof -
  obtain cs where cs: "w_heap w conn = Some cs" "\<not> frm_ol_empty F (s_ol cs)" "Sock_sync conn \<notin> w_held w" "0 < removed"
      "frm_ol_empty F \<lparr>ol_first = None, ol_last = None, ol_rest = frm_ol_init F\<rparr>"
      "\<forall>m iovs v. n \<le> m \<longrightarrow> wv m iovs v = (Inl EAGAIN, v)"
    using sp by (auto simp: spinning_def)
  let ?cs1 = "cs\<lparr>s_ol := \<lparr>ol_first = None, ol_last = None, ol_rest = frm_ol_init F\<rparr>\<rparr>"
  let ?w1 = "sock_put conn ?cs1 w"
  let ?w2 = "sock_put conn (?cs1\<lparr>s_ol := s_ol cs\<rparr>) (set_errno EAGAIN ?w1)"
  have take1: "write_take F conn w = Inr (Some (s_ol cs), ?w1)"
    using write_take_ok [of w conn cs F] cs by simp
  have "write_merge F conn (s_ol cs) (set_errno EAGAIN ?w1) = Inr ?w2"
    using cs by (intro write_merge_ok) (simp_all add: set_errno_def sock_put_def)
  then have "write_inner F wv conn n (s_ol cs) removed ?w1 = Some (Inr (W_break, Suc n, removed, ?w2))"
    using cs by (subst write_inner.simps) simp
  moreover have "spinning F wv conn (Suc n) removed ?w2"
    using cs by (simp add: spinning_def sock_put_def set_errno_def)
  ultimately show ?thesis using take1 by blast
qed

lemma spinning_never_returns:
  "write_outer F wv conn n removed w = Some r \<Longrightarrow> \<not> spinning F wv conn n removed w"
proof (induction F wv conn n removed w r rule: write_outer.raw_induct [rotated, consumes 1, case_names step])
  case (step g F wv conn n removed w r)
  show ?case
  proof
    assume sp: "spinning F wv conn n removed w"
    obtain w1 w2 ol where st: "write_take F conn w = Inr (Some ol, w1)"
        "write_inner F wv conn n ol removed w1 = Some (Inr (W_break, Suc n, removed, w2))" "spinning F wv conn (Suc n) removed w2"
      using spinning_step [OF sp] by blast
    have "g F wv conn (Suc n) removed w2 = Some r" using step(2) st(1,2) by simp
    then show False using step(1) st(3) by blast
  qed
qed

text \<open>
  C33: once a partial write has completed at least one frame, a kernel that would block does not end the handler: the
  \<open>break\<close> leaves the inner loop only, and the outer one takes the list it has just put back
  again. As long as the kernel would block the handler does not return.
\<close>

theorem write_handler_spins:
  assumes ready: "write_ready w conn cs a os" and some: "\<not> frm_ol_empty F (s_ol cs)"
    and init: "frm_ol_empty F \<lparr>ol_first = None, ol_last = None, ol_rest = frm_ol_init F\<rparr>"
    and first: "\<And>iovs v. wv 0 iovs v = (Inr nw, v)" "0 < nw"
    and part: "frm_ol_written F (w_out w) (s_ol cs) nw = (k, links, rest)" "0 < k" "k \<le> INT_MAX" "\<not> frm_ol_empty F rest"
    and again: "\<And>m iovs v. 0 < m \<Longrightarrow> wv m iovs v = (Inl EAGAIN, v)"
  shows "fsock_sock_write_handler F wv conn w = Inl Hang"
proof -
  note r = ready [unfolded write_ready_def]
  let ?cs1 = "cs\<lparr>s_ol := \<lparr>ol_first = None, ol_last = None, ol_rest = frm_ol_init F\<rparr>\<rparr>"
  let ?w1 = "sock_put conn ?cs1 w"
  let ?w2 = "?w1\<lparr>w_out := links\<rparr>"
  let ?w3 = "sock_put conn (?cs1\<lparr>s_ol := rest\<rparr>) (set_errno EAGAIN ?w2)"
  have take1: "write_take F conn w = Inr (Some (s_ol cs), ?w1)"
    using write_take_ok [of w conn cs F] r some by simp
  have "write_merge F conn rest (set_errno EAGAIN ?w2) = Inr ?w3"
    using r init by (intro write_merge_ok) (simp_all add: set_errno_def sock_put_def)
  then have "write_inner F wv conn (Suc 0) rest k ?w2 = Some (Inr (W_break, Suc (Suc 0), k, ?w3))"
    using part again by (subst write_inner.simps) simp
  moreover have "write_inner F wv conn 0 (s_ol cs) 0 ?w1 = write_inner F wv conn (Suc 0) rest k ?w2"
    using some first part by (subst write_inner.simps) (simp add: sock_put_def INT_MAX_def)
  ultimately have "write_outer F wv conn 0 0 w = write_outer F wv conn (Suc (Suc 0)) k ?w3"
    using take1 by (subst write_outer.simps) simp
  moreover have "spinning F wv conn (Suc (Suc 0)) k ?w3"
    using r part init again by (simp add: spinning_def sock_put_def set_errno_def)
  then have "write_outer F wv conn (Suc (Suc 0)) k ?w3 = None"
    using spinning_never_returns by (cases "write_outer F wv conn (Suc (Suc 0)) k ?w3") blast+
  ultimately show ?thesis using r by (simp add: fsock_sock_write_handler_def sock_at_def)
qed

text \<open>A framer whose list is not empty after the first write.\<close>

definition example_slow_framer :: "unit framer" where
  "example_slow_framer = example_framer
     \<lparr>frm_ol_written := \<lambda>l ol n. (1, l, \<lparr>ol_first = Some 10, ol_last = Some 10, ol_rest = ()\<rparr>)\<rparr>"

theorem write_handler_spins_witness:
  "fsock_sock_write_handler example_slow_framer (\<lambda>n iovs w. (if n = 0 then Inr 1 else Inl EAGAIN, w)) 1 example_writer = Inl Hang"
  by (rule write_handler_spins [OF example_writer_ready(1), where nw = 1 and k = 1])
    (simp_all only: example_writer_ready example_slow_framer_def, simp_all add: example_framer_def INT_MAX_def example_writer_ready, simp)

end
