(* ===== verification/Descriptors.thy ===== *)
theory Descriptors
  imports Anet
begin

text \<open>
  Properties of the socket helpers: which descriptors they leave open, how the error buffer
  is used, and the text they make of addresses.
\<close>

subsection \<open>Descriptor accounting\<close>

text \<open>
  What POSIX says about descriptors: \<open>ofd k\<close> is the set of open ones; \<open>socket\<close> returns a
  descriptor that was not open, \<open>close\<close> removes it, and the other calls open and close none.
\<close>

definition fd_ledger :: "'k posix \<Rightarrow> ('k \<Rightarrow> int set) \<Rightarrow> bool" where
  "fd_ledger P ofd \<longleftrightarrow>
     (\<forall>k f t p. case sys_socket P k f t p of
        (k', Ret n) \<Rightarrow> 0 \<le> n \<and> n \<notin> ofd k \<and> ofd k' = insert n (ofd k)
      | (k', Err e) \<Rightarrow> ofd k' = ofd k) \<and>
     (\<forall>k fd. ofd (fst (sys_close P k fd)) = ofd k - {fd}) \<and>
     (\<forall>k fd opt vs. ofd (fst (sys_setsockopt P k fd opt vs)) = ofd k) \<and>
     (\<forall>k fd. ofd (fst (sys_getfl P k fd)) = ofd k) \<and>
     (\<forall>k fd w. ofd (fst (sys_setfl P k fd w)) = ofd k) \<and>
     (\<forall>k fd sa. ofd (fst (sys_bind P k fd sa)) = ofd k) \<and>
     (\<forall>k fd n. ofd (fst (sys_listen P k fd n)) = ofd k) \<and>
     (\<forall>k fd sa. ofd (fst (sys_connect P k fd sa)) = ofd k) \<and>
     (\<forall>k path m. ofd (fst (sys_chmod P k path m)) = ofd k) \<and>
     (\<forall>k h sv hs. ofd (fst (sys_getaddrinfo P k h sv hs)) = ofd k)"

lemma fd_ledger_socket:
  "fd_ledger P ofd \<Longrightarrow> case sys_socket P k f t p of
        (k', Ret n) \<Rightarrow> 0 \<le> n \<and> n \<notin> ofd k \<and> ofd k' = insert n (ofd k)
      | (k', Err e) \<Rightarrow> ofd k' = ofd k"
  by (simp only: fd_ledger_def)

lemma fd_ledger_quiet:
  assumes "fd_ledger P ofd"
  shows "ofd (fst (sys_close P k fd)) = ofd k - {fd}"
    "ofd (fst (sys_setsockopt P k fd opt vs)) = ofd k"
    "ofd (fst (sys_getfl P k fd)) = ofd k"
    "ofd (fst (sys_setfl P k fd w)) = ofd k"
    "ofd (fst (sys_bind P k fd sa)) = ofd k"
    "ofd (fst (sys_listen P k fd n)) = ofd k"
    "ofd (fst (sys_connect P k fd sa)) = ofd k"
    "ofd (fst (sys_chmod P k path m)) = ofd k"
    "ofd (fst (sys_getaddrinfo P k h sv hs)) = ofd k"
  using assms by (simp_all only: fd_ledger_def fst_conv)

text \<open>\<open>keeps ofd st st'\<close>: no descriptor was opened or closed between the two states.\<close>

definition keeps :: "('k \<Rightarrow> int set) \<Rightarrow> 'k anet \<Rightarrow> 'k anet \<Rightarrow> bool" where
  "keeps ofd st st' \<longleftrightarrow> ofd (a_kern st') = ofd (a_kern st)"

text \<open>\<open>opened ofd st s st'\<close>: exactly the descriptor \<open>s\<close> was opened and is still open.\<close>

definition opened :: "('k \<Rightarrow> int set) \<Rightarrow> 'k anet \<Rightarrow> int \<Rightarrow> 'k anet \<Rightarrow> bool" where
  "opened ofd st s st' \<longleftrightarrow> 0 \<le> s \<and> s \<notin> ofd (a_kern st) \<and> ofd (a_kern st') = insert s (ofd (a_kern st))"

named_theorems fds \<open>how each step changes the set of open descriptors\<close>

lemma keeps_refl [simp, intro]: "keeps ofd st st"
  by (simp add: keeps_def)

lemma keeps_trans [trans]: "keeps ofd a b \<Longrightarrow> keeps ofd b c \<Longrightarrow> keeps ofd a c"
  by (simp add: keeps_def)

lemma opened_keeps [trans]: "opened ofd a s b \<Longrightarrow> keeps ofd b c \<Longrightarrow> opened ofd a s c"
  by (simp add: keeps_def opened_def)

lemma keeps_opened [trans]: "keeps ofd a b \<Longrightarrow> opened ofd b s c \<Longrightarrow> opened ofd a s c"
  by (simp add: keeps_def opened_def)

lemma keeps_update [simp]:
  "keeps ofd a (b\<lparr>a_err := m\<rparr>) = keeps ofd a b" "keeps ofd a (b\<lparr>a_errno := e\<rparr>) = keeps ofd a b"
  "keeps ofd a (anetSetError t b) = keeps ofd a b" "keeps ofd a (anetSetErrno P t b) = keeps ofd a b"
  "opened ofd a s (anetSetError t b) = opened ofd a s b" "opened ofd a s (anetSetErrno P t b) = opened ofd a s b"
  by (simp_all add: keeps_def opened_def anetSetError_def anetSetErrno_def)

lemma kern_anetSetError [simp]: "a_kern (anetSetError t b) = a_kern b" "a_kern (anetSetErrno P t b) = a_kern b"
  by (simp_all add: anetSetError_def anetSetErrno_def)

lemma c_call_cases:
  assumes "c_call f st = (r, st')"
  obtains (ok) k n where "f (a_kern st) = (k, Ret n)" "r = n" "st' = st\<lparr>a_kern := k\<rparr>"
    | (err) k e where "f (a_kern st) = (k, Err e)" "r = -1" "st' = st\<lparr>a_kern := k, a_errno := e\<rparr>"
proof (cases "f (a_kern st)")
  case (Pair k v)
  then show thesis using assms that by (cases v) (simp_all add: c_call_def)
qed

lemma keeps_call:
  assumes "c_call f st = (r, st')" and "\<And>k. ofd (fst (f k)) = ofd k"
  shows "keeps ofd st st'"
  using assms(1) by (cases rule: c_call_cases) (use assms(2) [of "a_kern st"] in \<open>simp_all add: keeps_def\<close>)

lemma c_close_opened:
  assumes "fd_ledger P ofd" "opened ofd a s b"
  shows "keeps ofd a (c_close P s b)"
proof -
  obtain r c where "c_call (\<lambda>k. sys_close P k s) b = (r, c)" by fastforce
  then show ?thesis
    by (cases rule: c_call_cases)
      (use assms fd_ledger_quiet(1) [of P ofd "a_kern b" s] in \<open>auto simp: c_close_def c_call_def opened_def keeps_def\<close>)
qed

lemma socket_opened:
  assumes "fd_ledger P ofd" "c_call (\<lambda>k. sys_socket P k f t p) st = (s, st')"
  shows "(s = -1 \<and> keeps ofd st st') \<or> opened ofd st s st'"
  using assms(2) by (cases rule: c_call_cases)
    (use fd_ledger_socket [OF assms(1), of "a_kern st" f t p] in \<open>simp_all add: keeps_def opened_def\<close>)

lemma calls_keep:
  assumes "fd_ledger P ofd"
  shows "c_call (\<lambda>k. sys_setsockopt P k fd opt vs) st = (r, st') \<Longrightarrow> keeps ofd st st'"
    "c_call (\<lambda>k. sys_getfl P k fd) st = (r, st') \<Longrightarrow> keeps ofd st st'"
    "c_call (\<lambda>k. sys_setfl P k fd w) st = (r, st') \<Longrightarrow> keeps ofd st st'"
    "c_call (\<lambda>k. sys_bind P k fd sa) st = (r, st') \<Longrightarrow> keeps ofd st st'"
    "c_call (\<lambda>k. sys_listen P k fd n) st = (r, st') \<Longrightarrow> keeps ofd st st'"
    "c_call (\<lambda>k. sys_connect P k fd sa) st = (r, st') \<Longrightarrow> keeps ofd st st'"
    "c_call (\<lambda>k. sys_chmod P k path m) st = (r, st') \<Longrightarrow> keeps ofd st st'"
  by (erule keeps_call, rule fd_ledger_quiet [OF assms])+

lemma setopt_keeps:
  "fd_ledger P ofd \<Longrightarrow> anet_setopt P fd opt vs what st = (rc, st') \<Longrightarrow> keeps ofd st st'"
  by (auto simp: anet_setopt_def dest: calls_keep split: prod.splits if_splits)

lemma reuseaddr_keeps:
  "fd_ledger P ofd \<Longrightarrow> anetSetReuseAddr P fd st = (rc, st') \<Longrightarrow> keeps ofd st st'"
  by (auto simp: anetSetReuseAddr_def dest: setopt_keeps)

lemma setblock_keeps:
  assumes "fd_ledger P ofd" "anetSetBlock P fd b st = (rc, st')"
  shows "keeps ofd st st'"
  using assms(2) by (auto simp: anetSetBlock_def Let_def split: prod.splits if_splits
      dest!: calls_keep(2,3) [OF assms(1)] simp: keeps_def)

lemma bind_any_keeps:
  assumes "fd_ledger P ofd"
  shows "anet_bind_any P s bs st = (b, st') \<Longrightarrow> keeps ofd st st'"
proof (induction bs arbitrary: st)
  case (Cons a bs)
  then show ?case
    by (auto split: prod.splits if_splits dest!: calls_keep(4) [OF assms] simp: keeps_def)
qed simp

lemma getaddrinfo_keeps:
  "fd_ledger P ofd \<Longrightarrow> sys_getaddrinfo P (a_kern st) h sv hs = (k, r) \<Longrightarrow> keeps ofd st (st\<lparr>a_kern := k\<rparr>)"
  using fd_ledger_quiet(9) [of P ofd "a_kern st" h sv hs] by (simp add: keeps_def)

lemma bind_source_keeps:
  assumes L: "fd_ledger P ofd" and "anet_bind_source P s src hs st = (b, st')"
  shows "keeps ofd st st'"
proof (cases src)
  case (Some a)
  obtain k r where g: "sys_getaddrinfo P (a_kern st) a None hs = (k, r)" by fastforce
  note k = getaddrinfo_keeps [OF L g]
  show ?thesis
  proof (cases r)
    case (Inl rv)
    then show ?thesis using assms(2) Some g k by (auto simp: anet_bind_source_def)
  next
    case (Inr l)
    obtain c cs bnd st2 where l: "l = (c, cs)" "anet_bind_any P s (c # cs) (st\<lparr>a_kern := k\<rparr>) = (bnd, st2)" by fastforce
    from keeps_trans [OF k bind_any_keeps [OF L l(2)]] show ?thesis
      using assms(2) Some g Inr l by (simp add: anet_bind_source_def del: anet_bind_any.simps split: if_splits) auto
  qed
qed (use assms(2) in \<open>simp add: anet_bind_source_def\<close>)


lemma nonblock_keeps:
  assumes L: "fd_ledger P ofd" and "(if b then anetNonBlock P s st else (ANET_OK, st)) = (rc, st')"
  shows "keeps ofd st st'"
  using assms(2) by (auto simp: anetNonBlock_def dest: setblock_keeps [OF L] split: if_splits)

definition loop_ledger :: "('k \<Rightarrow> int set) \<Rightarrow> 'k anet \<Rightarrow> goto \<times> int \<times> 'k anet \<Rightarrow> bool" where
  "loop_ledger ofd st r \<longleftrightarrow>
     (case r of (g, s, st') \<Rightarrow> if g = Ran_out then s = ANET_ERR \<and> keeps ofd st st' else opened ofd st s st')"

lemma loop_ledger_keeps: "keeps ofd a b \<Longrightarrow> loop_ledger ofd b r \<Longrightarrow> loop_ledger ofd a r"
  by (auto simp: loop_ledger_def intro: keeps_trans keeps_opened split: prod.splits if_splits)

lemma connect_loop_ledger:
  assumes L: "fd_ledger P ofd"
  shows "loop_ledger ofd st (anet_connect_loop P src flags hs ps st)"
proof (induction ps arbitrary: st)
  case (Cons p ps)
  obtain s st1 where so: "c_call (\<lambda>k. sys_socket P k (ai_family p) (ai_socktype p) (ai_protocol p)) st = (s, st1)" by fastforce
  obtain r1 st2 where re: "anetSetReuseAddr P s st1 = (r1, st2)" by fastforce
  obtain r2 st3 where nb: "(if flags AND ANET_CONNECT_NONBLOCK \<noteq> 0 then anetNonBlock P s st2 else (ANET_OK, st2)) = (r2, st3)"
    by fastforce
  obtain bnd st4 where bi: "anet_bind_source P s src hs st3 = (bnd, st4)" by fastforce
  obtain r3 st5 where co: "c_call (\<lambda>k. sys_connect P k s (ai_addr p)) st4 = (r3, st5)" by fastforce
  note step = so re nb bi co
  show ?case
  proof (cases "s = -1")
    case True
    then have "keeps ofd st st1" using socket_opened [OF L so] by (auto simp: opened_def)
    with True show ?thesis using loop_ledger_keeps [OF _ Cons.IH] by (simp add: so)
  next
    case False
    then have o1: "opened ofd st s st1" using socket_opened [OF L so] by auto
    note o2 = opened_keeps [OF o1 reuseaddr_keeps [OF L re]]
    note o3 = opened_keeps [OF o2 nonblock_keeps [OF L nb]]
    note o4 = opened_keeps [OF o3 bind_source_keeps [OF L bi]]
    note o5 = opened_keeps [OF o4 calls_keep(6) [OF L co]]
    have c: "keeps ofd st (c_close P s st5)" by (rule c_close_opened [OF L o5])
    show ?thesis
      using False o2 o3 o4 o5 loop_ledger_keeps [OF c Cons.IH] by (simp add: step loop_ledger_def [of ofd st "(To_error, _)"]
        loop_ledger_def [of ofd st "(To_end, _)"])
  qed
qed (simp add: loop_ledger_def)

lemma connect_once_ledger:
  assumes L: "fd_ledger P ofd" and r: "anet_connect_once P addr port src flags st = (r, st')"
  shows "case r of Inl rc \<Rightarrow> rc = ANET_ERR \<and> keeps ofd st st' | Inr s \<Rightarrow> (s = ANET_ERR \<and> keeps ofd st st') \<or> opened ofd st s st'"
proof -
  obtain k v where g: "sys_getaddrinfo P (a_kern st) addr (Some (anet_portstr port))
      \<lparr>h_family = AF_UNSPEC, h_numeric = False, h_passive = False\<rparr> = (k, v)" by fastforce
  note k = getaddrinfo_keeps [OF L g]
  show ?thesis
  proof (cases v)
    case (Inl rv)
    then show ?thesis using g k r by (auto simp: anet_connect_once_def)
  next
    case (Inr l)
    obtain p ps where l: "l = (p, ps)" by fastforce
    obtain gt s st2 where lo: "anet_connect_loop P src flags \<lparr>h_family = AF_UNSPEC, h_numeric = False, h_passive = False\<rparr> (p # ps)
        (st\<lparr>a_kern := k\<rparr>) = (gt, s, st2)" by (rule prod_cases3)
    have led: "loop_ledger ofd st (gt, s, st2)"
      using loop_ledger_keeps [OF k connect_loop_ledger [OF L]] lo by metis
    have eq: "(r, st') = (let st3 = (if gt = Ran_out then anetSetErrno P ''creating socket: '' st2 else st2) in
          if gt = To_end then (Inr s, st3)
          else if s \<noteq> ANET_ERR then (Inr ANET_ERR, c_close P s st3)
          else (Inr s, st3))"
      using r g Inr l lo by (simp add: anet_connect_once_def del: anet_connect_loop.simps)
    show ?thesis
      using led eq c_close_opened [OF L, of st s st2]
      by (auto simp: loop_ledger_def Let_def split: if_splits)
  qed
qed


lemma create_socket_ledger:
  assumes L: "fd_ledger P ofd" and r: "anetCreateSocket P af st = (s, st')"
  shows "(s = ANET_ERR \<and> keeps ofd st st') \<or> opened ofd st s st'"
proof -
  obtain s0 st1 where so: "c_call (\<lambda>k. sys_socket P k af 1 0) st = (s0, st1)" by fastforce
  obtain rc st2 where re: "anetSetReuseAddr P s0 st1 = (rc, st2)" by fastforce
  show ?thesis
  proof (cases "s0 = -1")
    case True
    then show ?thesis using socket_opened [OF L so] so r by (auto simp: anetCreateSocket_def opened_def)
  next
    case False
    then have o2: "opened ofd st s0 st2"
      using socket_opened [OF L so] opened_keeps [OF _ reuseaddr_keeps [OF L re]] by auto
    show ?thesis
      using o2 c_close_opened [OF L o2] so re r False by (auto simp: anetCreateSocket_def split: if_splits)
  qed
qed

lemma listen_ledger:
  assumes L: "fd_ledger P ofd" and o1: "opened ofd st s st1" and r: "anetListen P s sa backlog st1 = (rc, st')"
  shows "(rc = ANET_ERR \<and> keeps ofd st st') \<or> (rc = ANET_OK \<and> opened ofd st s st')"
proof -
  obtain r1 st2 where bi: "c_call (\<lambda>k. sys_bind P k s sa) st1 = (r1, st2)" by fastforce
  obtain r2 st3 where li: "c_call (\<lambda>k. sys_listen P k s backlog) st2 = (r2, st3)" by fastforce
  note o2 = opened_keeps [OF o1 calls_keep(4) [OF L bi]]
  note o3 = opened_keeps [OF o2 calls_keep(5) [OF L li]]
  show ?thesis
    using r bi li o3 c_close_opened [OF L, of st s "anetSetErrno P ''bind: '' st2"] o2
      c_close_opened [OF L, of st s "anetSetErrno P ''listen: '' st3"]
    by (auto simp: anetListen_def split: if_splits)
qed

text \<open>
  C35: connecting over TCP leaves no descriptor behind. It returns -1 and the descriptors that
  were open before are open, or it returns a descriptor that was not open before and is now
  the only new one. This holds for every list of addresses, whichever calls fail, with a
  source address or without, and with the second attempt of best effort binding.
\<close>

theorem tcp_connect_keeps_no_descriptor:
  assumes "fd_ledger P ofd" "anetTcpGenericConnect P addr port src flags st = (s, st')"
  shows "(s = ANET_ERR \<and> ofd (a_kern st') = ofd (a_kern st)) \<or>
    (0 \<le> s \<and> s \<notin> ofd (a_kern st) \<and> ofd (a_kern st') = insert s (ofd (a_kern st)))"
proof -
  have "(s = ANET_ERR \<and> keeps ofd st st') \<or> opened ofd st s st'"
    using assms
  proof (induction P addr port src flags st rule: anetTcpGenericConnect.induct)
    case (1 P addr port src flags st)
    obtain r st1 where o: "anet_connect_once P addr port src flags st = (r, st1)" by fastforce
    note led = connect_once_ledger [OF "1.prems"(1) o]
    show ?case
    proof (cases "\<exists>t. r = Inr t \<and> t = ANET_ERR \<and> src \<noteq> None \<and> flags AND ANET_CONNECT_BE_BINDING \<noteq> 0")
      case True
      then obtain t where t: "r = Inr t" "t = ANET_ERR \<and> src \<noteq> None \<and> flags AND ANET_CONNECT_BE_BINDING \<noteq> 0" by blast
      have "anetTcpGenericConnect P addr port None flags st1 = (s, st')"
        using "1.prems"(2) o t by (subst (asm) anetTcpGenericConnect.simps) simp
      then have "(s = ANET_ERR \<and> keeps ofd st1 st') \<or> opened ofd st1 s st'"
        using "1.IH" [OF o [symmetric] t "1.prems"(1)] by blast
      moreover have "keeps ofd st st1" using led t by (auto simp: opened_def ANET_ERR_def)
      ultimately show ?thesis by (blast intro: keeps_trans keeps_opened)
    next
      case False
      then show ?thesis
        using "1.prems"(2) o led by (subst (asm) anetTcpGenericConnect.simps) (auto split: sum.splits if_splits)
    qed
  qed
  then show ?thesis by (simp add: keeps_def opened_def)
qed


text \<open>
  A small kernel for the witnesses: descriptors are numbered from 3, bytes are read and
  written one at a time, \<open>F_SETFL\<close> and \<open>SO_REUSEADDR\<close> can be made to fail.
\<close>

record example_kernel =
  ek_new :: nat
  ek_open :: "int set"
  ek_in :: "byte list"
  ek_out :: "byte list"

definition example_posix :: "bool \<Rightarrow> example_kernel posix" where
  "example_posix reuse = \<lparr>
     sys_socket = \<lambda>k f t p. (k\<lparr>ek_new := Suc (ek_new k), ek_open := insert (int (ek_new k)) (ek_open k)\<rparr>, Ret (int (ek_new k))),
     sys_close = \<lambda>k fd. (k\<lparr>ek_open := ek_open k - {fd}\<rparr>, Ret 0),
     sys_setsockopt = \<lambda>k fd opt vs. (k, if opt = SO_REUSEADDR \<and> \<not> reuse then Err ENOMEM else Ret 0),
     sys_getfl = \<lambda>k fd. (k, Ret 2), sys_setfl = \<lambda>k fd w. (k, Ret 0), sys_bind = \<lambda>k fd sa. (k, Ret 0),
     sys_listen = \<lambda>k fd n. (k, Ret 0), sys_connect = \<lambda>k fd sa. (k, Err EINPROGRESS),
     sys_accept = \<lambda>k fd. (k, Err EAGAIN, Sa_other), sys_getpeername = \<lambda>k fd. (k, Err EBADF, Sa_other),
     sys_getsockname = \<lambda>k fd. (k, Err EBADF, Sa_other), sys_chmod = \<lambda>k p m. (k, Ret 0),
     sys_read = \<lambda>k fd n. (k\<lparr>ek_in := drop 1 (ek_in k)\<rparr>, Inr (take 1 (ek_in k))),
     sys_write = \<lambda>k fd bs. (k\<lparr>ek_out := ek_out k @ take 1 bs\<rparr>, Ret 1),
     sys_poll_in = \<lambda>k fd t. (k, Ret 0), sys_eventfd = \<lambda>k. (k, Err EMFILE), sys_pipe = \<lambda>k. (k, Inl EMFILE),
     sys_socketpair = \<lambda>k. (k, Inl EMFILE), sys_setfd = \<lambda>k fd. (k, Ret 0), sys_send = \<lambda>k fd bs. (k, Ret 1), sys_recv = \<lambda>k fd n. (k, Inl EAGAIN),
     sys_getaddrinfo = \<lambda>k h sv hs. (k, Inr (\<lparr>ai_family = AF_INET, ai_socktype = 1, ai_protocol = 6, ai_addr = Sa_inet h 80\<rparr>, [])),
     os_strerror = \<lambda>e. ''failed'', os_gai_strerror = \<lambda>n. ''unknown''\<rparr>"

text \<open>Descriptors that were not handed out yet are not open.\<close>

definition example_fds :: "example_kernel \<Rightarrow> int set" where
  "example_fds k = ek_open k \<inter> {0..<int (ek_new k)}"

definition example_anet :: "example_kernel anet" where
  "example_anet = \<lparr>a_kern = \<lparr>ek_new = 3, ek_open = {0, 1, 2}, ek_in = [7, 8, 9], ek_out = []\<rparr>, a_errno = EINVAL, a_err = None\<rparr>"

lemma example_ledger: "fd_ledger (example_posix reuse) example_fds"
  unfolding fd_ledger_def by (auto simp: example_posix_def example_fds_def)

theorem tcp_connect_keeps_no_descriptor_witness:
  "\<exists>st'. anetTcpGenericConnect (example_posix True) ''::1'' 80 None ANET_CONNECT_NONBLOCK example_anet = (3, st') \<and>
     example_fds (a_kern st') = insert 3 (example_fds (a_kern example_anet))"
proof -
  obtain s st' where r: "anetTcpGenericConnect (example_posix True) ''::1'' 80 None ANET_CONNECT_NONBLOCK example_anet = (s, st')"
    by fastforce
  have s: "s = 3" using r
    by (subst (asm) anetTcpGenericConnect.simps)
      (simp add: anet_connect_once_def example_posix_def c_call_def example_anet_def anetSetReuseAddr_def anet_setopt_def
        anetNonBlock_def anetSetBlock_def anet_bind_source_def ANET_CONNECT_NONBLOCK_def ANET_ERR_def ANET_OK_def Let_def split: if_splits)
  show ?thesis using tcp_connect_keeps_no_descriptor [OF example_ledger r] r s by (auto simp: ANET_ERR_def)
qed

text \<open>
  C37: the listening side does leave one behind. It is as careful as the connecting side as
  long as the socket option can be set, but when \<open>SO_REUSEADDR\<close> is refused
  for the first address it reports the failure and the socket it made stays open.
\<close>

theorem tcp_server_leaks_descriptor:
  assumes L: "fd_ledger P ofd"
    and info: "sys_getaddrinfo P (a_kern st) bindaddr (Some (anet_portstr port))
      \<lparr>h_family = AF_INET, h_numeric = False, h_passive = True\<rparr> = (k, Inr (p, ps))"
    and made: "sys_socket P k (ai_family p) (ai_socktype p) (ai_protocol p) = (k2, Ret s)"
    and refused: "sys_setsockopt P k2 s SO_REUSEADDR [1] = (k3, Err e)"
  shows "\<exists>st'. anetTcpServer P port bindaddr backlog st = (ANET_ERR, st') \<and>
    s \<notin> ofd (a_kern st) \<and> ofd (a_kern st') = insert s (ofd (a_kern st))"
proof -
  let ?st3 = "anetSetErrno P ''setsockopt SO_REUSEADDR: '' (st\<lparr>a_kern := k3, a_errno := e\<rparr>)"
  have s: "0 \<le> s" "s \<notin> ofd k" "ofd k2 = insert s (ofd k)" using fd_ledger_socket [OF L, of k "ai_family p" "ai_socktype p" "ai_protocol p"] made by simp_all
  have k: "ofd k = ofd (a_kern st)" "ofd k3 = ofd k2"
    using fd_ledger_quiet(9) [OF L, of "a_kern st" bindaddr] fd_ledger_quiet(2) [OF L, of k2 s] info refused by (metis fst_conv)+
  have "anetTcpServer P port bindaddr backlog st = (ANET_ERR, ?st3)"
    using info made refused s
    by (simp add: anetTcpServer_def anet_tcp_server_def c_call_def anetSetReuseAddr_def anet_setopt_def ANET_OK_def ANET_ERR_def)
  then show ?thesis using s k by simp
qed

theorem tcp_server_leaks_descriptor_witness:
  "\<exists>st'. anetTcpServer (example_posix False) 80 ''::1'' 511 example_anet = (ANET_ERR, st') \<and>
     3 \<notin> example_fds (a_kern example_anet) \<and> example_fds (a_kern st') = insert 3 (example_fds (a_kern example_anet))"
  by (rule tcp_server_leaks_descriptor [OF example_ledger, where p = "\<lparr>ai_family = AF_INET, ai_socktype = 1, ai_protocol = 6, ai_addr = Sa_inet ''::1'' 80\<rparr>"
        and ?k2.0 = "\<lparr>ek_new = 4, ek_open = {3, 0, 1, 2}, ek_in = [7, 8, 9], ek_out = []\<rparr>"])
    (simp_all add: example_posix_def example_anet_def, simp?)

lemma server_loop_ledger:
  assumes L: "fd_ledger P ofd" and reuse: "\<And>k fd. \<exists>k'. sys_setsockopt P k fd SO_REUSEADDR [1] = (k', Ret 0)"
  shows "case anet_server_loop P af backlog ps st of (g, s, st') \<Rightarrow> if g = To_end then opened ofd st s st' else keeps ofd st st'"
proof (induction ps arbitrary: st)
  case (Cons p ps)
  obtain s st1 where so: "c_call (\<lambda>k. sys_socket P k (ai_family p) (ai_socktype p) (ai_protocol p)) st = (s, st1)" by fastforce
  obtain r1 st2 where v6: "(if af = AF_INET6 then anetV6Only P s st1 else (ANET_OK, st1)) = (r1, st2)" by fastforce
  obtain r2 st3 where re: "anetSetReuseAddr P s st2 = (r2, st3)" by fastforce
  obtain r3 st4 where li: "anetListen P s (ai_addr p) backlog st3 = (r3, st4)" by fastforce
  have r2: "r2 = ANET_OK" using re reuse [of "a_kern st2" s] by (auto simp: anetSetReuseAddr_def anet_setopt_def c_call_def)
  show ?case
  proof (cases "s = -1")
    case True
    then have "keeps ofd st st1" using socket_opened [OF L so] by (auto simp: opened_def)
    with True Cons.IH [of st1] show ?thesis by (auto simp: so split: prod.splits if_splits intro: keeps_trans keeps_opened)
  next
    case False
    then have o1: "opened ofd st s st1" using socket_opened [OF L so] by auto
    obtain rv stv where v: "c_call (\<lambda>k. sys_setsockopt P k s IPV6_V6ONLY [1]) st1 = (rv, stv)" by fastforce
    note ov = opened_keeps [OF o1 calls_keep(1) [OF L v]]
    have o2: "r1 = ANET_ERR \<and> keeps ofd st st2 \<or> r1 = ANET_OK \<and> opened ofd st s st2"
      using v6 v ov o1 c_close_opened [OF L, of st s "anetSetErrno P ''setsockopt: '' stv"] by (auto simp: anetV6Only_def split: if_splits)
    show ?thesis
    proof (cases "r1 = ANET_ERR")
      case True
      with o2 \<open>s \<noteq> -1\<close> show ?thesis by (auto simp: so v6 ANET_ERR_def ANET_OK_def)
    next
      case F: False
      with o2 have "opened ofd st s st3" using reuseaddr_keeps [OF L re] by (auto intro: opened_keeps)
      from listen_ledger [OF L this li] False F r2 show ?thesis by (auto simp: so v6 re li ANET_ERR_def ANET_OK_def)
    qed
  qed
qed simp

lemma tcp_server_ledger:
  assumes L: "fd_ledger P ofd" and reuse: "\<And>k fd. \<exists>k'. sys_setsockopt P k fd SO_REUSEADDR [1] = (k', Ret 0)"
    and r: "anet_tcp_server P port bindaddr af backlog st = (s, st')"
  shows "(s = ANET_ERR \<and> keeps ofd st st') \<or> opened ofd st s st'"
proof -
  let ?hs = "\<lparr>h_family = af, h_numeric = False, h_passive = True\<rparr>"
  obtain k v where g: "sys_getaddrinfo P (a_kern st) bindaddr (Some (anet_portstr port)) ?hs = (k, v)" by fastforce
  note k = getaddrinfo_keeps [OF L g]
  show ?thesis
  proof (cases v)
    case (Inl rv)
    then show ?thesis using g k r by (auto simp: anet_tcp_server_def)
  next
    case (Inr l)
    obtain p ps where l: "l = (p, ps)" by fastforce
    obtain gt t st2 where lo: "anet_server_loop P af backlog (p # ps) (st\<lparr>a_kern := k\<rparr>) = (gt, t, st2)" by (rule prod_cases3)
    have "if gt = To_end then opened ofd st t st2 else keeps ofd st st2"
      using server_loop_ledger [OF L reuse, where af = af and backlog = backlog and ps = "p # ps" and st = "st\<lparr>a_kern := k\<rparr>"] lo k
      by (auto simp del: anet_server_loop.simps intro: keeps_trans keeps_opened split: if_splits)
    then show ?thesis
      using r g Inr l lo by (auto simp: anet_tcp_server_def simp del: anet_server_loop.simps split: if_splits)
  qed
qed

text \<open>
  C36: where \<open>SO_REUSEADDR\<close> can be set, the TCP server returns -1 with every socket it tried
  closed again, or exactly one new descriptor, for both families.
\<close>

theorem tcp_server_keeps_no_descriptor:
  assumes "fd_ledger P ofd" "\<And>k fd. \<exists>k'. sys_setsockopt P k fd SO_REUSEADDR [1] = (k', Ret 0)"
    and "anetTcpServer P port bindaddr backlog st = (s, st') \<or> anetTcp6Server P port bindaddr backlog st = (s, st')"
  shows "(s = ANET_ERR \<and> ofd (a_kern st') = ofd (a_kern st)) \<or>
    (0 \<le> s \<and> s \<notin> ofd (a_kern st) \<and> ofd (a_kern st') = insert s (ofd (a_kern st)))"
proof -
  obtain af where "anet_tcp_server P port bindaddr af backlog st = (s, st')"
    using assms(3) by (auto simp: anetTcpServer_def anetTcp6Server_def)
  from tcp_server_ledger [OF assms(1,2) this] show ?thesis by (simp only: keeps_def opened_def)
qed

theorem tcp_server_keeps_no_descriptor_witness:
  "\<exists>st'. anetTcpServer (example_posix True) 80 ''::1'' 511 example_anet = (3, st') \<and>
     example_fds (a_kern st') = insert 3 (example_fds (a_kern example_anet))"
proof -
  obtain s st' where r: "anetTcpServer (example_posix True) 80 ''::1'' 511 example_anet = (s, st')" by fastforce
  have s: "s = 3" using r
    by (simp add: anetTcpServer_def anet_tcp_server_def example_posix_def c_call_def example_anet_def anetSetReuseAddr_def
        anet_setopt_def anetListen_def ANET_ERR_def ANET_OK_def Let_def split: if_splits)
  have "\<exists>k'. sys_setsockopt (example_posix True) k fd SO_REUSEADDR [1] = (k', Ret 0)" for k fd by (simp add: example_posix_def)
  from tcp_server_keeps_no_descriptor [OF example_ledger this disjI1 [OF r]] r s show ?thesis by (auto simp: ANET_ERR_def)
qed


subsection \<open>Whole transfers\<close>

text \<open>
  \<open>reads_stream P inp\<close>: a \<open>read\<close> of \<open>n > 0\<close> bytes takes between 1 and \<open>n\<close> bytes from the front of what
  is there to read, and nothing only at the end. \<open>writes_stream P out\<close>: a \<open>write\<close> of some bytes
  appends at least one of them, in order. How many is up to the kernel.
\<close>

definition reads_stream :: "'k posix \<Rightarrow> ('k \<Rightarrow> byte list) \<Rightarrow> bool" where
  "reads_stream P inp \<longleftrightarrow> (\<forall>k fd n. 0 < n \<longrightarrow> (\<exists>k' m. sys_read P k fd n = (k', Inr (take m (inp k))) \<and>
     m \<le> n \<and> (inp k \<noteq> [] \<longrightarrow> 0 < m) \<and> inp k' = drop m (inp k)))"

definition writes_stream :: "'k posix \<Rightarrow> ('k \<Rightarrow> byte list) \<Rightarrow> bool" where
  "writes_stream P out \<longleftrightarrow> (\<forall>k fd bs. bs \<noteq> [] \<longrightarrow> (\<exists>k' m. sys_write P k fd bs = (k', Ret (int m)) \<and>
     0 < m \<and> m \<le> length bs \<and> out k' = out k @ take m bs))"

lemma unat_size: "0 \<le> n \<Longrightarrow> n \<le> INT_MAX \<Longrightarrow> unat (word_of_int n :: 64 word) = nat n"
  by (simp add: INT_MAX_def unat_eq_nat_uint uint_word_of_int)

lemma anet_read_loop_exact:
  assumes S: "reads_stream P inp" and count: "count \<le> INT_MAX"
  shows "int (length buf) \<le> count \<Longrightarrow> \<exists>st'. anet_read_loop P fd count buf st =
      Some (int (length (buf @ take (nat count - length buf) (inp (a_kern st)))), buf @ take (nat count - length buf) (inp (a_kern st)), st') \<and>
    inp (a_kern st') = drop (nat count - length buf) (inp (a_kern st))"
proof (induction "nat count - length buf" arbitrary: buf st rule: less_induct)
  case less
  show ?case
  proof (cases "int (length buf) = count")
    case True
    then show ?thesis by (subst anet_read_loop.simps) auto
  next
    case False
    define n where "n = nat count - length buf"
    have n: "0 < n" "unat (word_of_int (count - int (length buf)) :: 64 word) = n"
      using False less.prems count unat_size [of "count - int (length buf)"] by (auto simp: n_def nat_diff_distrib' simp del: of_int_diff)
    obtain k' m where r: "sys_read P (a_kern st) fd n = (k', Inr (take m (inp (a_kern st))))" "m \<le> n"
        "inp (a_kern st) \<noteq> [] \<longrightarrow> 0 < m" "inp k' = drop m (inp (a_kern st))"
      using S n(1) unfolding reads_stream_def by blast
    let ?st = "st\<lparr>a_kern := k'\<rparr>" and ?bs = "take m (inp (a_kern st))"
    show ?thesis
    proof (cases "?bs = []")
      case True
      then have "inp (a_kern st) = []" using r(3) by auto
      then show ?thesis using False n r True by (subst anet_read_loop.simps) (auto simp del: of_int_diff)
    next
      case ne: False
      then have len: "0 < length ?bs" "length (buf @ ?bs) \<le> nat count" using r(2) n_def by auto
      have left: "nat count - length (buf @ ?bs) < nat count - length buf" "int (length (buf @ ?bs)) \<le> count"
        using len less.prems unfolding length_append by linarith+
      have "anet_read_loop P fd count buf st = anet_read_loop P fd count (buf @ ?bs) ?st"
        using False n r ne by (subst anet_read_loop.simps) (simp del: of_int_diff)
      moreover have sum: "m + (nat count - (length buf + m)) = nat count - length buf" "nat count - (length buf + m) + m = nat count - length buf"
        using r(2) by (simp_all add: n_def)
      moreover have "?bs @ take (nat count - length (buf @ ?bs)) (drop m (inp (a_kern st))) = take n (inp (a_kern st))"
        using r(2) unfolding n_def by (cases "m \<le> length (inp (a_kern st))") (simp_all add: take_add [symmetric] diff_diff_add min_def sum)
      moreover have "drop (nat count - length (buf @ ?bs)) (drop m (inp (a_kern st))) = drop n (inp (a_kern st))"
        using r(2) unfolding n_def by (cases "m \<le> length (inp (a_kern st))") (simp_all add: min_def sum)
      ultimately show ?thesis
        using less.hyps [OF left(1), of ?st] left(2) r(4) by (simp add: n_def)
    qed
  qed
qed


text \<open>
  C38: however the kernel cuts the stream up, \<open>anetRead\<close> ends, and it has read exactly the next
  \<open>count\<close> bytes, or all that were left when there are fewer; the stream goes on after them.
\<close>

theorem anet_read_exact:
  assumes "reads_stream P inp" "0 \<le> count" "count \<le> INT_MAX"
  shows "\<exists>st'. anetRead P fd count st = Some (int (length (take (nat count) (inp (a_kern st)))), take (nat count) (inp (a_kern st)), st') \<and>
    inp (a_kern st') = drop (nat count) (inp (a_kern st))"
  using anet_read_loop_exact [OF assms(1,3), of "[]" fd st] assms(2) by (simp add: anetRead_def)

lemma example_streams: "reads_stream (example_posix b) ek_in" "writes_stream (example_posix b) ek_out"
  by (auto simp: reads_stream_def writes_stream_def example_posix_def intro!: exI [of _ "Suc 0"] simp: Suc_le_eq)

theorem anet_read_exact_witness:
  "\<exists>st'. anetRead (example_posix True) 0 2 example_anet = Some (2, [7, 8], st') \<and> ek_in (a_kern st') = [9]"
  using anet_read_exact [OF example_streams(1) [of True], of 2 0 example_anet] by (simp add: example_anet_def INT_MAX_def)

lemma anet_write_loop_all:
  assumes S: "writes_stream P out" and count: "count \<le> INT_MAX"
  shows "0 \<le> tot \<Longrightarrow> tot + int (length buf) = count \<Longrightarrow> \<exists>st'. anet_write_loop P fd buf count tot st = Some (count, st') \<and>
    out (a_kern st') = out (a_kern st) @ buf"
proof (induction buf arbitrary: tot st rule: measure_induct_rule [where f = length])
  case (less buf)
  show ?case
  proof (cases "buf = []")
    case True
    then show ?thesis using less.prems by (subst anet_write_loop.simps) simp
  next
    case False
    have all: "take (unat (word_of_int (count - tot) :: 64 word)) buf = buf" "tot \<noteq> count"
      using less.prems count False unat_size [of "count - tot"] by (auto simp del: of_int_diff)
    obtain k' m where w: "sys_write P (a_kern st) fd buf = (k', Ret (int m))" "0 < m" "m \<le> length buf"
        "out k' = out (a_kern st) @ take m buf"
      using S False unfolding writes_stream_def by blast
    have "anet_write_loop P fd buf count tot st = anet_write_loop P fd (drop m buf) count (tot + int m) (st\<lparr>a_kern := k'\<rparr>)"
      using all w by (subst anet_write_loop.simps) (simp del: of_int_diff)
    then show ?thesis
      using less.IH [of "drop m buf" "tot + int m" "st\<lparr>a_kern := k'\<rparr>"] less.prems w by simp
  qed
qed

text \<open>
  as long as every \<open>write\<close> takes something, \<open>anetWrite\<close> ends, reports the whole count, and
  the bytes arrive complete and in order.
\<close>

theorem anet_write_all:
  assumes "writes_stream P out" "int (length buf) \<le> INT_MAX"
  shows "\<exists>st'. anetWrite P fd buf (int (length buf)) st = Some (int (length buf), st') \<and> out (a_kern st') = out (a_kern st) @ buf"
  using anet_write_loop_all [OF assms, of 0 buf fd st] by (simp add: anetWrite_def)

theorem anet_write_all_witness:
  "\<exists>st'. anetWrite (example_posix True) 0 [1, 2, 3] 3 example_anet = Some (3, st') \<and> ek_out (a_kern st') = [1, 2, 3]"
  using anet_write_all [OF example_streams(2) [of True], of "[1, 2, 3]" 0 example_anet] by (simp add: example_anet_def INT_MAX_def)

subsection \<open>Texts\<close>

text \<open>The socket layer passes \<open>char err[255]\<close> where \<open>ANET_ERR_LEN\<close>, 256, bytes may be written.\<close>

lemma anet_err_overruns: "anet_err_fits 255 msg \<longleftrightarrow> length msg < 255"
  by (auto simp: anet_err_fits_def c_snprintf_def ANET_ERR_LEN_def)

text \<open>
  How such a text is read: the address is what stands before the first colon, or between brackets when it has
  colons itself, which is how an IPv6 address is written before a port (RFC 3986); the port is what follows.
\<close>

definition read_port :: "string \<Rightarrow> string \<Rightarrow> (string \<times> int) option" where
  "read_port host rest = (case rest of CHR '':'' # p \<Rightarrow> map_option (Pair host) (read_int p) | _ \<Rightarrow> None)"

definition read_addr :: "string \<Rightarrow> (string \<times> int) option" where
  "read_addr t = (case t of
     CHR ''['' # u \<Rightarrow>
       (let host = takeWhile (\<lambda>c. c \<noteq> CHR '']'') u in
        if CHR '':'' \<in> set host \<and> host \<noteq> u then read_port host (drop (Suc (length host)) u) else None)
   | _ \<Rightarrow> (let host = takeWhile (\<lambda>c. c \<noteq> CHR '':'') t in read_port host (drop (length host) t)))"

lemma read_addr_bracket:
  assumes "CHR '']'' \<notin> set ip" "CHR '':'' \<in> set ip"
  shows "read_addr (CHR ''['' # ip @ CHR '']'' # rest) = read_port ip rest"
proof -
  have "takeWhile (\<lambda>c. c \<noteq> CHR '']'') (ip @ CHR '']'' # rest) = ip" using assms(1) by (subst takeWhile_append2) auto
  then show ?thesis using assms(2) by (simp add: read_addr_def)
qed

lemma read_addr_plain:
  assumes "CHR ''['' \<notin> set ip" "CHR '':'' \<notin> set ip"
  shows "read_addr (ip @ CHR '':'' # rest) = read_port ip (CHR '':'' # rest)"
proof -
  let ?t = "ip @ CHR '':'' # rest"
  have host: "takeWhile (\<lambda>c. c \<noteq> CHR '':'') ?t = ip" using assms(2) by (subst takeWhile_append2) auto
  have "read_addr ?t = (let host = takeWhile (\<lambda>c. c \<noteq> CHR '':'') ?t in read_port host (drop (length host) ?t))"
  proof (cases "?t")
    case (Cons c cs)
    then have "c \<noteq> CHR ''[''" using assms(1) by (cases ip) auto
    then show ?thesis using Cons by (auto simp: read_addr_def split: char.split bool.split)
  qed simp
  then show ?thesis by (simp add: host)
qed

text \<open>
  C39: What \<open>anetFormatAddr\<close> writes can be read back: an address without colons is followed by a colon and the port, one with
  colons, an IPv6 address, is put in brackets first, and reading the text in this way gives the address and the
  port, when the buffer was large enough. The result is then the length of the text.
\<close>

theorem format_addr_read_back:
  assumes room: "snd (anetFormatAddr n ip port) < int n" and plain: "CHR ''['' \<notin> set ip" "CHR '']'' \<notin> set ip"
  shows "read_addr (fst (anetFormatAddr n ip port)) = Some (ip, port) \<and>
    snd (anetFormatAddr n ip port) = int (length (fst (anetFormatAddr n ip port)))"
proof (cases "CHR '':'' \<in> set ip")
  case True
  then have "anetFormatAddr n ip port = c_snprintf n (CHR ''['' # ip @ CHR '']'' # CHR '':'' # show_int port)" by (simp add: anetFormatAddr_def)
  then show ?thesis using room True read_addr_bracket [OF plain(2) True, of "CHR '':'' # show_int port"]
    by (auto simp: c_snprintf_def read_port_def)
next
  case False
  then have "anetFormatAddr n ip port = c_snprintf n (ip @ CHR '':'' # show_int port)" by (simp add: anetFormatAddr_def)
  then show ?thesis using room read_addr_plain [OF plain(1) False, of "show_int port"]
    by (auto simp: c_snprintf_def read_port_def)
qed

theorem format_addr_read_back_witness:
  "read_addr (fst (anetFormatAddr 64 ''::1'' 80)) = Some (''::1'', 80) \<and> read_addr (fst (anetFormatAddr 16 ''10.0.0.1'' 8080)) = Some (''10.0.0.1'', 8080)"
  using format_addr_read_back [of 64 "''::1''" 80] format_addr_read_back [of 16 "''10.0.0.1''" 8080]
  by (simp add: anetFormatAddr_def c_snprintf_def show_int_def show_nat.simps)

end
