(* ===== verification/Efd.thy ===== *)
theory Efd
  imports Anet
begin

unbundle bit_operations_syntax

text \<open>
  Signals through descriptors: \<open>utils/efd.c\<close> with its three POSIX variants,
  \<open>efd_eventfd.inc\<close>, \<open>efd_pipe.inc\<close> and \<open>efd_socketpair.inc\<close>, and \<open>utils/closefd.c\<close>. As in
  the socket helpers the kernel is a record of system calls, and the state of a call is the
  kernel's state and \<open>errno\<close>. The handle is the descriptor of an eventfd, or the read end and
  the write end. The macros the pipe variant tests (\<open>NN_HAVE_PIPE2\<close>) are set nowhere, the
  build sets \<open>FSOCK_HAVE_PIPE2\<close>, so its branch without \<open>pipe2\<close> is the one modelled;
  \<open>SOCK_CLOEXEC\<close> and \<open>MSG_NOSIGNAL\<close> are defined on Linux.
\<close>

subsection \<open>Closing a descriptor\<close>

definition nn_closefd :: "'k posix \<Rightarrow> int \<Rightarrow> 'k anet \<Rightarrow> fault + 'k anet" where
  "nn_closefd P fd st =
     (if fd < 0 then Inr st else
      let (rc, st1) = c_call (\<lambda>k. sys_close P k fd) st in
      if rc = 0 then Inr st1
      else rbind (assert_that (a_errno st1 \<in> {EINTR, ETIMEDOUT, EAGAIN, EWOULDBLOCK, EINPROGRESS, ECONNRESET})) (\<lambda>_. Inr st1))"

text \<open>A read as C sees it: the bytes, or -1 and \<open>errno\<close>.\<close>

definition c_read :: "('k \<Rightarrow> 'k \<times> (errno + byte list)) \<Rightarrow> 'k anet \<Rightarrow> int \<times> byte list \<times> 'k anet" where
  "c_read f st =
     (case f (a_kern st) of
        (k, Inl e) \<Rightarrow> (-1, [], st\<lparr>a_kern := k, a_errno := e\<rparr>)
      | (k, Inr bs) \<Rightarrow> (int (length bs), bs, st\<lparr>a_kern := k\<rparr>))"

text \<open>Switching a descriptor to non-blocking mode, as the three variants do it.\<close>

definition efd_nonblock :: "'k posix \<Rightarrow> int \<Rightarrow> 'k anet \<Rightarrow> fault + 'k anet" where
  "efd_nonblock P fd st =
     (let (flags, st1) = c_call (\<lambda>k. sys_getfl P k fd) st;
          flags1 = (if flags = -1 then 0 else flags);
          (rc, st2) = c_call (\<lambda>k. sys_setfl P k fd (word_of_int flags1 OR O_NONBLOCK)) st1
      in rbind (assert_that (rc \<noteq> -1)) (\<lambda>_. Inr st2))"

subsection \<open>The eventfd variant\<close>

text \<open>The results of \<open>nn_efd_init\<close>: its return value, what it leaves in the handle, the state.\<close>

definition nn_efd_init_ev :: "'k posix \<Rightarrow> 'k anet \<Rightarrow> fault + (int \<times> int \<times> 'k anet)" where
  "nn_efd_init_ev P st =
     (let (fd, st1) = c_call (sys_eventfd P) st in
      if fd = -1 \<and> (a_errno st1 = EMFILE \<or> a_errno st1 = ENFILE) then Inr (- c_EMFILE, fd, st1)
      else rbind (assert_that (fd \<noteq> -1)) (\<lambda>_.
           rbind (efd_nonblock P fd st1) (\<lambda>st2. Inr (0, fd, st2))))"

text \<open>The descriptor of the handle is -1 afterwards.\<close>

definition nn_efd_term_ev :: "'k posix \<Rightarrow> int \<Rightarrow> 'k anet \<Rightarrow> fault + (int \<times> 'k anet)" where
  "nn_efd_term_ev P fd st = rbind (nn_closefd P fd st) (\<lambda>st1. Inr (-1, st1))"

text \<open>The number one, as the eight bytes that are written.\<close>

definition efd_one :: "byte list" where
  "efd_one = [1, 0, 0, 0, 0, 0, 0, 0]"

definition nn_efd_signal_ev :: "'k posix \<Rightarrow> int \<Rightarrow> 'k anet \<Rightarrow> fault + 'k anet" where
  "nn_efd_signal_ev P fd st =
     (if fd < 0 then Inr st else
      let (nbytes, st1) = c_call (\<lambda>k. sys_write P k fd efd_one) st in
      rbind (assert_that (nbytes = 8)) (\<lambda>_. Inr st1))"

definition nn_efd_stop_ev :: "'k posix \<Rightarrow> int \<Rightarrow> 'k anet \<Rightarrow> fault + 'k anet" where
  "nn_efd_stop_ev P fd st = nn_efd_signal_ev P fd st"

definition nn_efd_unsignal_ev :: "'k posix \<Rightarrow> int \<Rightarrow> 'k anet \<Rightarrow> fault + 'k anet" where
  "nn_efd_unsignal_ev P fd st =
     (if fd < 0 then Inr st else
      let (sz, bs, st1) = c_read (\<lambda>k. sys_read P k fd 8) st in
      rbind (assert_that (sz \<ge> 0)) (\<lambda>_.
      rbind (assert_that (sz = 8)) (\<lambda>_. Inr st1)))"

subsection \<open>The pipe and the socket pair\<close>

record ends =
  fd_r :: int
  fd_w :: int

text \<open>
  The two variants differ in how the descriptors are made and in the calls that move the
  bytes. \<open>old\<close> is what the handle held before: it is left alone when no descriptor is made.
\<close>

definition nn_efd_init_pipe :: "'k posix \<Rightarrow> ends \<Rightarrow> 'k anet \<Rightarrow> fault + (int \<times> ends \<times> 'k anet)" where
  "nn_efd_init_pipe P old st =
     (case sys_pipe P (a_kern st) of
        (k, Inl e) \<Rightarrow>
          if e = EMFILE \<or> e = ENFILE then Inr (- c_EMFILE, old, st\<lparr>a_kern := k, a_errno := e\<rparr>) else Inl Abort
      | (k, Inr (r, w)) \<Rightarrow>
          let (r1, st1) = c_call (\<lambda>k. sys_setfd P k r) (st\<lparr>a_kern := k\<rparr>) in
          rbind (assert_that (r1 \<noteq> -1)) (\<lambda>_.
          let (r2, st2) = c_call (\<lambda>k. sys_setfd P k w) st1 in
          rbind (assert_that (r2 \<noteq> -1)) (\<lambda>_.
          rbind (efd_nonblock P r st2) (\<lambda>st3. Inr (0, \<lparr>fd_r = r, fd_w = w\<rparr>, st3)))))"

definition nn_efd_init_pair :: "'k posix \<Rightarrow> ends \<Rightarrow> 'k anet \<Rightarrow> fault + (int \<times> ends \<times> 'k anet)" where
  "nn_efd_init_pair P old st =
     (case sys_socketpair P (a_kern st) of
        (k, Inl e) \<Rightarrow>
          if e = EMFILE \<or> e = ENFILE then Inr (- c_EMFILE, old, st\<lparr>a_kern := k, a_errno := e\<rparr>) else Inl Abort
      | (k, Inr (r, w)) \<Rightarrow>
          rbind (efd_nonblock P r (st\<lparr>a_kern := k\<rparr>)) (\<lambda>st1. Inr (0, \<lparr>fd_r = r, fd_w = w\<rparr>, st1)))"

text \<open>The read side is closed first.\<close>

definition nn_efd_term_ends :: "'k posix \<Rightarrow> ends \<Rightarrow> 'k anet \<Rightarrow> fault + (ends \<times> 'k anet)" where
  "nn_efd_term_ends P h st =
     rbind (nn_closefd P (fd_r h) st) (\<lambda>st1.
     rbind (nn_closefd P (fd_w h) st1) (\<lambda>st2. Inr (\<lparr>fd_r = -1, fd_w = -1\<rparr>, st2)))"

definition nn_efd_stop_ends :: "'k posix \<Rightarrow> ends \<Rightarrow> 'k anet \<Rightarrow> fault + (ends \<times> 'k anet)" where
  "nn_efd_stop_ends P h st = rbind (nn_closefd P (fd_w h) st) (\<lambda>st1. Inr (h\<lparr>fd_w := -1\<rparr>, st1))"

definition efd_signal_with :: "('k \<Rightarrow> int \<Rightarrow> byte list \<Rightarrow> 'k \<times> sysret) \<Rightarrow> ends \<Rightarrow> 'k anet \<Rightarrow> fault + 'k anet" where
  "efd_signal_with put h st =
     (if fd_w h < 0 then Inr st else
      let (nbytes, st1) = c_call (\<lambda>k. put k (fd_w h) [101]) st in
      rbind (assert_that (nbytes \<noteq> -1)) (\<lambda>_.
      rbind (assert_that (nbytes = 1)) (\<lambda>_. Inr st1)))"

text \<open>
  The loop reads up to 16 bytes at a time until fewer come; it is a partial function, for it
  goes on as long as the kernel fills the buffer.
\<close>

partial_function (option) efd_unsignal_with ::
  "('k \<Rightarrow> int \<Rightarrow> nat \<Rightarrow> 'k \<times> (errno + byte list)) \<Rightarrow> ends \<Rightarrow> 'k anet \<Rightarrow> (fault + 'k anet) option" where
  "efd_unsignal_with get h st =
     (if fd_r h < 0 then Some (Inr st) else
      let (n, bs, st1) = c_read (\<lambda>k. get k (fd_r h) 16) st;
          nbytes = (if n < 0 \<and> a_errno st1 = EAGAIN then 0 else n)
      in if nbytes < 0 then Some (Inl Abort)
         else if nbytes < 16 then Some (Inr st1)
         else efd_unsignal_with get h st1)"

definition returning :: "(fault + 'a) option \<Rightarrow> fault + 'a" where
  "returning r = (case r of None \<Rightarrow> Inl Hang | Some x \<Rightarrow> x)"

definition nn_efd_signal_pipe :: "'k posix \<Rightarrow> ends \<Rightarrow> 'k anet \<Rightarrow> fault + 'k anet" where
  "nn_efd_signal_pipe P = efd_signal_with (sys_write P)"

definition nn_efd_unsignal_pipe :: "'k posix \<Rightarrow> ends \<Rightarrow> 'k anet \<Rightarrow> fault + 'k anet" where
  "nn_efd_unsignal_pipe P h st = returning (efd_unsignal_with (sys_read P) h st)"

definition nn_efd_signal_pair :: "'k posix \<Rightarrow> ends \<Rightarrow> 'k anet \<Rightarrow> fault + 'k anet" where
  "nn_efd_signal_pair P = efd_signal_with (sys_send P)"

definition nn_efd_unsignal_pair :: "'k posix \<Rightarrow> ends \<Rightarrow> 'k anet \<Rightarrow> fault + 'k anet" where
  "nn_efd_unsignal_pair P h st = returning (efd_unsignal_with (sys_recv P) h st)"

subsection \<open>Waiting\<close>

text \<open>\<open>fd\<close> is \<open>nn_efd_getfd\<close>: the eventfd, or the read end.\<close>

definition nn_efd_getfd_ev :: "int \<Rightarrow> int" where
  "nn_efd_getfd_ev fd = fd"

definition nn_efd_getfd_ends :: "ends \<Rightarrow> int" where
  "nn_efd_getfd_ends h = fd_r h"

definition nn_efd_wait :: "'k posix \<Rightarrow> int \<Rightarrow> int \<Rightarrow> 'k anet \<Rightarrow> fault + (int \<times> 'k anet)" where
  "nn_efd_wait P fd timeout st =
     (if fd < 0 then Inr (- c_EBADF, st) else
      let (rc, st1) = c_call (\<lambda>k. sys_poll_in P k fd timeout) st in
      if rc < 0 \<and> a_errno st1 = EINTR then Inr (- c_EINTR, st1)
      else rbind (assert_that (rc \<ge> 0)) (\<lambda>_.
           Inr (if rc = 0 then - c_ETIMEDOUT else 0, st1)))"

end
