(* ===== verification/Signals.thy ===== *)
theory Signals
  imports Efd Global Example
begin

text \<open>
  What \<open>utils/efd.h\<close> promises of a signal channel, whatever it is made of, and that the
  variants keep it. The kernel's side, eventfds, pipes and socket pairs, is stated as laws on
  the system calls.
\<close>

subsection \<open>The contract\<close>

text \<open>Signalling several times.\<close>

fun repeat_step :: "nat \<Rightarrow> ('s \<Rightarrow> fault + 's) \<Rightarrow> 's \<Rightarrow> fault + 's" where
  "repeat_step 0 f s = Inr s"
| "repeat_step (Suc n) f s = rbind (f s) (repeat_step n f)"

text \<open>
  \<open>pending s\<close> is the number of signals that have not been taken, and \<open>None\<close> when the
  channel cannot be used; \<open>room\<close> signals fit.
\<close>

locale signal_channel =
  fixes signal :: "'s \<Rightarrow> fault + 's"
    and unsignal :: "'s \<Rightarrow> fault + 's"
    and wait :: "int \<Rightarrow> 's \<Rightarrow> fault + (int \<times> 's)"
    and pending :: "'s \<Rightarrow> nat option"
    and room :: nat
  assumes signal_ok: "pending s = Some n \<Longrightarrow> n < room \<Longrightarrow> \<exists>s'. signal s = Inr s' \<and> pending s' = Some (Suc n)"
    and unsignal_ok: "pending s = Some n \<Longrightarrow> 0 < n \<Longrightarrow> \<exists>s'. unsignal s = Inr s' \<and> pending s' = Some 0"
    and wait_signalled: "pending s = Some n \<Longrightarrow> 0 < n \<Longrightarrow> \<exists>s'. wait t s = Inr (0, s') \<and> pending s' = Some n"
    and wait_quiet: "pending s = Some 0 \<Longrightarrow> 0 \<le> t \<Longrightarrow> \<exists>s'. wait t s = Inr (- c_ETIMEDOUT, s') \<and> pending s' = Some 0"
begin

lemma signals_add:
  "pending s = Some m \<Longrightarrow> m + n \<le> room \<Longrightarrow> \<exists>s'. repeat_step n signal s = Inr s' \<and> pending s' = Some (m + n)"
proof (induction n arbitrary: s m)
  case (Suc n)
  obtain s1 where "signal s = Inr s1" "pending s1 = Some (Suc m)" using signal_ok [OF Suc.prems(1)] Suc.prems(2) by auto
  then show ?case using Suc.IH [of s1 "Suc m"] Suc.prems(2) by simp
qed simp

text \<open>Signals collapse: however many there were, one wait sees them and one unsignal takes them all.\<close>

lemma signals_collapse:
  assumes "pending s = Some m" "0 < m + n" "m + n \<le> room" "0 \<le> t'"
  shows "\<exists>s1 s2 s3 s4. repeat_step n signal s = Inr s1 \<and> wait t s1 = Inr (0, s2) \<and> unsignal s2 = Inr s3 \<and>
    wait t' s3 = Inr (- c_ETIMEDOUT, s4) \<and> pending s4 = Some 0"
proof -
  obtain s1 where 1: "repeat_step n signal s = Inr s1" "pending s1 = Some (m + n)" using signals_add assms(1,3) by blast
  obtain s2 where 2: "wait t s1 = Inr (0, s2)" "pending s2 = Some (m + n)" using wait_signalled [OF 1(2) assms(2)] by blast
  obtain s3 where 3: "unsignal s2 = Inr s3" "pending s3 = Some 0" using unsignal_ok [OF 2(2) assms(2)] by blast
  show ?thesis using 1(1) 2(1) 3(1) wait_quiet [OF 3(2) assms(4)] by blast
qed

end

text \<open>A channel whose unsignal does no harm when there is nothing to take.\<close>

locale idle_safe_channel = signal_channel +
  assumes unsignal_idle: "pending s = Some 0 \<Longrightarrow> \<exists>s'. unsignal s = Inr s' \<and> pending s' = Some 0"
begin

lemma unsignal_any: "pending s = Some n \<Longrightarrow> \<exists>s'. unsignal s = Inr s' \<and> pending s' = Some 0"
  using unsignal_ok unsignal_idle by (cases "n = 0") auto

lemma unsignals:
  "pending s = Some n \<Longrightarrow> 0 < m \<Longrightarrow> \<exists>s'. repeat_step m unsignal s = Inr s' \<and> pending s' = Some 0"
proof (induction m arbitrary: s n)
  case (Suc m)
  obtain s1 where "unsignal s = Inr s1" "pending s1 = Some 0" using unsignal_any [OF Suc.prems(1)] by blast
  then show ?case using Suc.IH [of s1 0] by (cases "m = 0") auto
qed simp

end

subsection \<open>The eventfd variant keeps it\<close>

text \<open>
  \<open>cnt k fd\<close> is the counter of the eventfd \<open>fd\<close>; \<open>None\<close> when \<open>fd\<close> is no open non-blocking eventfd. The
  largest value it takes is \<open>2 ^ 64 - 2\<close>.
\<close>

definition eventfd_max :: nat where
  "eventfd_max = 2 ^ 64 - 2"

definition eventfd_laws :: "'k posix \<Rightarrow> ('k \<Rightarrow> int \<Rightarrow> nat option) \<Rightarrow> bool" where
  "eventfd_laws P cnt \<longleftrightarrow>
     (\<forall>k fd n. cnt k fd = Some n \<longrightarrow> 0 \<le> fd \<and>
        (n < eventfd_max \<longrightarrow> (\<exists>k'. sys_write P k fd efd_one = (k', Ret 8) \<and> cnt k' = (cnt k)(fd := Some (Suc n)))) \<and>
        (0 < n \<longrightarrow> (\<exists>k' bs. sys_read P k fd 8 = (k', Inr bs) \<and> length bs = 8 \<and> cnt k' = (cnt k)(fd := Some 0))) \<and>
        (n = 0 \<longrightarrow> (\<exists>k'. sys_read P k fd 8 = (k', Inl EAGAIN) \<and> cnt k' = cnt k)) \<and>
        (\<forall>t. 0 < n \<longrightarrow> (\<exists>k'. sys_poll_in P k fd t = (k', Ret 1) \<and> cnt k' = cnt k)) \<and>
        (\<forall>t. n = 0 \<and> 0 \<le> t \<longrightarrow> (\<exists>k'. sys_poll_in P k fd t = (k', Ret 0) \<and> cnt k' = cnt k)))"

lemma eventfd_lawsD:
  assumes "eventfd_laws P cnt" "cnt k fd = Some n"
  shows "\<not> fd < 0"
    "n < eventfd_max \<Longrightarrow> \<exists>k'. sys_write P k fd efd_one = (k', Ret 8) \<and> cnt k' = (cnt k)(fd := Some (Suc n))"
    "0 < n \<Longrightarrow> \<exists>k' bs. sys_read P k fd 8 = (k', Inr bs) \<and> length bs = 8 \<and> cnt k' = (cnt k)(fd := Some 0)"
    "n = 0 \<Longrightarrow> \<exists>k'. sys_read P k fd 8 = (k', Inl EAGAIN) \<and> cnt k' = cnt k"
    "0 < n \<Longrightarrow> \<exists>k'. sys_poll_in P k fd t = (k', Ret 1) \<and> cnt k' = cnt k"
    "n = 0 \<Longrightarrow> 0 \<le> t \<Longrightarrow> \<exists>k'. sys_poll_in P k fd t = (k', Ret 0) \<and> cnt k' = cnt k"
  using assms unfolding eventfd_laws_def by (metis linorder_not_less)+

definition ev_pending :: "'k posix \<Rightarrow> ('k \<Rightarrow> int \<Rightarrow> nat option) \<Rightarrow> int \<Rightarrow> 'k anet \<Rightarrow> nat option" where
  "ev_pending P cnt fd st = (if eventfd_laws P cnt then cnt (a_kern st) fd else None)"

lemma ev_pendingD: "ev_pending P cnt fd st = Some n \<Longrightarrow> eventfd_laws P cnt \<and> cnt (a_kern st) fd = Some n"
  by (simp add: ev_pending_def split: if_splits)

lemma efd_wait_ret:
  "\<not> fd < 0 \<Longrightarrow> sys_poll_in P (a_kern st) fd t = (k, Ret n) \<Longrightarrow> 0 \<le> n \<Longrightarrow>
   nn_efd_wait P fd t st = Inr (if n = 0 then - c_ETIMEDOUT else 0, st\<lparr>a_kern := k\<rparr>)"
  by (simp add: nn_efd_wait_def c_call_def)

interpretation eventfd: signal_channel "nn_efd_signal_ev P fd" "nn_efd_unsignal_ev P fd" "nn_efd_wait P fd"
  "ev_pending P cnt fd" eventfd_max for P cnt fd
proof
  fix s n assume p: "ev_pending P cnt fd s = Some n"
  note L = eventfd_lawsD [OF conjunct1 [OF ev_pendingD [OF p]] conjunct2 [OF ev_pendingD [OF p]]]
  note P = conjunct1 [OF ev_pendingD [OF p]]
  show "\<exists>s'. nn_efd_signal_ev P fd s = Inr s' \<and> ev_pending P cnt fd s' = Some (Suc n)" if "n < eventfd_max"
    using L(1) L(2) [OF that] P by (auto simp: nn_efd_signal_ev_def c_call_def ev_pending_def)
  show "\<exists>s'. nn_efd_unsignal_ev P fd s = Inr s' \<and> ev_pending P cnt fd s' = Some 0" if "0 < n"
    using L(1) L(3) [OF that] P by (auto simp: nn_efd_unsignal_ev_def c_read_def ev_pending_def)
  show "\<exists>s'. nn_efd_wait P fd t s = Inr (0, s') \<and> ev_pending P cnt fd s' = Some n" if pos: "0 < n" for t
  proof -
    obtain k' where "sys_poll_in P (a_kern s) fd t = (k', Ret 1)" "cnt k' = cnt (a_kern s)" using L(5) [OF pos] by blast
    with efd_wait_ret [OF L(1) this(1)] show ?thesis using p by (auto simp: ev_pending_def split: if_splits)
  qed
next
  fix s and t :: int assume p: "ev_pending P cnt fd s = Some 0" and t: "0 \<le> t"
  note L = eventfd_lawsD [OF conjunct1 [OF ev_pendingD [OF p]] conjunct2 [OF ev_pendingD [OF p]]]
  obtain k' where "sys_poll_in P (a_kern s) fd t = (k', Ret 0)" "cnt k' = cnt (a_kern s)" using L(6) [OF refl t] by blast
  with efd_wait_ret [OF L(1) this(1)] show "\<exists>s'. nn_efd_wait P fd t s = Inr (- c_ETIMEDOUT, s') \<and> ev_pending P cnt fd s' = Some 0"
    using p by (auto simp: ev_pending_def split: if_splits)
qed


subsection \<open>The pipe and the socket pair keep it\<close>

text \<open>
  \<open>avail k r\<close> is the number of bytes waiting at the non-blocking read end \<open>r\<close>, \<open>peer k w\<close> the read
  end that the write end \<open>w\<close> feeds; a read takes as much as fits in the buffer. \<open>ends_max\<close>
  bytes fit for certain: the smallest pipe the kernel makes is a page.
\<close>

definition ends_max :: nat where
  "ends_max = 4096"

definition ends_laws ::
  "('k \<Rightarrow> int \<Rightarrow> byte list \<Rightarrow> 'k \<times> sysret) \<Rightarrow> ('k \<Rightarrow> int \<Rightarrow> nat \<Rightarrow> 'k \<times> (errno + byte list)) \<Rightarrow> ('k \<Rightarrow> int \<Rightarrow> int \<Rightarrow> 'k \<times> sysret) \<Rightarrow>
   ('k \<Rightarrow> int \<Rightarrow> nat option) \<Rightarrow> ('k \<Rightarrow> int \<Rightarrow> int option) \<Rightarrow> bool" where
  "ends_laws put get poll avail peer \<longleftrightarrow>
     (\<forall>k w r n. peer k w = Some r \<and> avail k r = Some n \<longrightarrow> 0 \<le> w \<and>
        (n < ends_max \<longrightarrow> (\<exists>k'. put k w [101] = (k', Ret 1) \<and> avail k' = (avail k)(r := Some (Suc n)) \<and> peer k' = peer k))) \<and>
     (\<forall>k r n. avail k r = Some n \<longrightarrow> 0 \<le> r \<and>
        (0 < n \<longrightarrow> (\<exists>k' bs. get k r 16 = (k', Inr bs) \<and> length bs = min 16 n \<and>
           avail k' = (avail k)(r := Some (n - length bs)) \<and> peer k' = peer k)) \<and>
        (n = 0 \<longrightarrow> (\<exists>k'. get k r 16 = (k', Inl EAGAIN) \<and> avail k' = avail k \<and> peer k' = peer k)) \<and>
        (\<forall>t. 0 < n \<longrightarrow> (\<exists>k'. poll k r t = (k', Ret 1) \<and> avail k' = avail k \<and> peer k' = peer k)) \<and>
        (\<forall>t. n = 0 \<and> 0 \<le> t \<longrightarrow> (\<exists>k'. poll k r t = (k', Ret 0) \<and> avail k' = avail k \<and> peer k' = peer k)))"

lemma ends_lawsD:
  assumes "ends_laws put get poll avail peer"
  shows "avail k r = Some n \<Longrightarrow> \<not> r < 0"
    "peer k w = Some r \<Longrightarrow> avail k r = Some n \<Longrightarrow> \<not> w < 0"
    "peer k w = Some r \<Longrightarrow> avail k r = Some n \<Longrightarrow> n < ends_max \<Longrightarrow>
       \<exists>k'. put k w [101] = (k', Ret 1) \<and> avail k' = (avail k)(r := Some (Suc n)) \<and> peer k' = peer k"
    "avail k r = Some n \<Longrightarrow> 0 < n \<Longrightarrow>
       \<exists>k' bs. get k r 16 = (k', Inr bs) \<and> length bs = min 16 n \<and> avail k' = (avail k)(r := Some (n - length bs)) \<and> peer k' = peer k"
    "avail k r = Some 0 \<Longrightarrow> \<exists>k'. get k r 16 = (k', Inl EAGAIN) \<and> avail k' = avail k \<and> peer k' = peer k"
    "avail k r = Some n \<Longrightarrow> 0 < n \<Longrightarrow> \<exists>k'. poll k r t = (k', Ret 1) \<and> avail k' = avail k \<and> peer k' = peer k"
    "avail k r = Some 0 \<Longrightarrow> 0 \<le> t \<Longrightarrow> \<exists>k'. poll k r t = (k', Ret 0) \<and> avail k' = avail k \<and> peer k' = peer k"
  using assms unfolding ends_laws_def by (metis linorder_not_less)+

definition ends_pending ::
  "('k \<Rightarrow> int \<Rightarrow> byte list \<Rightarrow> 'k \<times> sysret) \<Rightarrow> ('k \<Rightarrow> int \<Rightarrow> nat \<Rightarrow> 'k \<times> (errno + byte list)) \<Rightarrow> ('k \<Rightarrow> int \<Rightarrow> int \<Rightarrow> 'k \<times> sysret) \<Rightarrow>
   ('k \<Rightarrow> int \<Rightarrow> nat option) \<Rightarrow> ('k \<Rightarrow> int \<Rightarrow> int option) \<Rightarrow> ends \<Rightarrow> 'k anet \<Rightarrow> nat option" where
  "ends_pending put get poll avail peer h st =
     (if ends_laws put get poll avail peer \<and> peer (a_kern st) (fd_w h) = Some (fd_r h) then avail (a_kern st) (fd_r h) else None)"

lemma ends_pendingD:
  assumes "ends_pending put get poll avail peer h st = Some n"
  shows "ends_laws put get poll avail peer" "peer (a_kern st) (fd_w h) = Some (fd_r h)" "avail (a_kern st) (fd_r h) = Some n"
  using assms by (simp_all add: ends_pending_def split: if_splits)

text \<open>The loop ends, for every full buffer it reads leaves fewer bytes.\<close>

lemma efd_unsignal_loop:
  assumes L: "ends_laws put get poll avail peer"
  shows "avail (a_kern st) (fd_r h) = Some n \<Longrightarrow>
    \<exists>st'. efd_unsignal_with get h st = Some (Inr st') \<and> avail (a_kern st') (fd_r h) = Some 0 \<and> peer (a_kern st') = peer (a_kern st)"
proof (induction n arbitrary: st rule: less_induct)
  case (less n)
  note neg = ends_lawsD(1) [OF L less.prems]
  show ?case
  proof (cases "n = 0")
    case True
    then obtain k' where "get (a_kern st) (fd_r h) 16 = (k', Inl EAGAIN)" "avail k' = avail (a_kern st)" "peer k' = peer (a_kern st)"
      using ends_lawsD(5) [OF L] less.prems by blast
    then show ?thesis using neg less.prems True by (subst efd_unsignal_with.simps) (simp add: c_read_def)
  next
    case False
    then obtain k' bs where r: "get (a_kern st) (fd_r h) 16 = (k', Inr bs)" "length bs = min 16 n"
        "avail k' = (avail (a_kern st))(fd_r h := Some (n - length bs))" "peer k' = peer (a_kern st)"
      using ends_lawsD(4) [OF L less.prems] by blast
    show ?thesis
    proof (cases "n < 16")
      case True
      then show ?thesis using neg r by (subst efd_unsignal_with.simps) (simp add: c_read_def)
    next
      case big: False
      then have "efd_unsignal_with get h st = efd_unsignal_with get h (st\<lparr>a_kern := k'\<rparr>)"
        using neg r by (subst efd_unsignal_with.simps) (simp add: c_read_def)
      moreover have "n - length bs < n" using r(2) False by simp
      ultimately show ?thesis using less.IH [of "n - length bs" "st\<lparr>a_kern := k'\<rparr>"] r by simp
    qed
  qed
qed

lemma ends_signal:
  assumes p: "ends_pending put get poll avail peer h st = Some n" "n < ends_max"
  shows "\<exists>st'. efd_signal_with put h st = Inr st' \<and> ends_pending put get poll avail peer h st' = Some (Suc n)"
proof -
  note d = ends_pendingD [OF p(1)]
  obtain k' where "put (a_kern st) (fd_w h) [101] = (k', Ret 1)" "avail k' = (avail (a_kern st))(fd_r h := Some (Suc n))"
      "peer k' = peer (a_kern st)" using ends_lawsD(3) [OF d p(2)] by blast
  moreover have "\<not> fd_w h < 0" by (rule ends_lawsD(2) [OF d])
  ultimately show ?thesis using d by (auto simp: efd_signal_with_def c_call_def ends_pending_def)
qed

lemma ends_unsignal:
  assumes p: "ends_pending put get poll avail peer h st = Some n"
  shows "\<exists>st'. returning (efd_unsignal_with get h st) = Inr st' \<and> ends_pending put get poll avail peer h st' = Some 0"
proof -
  note d = ends_pendingD [OF p]
  obtain st' where "efd_unsignal_with get h st = Some (Inr st')" "avail (a_kern st') (fd_r h) = Some 0" "peer (a_kern st') = peer (a_kern st)"
    using efd_unsignal_loop [OF d(1,3)] by blast
  then show ?thesis using d by (auto simp: returning_def ends_pending_def)
qed

lemma ends_wait:
  assumes p: "ends_pending put get (sys_poll_in P) avail peer h st = Some n" and t: "0 < n \<or> 0 \<le> t"
  shows "\<exists>st'. nn_efd_wait P (fd_r h) t st = Inr (if n = 0 then - c_ETIMEDOUT else 0, st') \<and>
    ends_pending put get (sys_poll_in P) avail peer h st' = Some n"
proof -
  note d = ends_pendingD [OF p]
  have "\<exists>k'. sys_poll_in P (a_kern st) (fd_r h) t = (k', Ret (if n = 0 then 0 else 1)) \<and> avail k' = avail (a_kern st) \<and> peer k' = peer (a_kern st)"
    using ends_lawsD(6) [OF d(1,3)] ends_lawsD(7) [OF d(1)] t d(3) by (cases "n = 0") auto
  then obtain k' where k: "sys_poll_in P (a_kern st) (fd_r h) t = (k', Ret (if n = 0 then 0 else 1))" "avail k' = avail (a_kern st)"
      "peer k' = peer (a_kern st)" by blast
  have "\<not> fd_r h < 0" by (rule ends_lawsD(1) [OF d(1,3)])
  from efd_wait_ret [OF this k(1)] show ?thesis using d k by (auto simp: ends_pending_def)
qed

abbreviation "pipe_pending P \<equiv> ends_pending (sys_write P) (sys_read P) (sys_poll_in P)"
abbreviation "pair_pending P \<equiv> ends_pending (sys_send P) (sys_recv P) (sys_poll_in P)"

interpretation pipe: idle_safe_channel "nn_efd_signal_pipe P h" "nn_efd_unsignal_pipe P h" "nn_efd_wait P (nn_efd_getfd_ends h)"
  "pipe_pending P avail peer h" ends_max for P h avail peer
proof
  fix s n assume p: "pipe_pending P avail peer h s = Some n"
  show "n < ends_max \<Longrightarrow> \<exists>s'. nn_efd_signal_pipe P h s = Inr s' \<and> pipe_pending P avail peer h s' = Some (Suc n)"
    using ends_signal [OF p] by (simp add: nn_efd_signal_pipe_def)
  show "\<exists>s'. nn_efd_unsignal_pipe P h s = Inr s' \<and> pipe_pending P avail peer h s' = Some 0"
    using ends_unsignal [OF p] by (simp add: nn_efd_unsignal_pipe_def)
  show "\<exists>s'. nn_efd_wait P (nn_efd_getfd_ends h) t s = Inr (0, s') \<and> pipe_pending P avail peer h s' = Some n" if "0 < n" for t
    using ends_wait [OF p, of t] that by (simp add: nn_efd_getfd_ends_def)
next
  fix s assume p: "pipe_pending P avail peer h s = Some 0"
  show "\<exists>s'. nn_efd_unsignal_pipe P h s = Inr s' \<and> pipe_pending P avail peer h s' = Some 0"
    using ends_unsignal [OF p] by (simp add: nn_efd_unsignal_pipe_def)
  show "\<exists>s'. nn_efd_wait P (nn_efd_getfd_ends h) t s = Inr (- c_ETIMEDOUT, s') \<and> pipe_pending P avail peer h s' = Some 0" if "0 \<le> t" for t
    using ends_wait [OF p, of t] that by (simp add: nn_efd_getfd_ends_def)
qed

interpretation pair: idle_safe_channel "nn_efd_signal_pair P h" "nn_efd_unsignal_pair P h" "nn_efd_wait P (nn_efd_getfd_ends h)"
  "pair_pending P avail peer h" ends_max for P h avail peer
proof
  fix s n assume p: "pair_pending P avail peer h s = Some n"
  show "n < ends_max \<Longrightarrow> \<exists>s'. nn_efd_signal_pair P h s = Inr s' \<and> pair_pending P avail peer h s' = Some (Suc n)"
    using ends_signal [OF p] by (simp add: nn_efd_signal_pair_def)
  show "\<exists>s'. nn_efd_unsignal_pair P h s = Inr s' \<and> pair_pending P avail peer h s' = Some 0"
    using ends_unsignal [OF p] by (simp add: nn_efd_unsignal_pair_def)
  show "\<exists>s'. nn_efd_wait P (nn_efd_getfd_ends h) t s = Inr (0, s') \<and> pair_pending P avail peer h s' = Some n" if "0 < n" for t
    using ends_wait [OF p, of t] that by (simp add: nn_efd_getfd_ends_def)
next
  fix s assume p: "pair_pending P avail peer h s = Some 0"
  show "\<exists>s'. nn_efd_unsignal_pair P h s = Inr s' \<and> pair_pending P avail peer h s' = Some 0"
    using ends_unsignal [OF p] by (simp add: nn_efd_unsignal_pair_def)
  show "\<exists>s'. nn_efd_wait P (nn_efd_getfd_ends h) t s = Inr (- c_ETIMEDOUT, s') \<and> pair_pending P avail peer h s' = Some 0" if "0 \<le> t" for t
    using ends_wait [OF p, of t] that by (simp add: nn_efd_getfd_ends_def)
qed


subsection \<open>Properties\<close>

text \<open>
  on an eventfd signals collapse: however many times it was signalled since it was last
  taken, a wait returns at once, one \<open>nn_efd_unsignal\<close> takes all of them, and the next wait
  times out.
\<close>

theorem eventfd_signals_collapse:
  assumes "eventfd_laws P cnt" "cnt (a_kern st) fd = Some m" "0 < m + n" "m + n \<le> eventfd_max" "0 \<le> t'"
  shows "\<exists>s1 s2 s3 s4. repeat_step n (nn_efd_signal_ev P fd) st = Inr s1 \<and> nn_efd_wait P fd t s1 = Inr (0, s2) \<and>
    nn_efd_unsignal_ev P fd s2 = Inr s3 \<and> nn_efd_wait P fd t' s3 = Inr (- c_ETIMEDOUT, s4)"
proof -
  have "ev_pending P cnt fd st = Some m" using assms(1,2) by (simp add: ev_pending_def)
  from eventfd.signals_collapse [OF this assms(3-5)] show ?thesis by blast
qed

text \<open>
  the same on a pipe: the loop of \<open>nn_efd_unsignal\<close>, which reads 16 bytes at a time, ends
  and leaves the pipe empty, however many bytes were in it.
\<close>

theorem pipe_signals_collapse:
  assumes "ends_laws (sys_write P) (sys_read P) (sys_poll_in P) avail peer"
    and "peer (a_kern st) (fd_w h) = Some (fd_r h)" "avail (a_kern st) (fd_r h) = Some m"
    and "0 < m + n" "m + n \<le> ends_max" "0 \<le> t'"
  shows "\<exists>s1 s2 s3 s4. repeat_step n (nn_efd_signal_pipe P h) st = Inr s1 \<and> nn_efd_wait P (nn_efd_getfd_ends h) t s1 = Inr (0, s2) \<and>
    nn_efd_unsignal_pipe P h s2 = Inr s3 \<and> avail (a_kern s3) (fd_r h) = Some 0 \<and>
    nn_efd_wait P (nn_efd_getfd_ends h) t' s3 = Inr (- c_ETIMEDOUT, s4)"
proof -
  have p: "pipe_pending P avail peer h st = Some m" using assms(1-3) by (simp add: ends_pending_def)
  obtain s1 where 1: "repeat_step n (nn_efd_signal_pipe P h) st = Inr s1" "pipe_pending P avail peer h s1 = Some (m + n)"
    using pipe.signals_add [OF p assms(5)] by blast
  obtain s2 where 2: "nn_efd_wait P (nn_efd_getfd_ends h) t s1 = Inr (0, s2)" "pipe_pending P avail peer h s2 = Some (m + n)"
    using pipe.wait_signalled [OF 1(2) assms(4)] by blast
  obtain s3 where 3: "nn_efd_unsignal_pipe P h s2 = Inr s3" "pipe_pending P avail peer h s3 = Some 0"
    using pipe.unsignal_any [OF 2(2)] by blast
  show ?thesis using 1(1) 2(1) 3(1) ends_pendingD(3) [OF 3(2)] pipe.wait_quiet [OF 3(2) assms(6)] by blast
qed

text \<open>
  the variants do not agree on a channel that is not signalled: taking nothing from a pipe or a
  socket pair is harmless, on an eventfd it ends the process.
\<close>

theorem unsignal_of_quiet_channel:
  assumes "eventfd_laws P cnt" "cnt (a_kern st) fd = Some 0"
    and "ends_laws (sys_write Q) (sys_read Q) (sys_poll_in Q) avail peer"
    and "peer (a_kern sq) (fd_w h) = Some (fd_r h)" "avail (a_kern sq) (fd_r h) = Some 0"
  shows "nn_efd_unsignal_ev P fd st = Inl Abort \<and> (\<exists>sq'. nn_efd_unsignal_pipe Q h sq = Inr sq')"
proof
  obtain k' where "sys_read P (a_kern st) fd 8 = (k', Inl EAGAIN)" using eventfd_lawsD(4) [OF assms(1,2) refl] by blast
  then show "nn_efd_unsignal_ev P fd st = Inl Abort"
    using eventfd_lawsD(1) [OF assms(1,2)] by (simp add: nn_efd_unsignal_ev_def c_read_def assert_that_def)
  have "pipe_pending Q avail peer h sq = Some 0" using assms(3-5) by (simp add: ends_pending_def)
  then show "\<exists>sq'. nn_efd_unsignal_pipe Q h sq = Inr sq'" using pipe.unsignal_any by blast
qed

text \<open>A kernel with eventfds and pipes for the witnesses; every other call fails.\<close>

record signal_kernel =
  sk_cnt :: "int \<Rightarrow> nat option"
  sk_avail :: "int \<Rightarrow> nat option"
  sk_peer :: "int \<Rightarrow> int option"

definition signal_posix :: "bool \<Rightarrow> signal_kernel posix" where
  "signal_posix ev = \<lparr>
     sys_socket = \<lambda>k f t p. (k, Err EBADF), sys_close = \<lambda>k fd. (k, Ret 0), sys_setsockopt = \<lambda>k fd opt vs. (k, Err EBADF),
     sys_getfl = \<lambda>k fd. (k, Ret 2), sys_setfl = \<lambda>k fd w. (k, Ret 0), sys_bind = \<lambda>k fd sa. (k, Err EBADF),
     sys_listen = \<lambda>k fd n. (k, Err EBADF), sys_connect = \<lambda>k fd sa. (k, Err EBADF),
     sys_accept = \<lambda>k fd. (k, Err EAGAIN, Sa_other), sys_getpeername = \<lambda>k fd. (k, Err EBADF, Sa_other),
     sys_getsockname = \<lambda>k fd. (k, Err EBADF, Sa_other), sys_chmod = \<lambda>k p m. (k, Err EBADF),
     sys_read = \<lambda>k fd n.
       (if ev then (if sk_cnt k fd = Some 0 then (k, Inl EAGAIN) else (k\<lparr>sk_cnt := (sk_cnt k)(fd := Some 0)\<rparr>, Inr (replicate n 0)))
        else case sk_avail k fd of
               None \<Rightarrow> (k, Inl EBADF)
             | Some m \<Rightarrow> if m = 0 then (k, Inl EAGAIN)
                         else (k\<lparr>sk_avail := (sk_avail k)(fd := Some (m - min n m))\<rparr>, Inr (replicate (min n m) 101))),
     sys_write = \<lambda>k fd bs.
       (if ev then (k\<lparr>sk_cnt := (sk_cnt k)(fd := map_option Suc (sk_cnt k fd))\<rparr>, Ret (int (length bs)))
        else case sk_peer k fd of
               None \<Rightarrow> (k, Err EBADF)
             | Some r \<Rightarrow> (k\<lparr>sk_avail := (sk_avail k)(r := map_option Suc (sk_avail k r))\<rparr>, Ret 1)),
     sys_poll_in = \<lambda>k fd t. (k, Ret (if (if ev then sk_cnt k fd else sk_avail k fd) = Some 0 then 0 else 1)),
     sys_eventfd = \<lambda>k. (k, Err EMFILE), sys_pipe = \<lambda>k. (k, Inl EMFILE), sys_socketpair = \<lambda>k. (k, Inl EMFILE),
     sys_setfd = \<lambda>k fd. (k, Ret 0), sys_send = \<lambda>k fd bs. (k, Err EBADF), sys_recv = \<lambda>k fd n. (k, Inl EBADF),
     sys_getaddrinfo = \<lambda>k h sv hs. (k, Inl 1), os_strerror = \<lambda>e. ''failed'', os_gai_strerror = \<lambda>n. ''unknown''\<rparr>"

definition on_fds :: "(int \<Rightarrow> 'a option) \<Rightarrow> int \<Rightarrow> 'a option" where
  "on_fds f fd = (if 0 \<le> fd then f fd else None)"

lemma on_fds_Some [simp]: "on_fds f fd = Some n \<longleftrightarrow> 0 \<le> fd \<and> f fd = Some n"
  by (simp add: on_fds_def)

lemma on_fds_upd [simp]: "0 \<le> fd \<Longrightarrow> on_fds (f(fd := v)) = (on_fds f)(fd := v)"
  by (rule ext) (simp add: on_fds_def)

lemma signal_eventfds: "eventfd_laws (signal_posix True) (\<lambda>k. on_fds (sk_cnt k))"
  unfolding eventfd_laws_def by (auto simp: signal_posix_def efd_one_def)

lemma signal_pipes:
  "ends_laws (sys_write (signal_posix False)) (sys_read (signal_posix False)) (sys_poll_in (signal_posix False))
     (\<lambda>k. on_fds (sk_avail k)) (\<lambda>k. on_fds (sk_peer k))"
  unfolding ends_laws_def by (auto simp: signal_posix_def)

definition signal_anet :: "signal_kernel anet" where
  "signal_anet = \<lparr>a_kern = \<lparr>sk_cnt = [3 \<mapsto> 0], sk_avail = [4 \<mapsto> 0], sk_peer = [5 \<mapsto> 4]\<rparr>, a_errno = EINVAL, a_err = None\<rparr>"

theorem eventfd_signals_collapse_witness:
  "\<exists>s1 s2 s3 s4. repeat_step 3 (nn_efd_signal_ev (signal_posix True) 3) signal_anet = Inr s1 \<and>
     nn_efd_wait (signal_posix True) 3 0 s1 = Inr (0, s2) \<and> nn_efd_unsignal_ev (signal_posix True) 3 s2 = Inr s3 \<and>
     nn_efd_wait (signal_posix True) 3 0 s3 = Inr (- c_ETIMEDOUT, s4)"
  by (rule eventfd_signals_collapse [OF signal_eventfds, where m = 0]) (simp_all add: signal_anet_def eventfd_max_def)

theorem pipe_signals_collapse_witness:
  "\<exists>s1 s2 s3 s4. repeat_step 40 (nn_efd_signal_pipe (signal_posix False) \<lparr>fd_r = 4, fd_w = 5\<rparr>) signal_anet = Inr s1 \<and>
     nn_efd_wait (signal_posix False) (nn_efd_getfd_ends \<lparr>fd_r = 4, fd_w = 5\<rparr>) 0 s1 = Inr (0, s2) \<and>
     nn_efd_unsignal_pipe (signal_posix False) \<lparr>fd_r = 4, fd_w = 5\<rparr> s2 = Inr s3 \<and>
     on_fds (sk_avail (a_kern s3)) (fd_r \<lparr>fd_r = 4, fd_w = 5\<rparr>) = Some 0 \<and>
     nn_efd_wait (signal_posix False) (nn_efd_getfd_ends \<lparr>fd_r = 4, fd_w = 5\<rparr>) 0 s3 = Inr (- c_ETIMEDOUT, s4)"
  by (rule pipe_signals_collapse [OF signal_pipes, where m = 0]) (simp_all add: signal_anet_def ends_max_def)

theorem unsignal_of_quiet_channel_witness:
  "nn_efd_unsignal_ev (signal_posix True) 3 signal_anet = Inl Abort \<and>
   (\<exists>sq'. nn_efd_unsignal_pipe (signal_posix False) \<lparr>fd_r = 4, fd_w = 5\<rparr> signal_anet = Inr sq')"
  by (rule unsignal_of_quiet_channel [OF signal_eventfds _ signal_pipes]) (simp_all add: signal_anet_def)


subsection \<open>The sockets' signals are the eventfd variant\<close>

text \<open>
  The socket layer's memory and a kernel agree on the socket at \<open>a\<close>: its descriptor is \<open>fd\<close>, and if there
  is one, it is an eventfd whose counter is the number of signals the socket model counts.
\<close>

definition efd_sim :: "'k posix \<Rightarrow> ('k \<Rightarrow> int \<Rightarrow> nat option) \<Rightarrow> nat \<Rightarrow> int \<Rightarrow> 'x world \<Rightarrow> 'k anet \<Rightarrow> bool" where
  "efd_sim P cnt a fd w st \<longleftrightarrow>
     (\<exists>s. w_heap w a = Some s \<and> s_efd s = fd \<and> (0 \<le> fd \<longrightarrow> eventfd_laws P cnt \<and> cnt (a_kern st) fd = Some (s_sigs s)))"

text \<open>
  C34: the signalling operations of the socket model are refined by the eventfd variant: from
  states that agree, \<open>nn_efd_signal\<close> and \<open>nn_efd_unsignal\<close> end the same way, with agreeing
  states or in the same abort.
\<close>

theorem socket_signals_refined:
  assumes sim: "efd_sim P cnt a fd w st" and room: "\<And>s. w_heap w a = Some s \<Longrightarrow> s_sigs s < eventfd_max"
  shows "rel_sum (=) (efd_sim P cnt a fd) (sock_efd_signal a w) (nn_efd_signal_ev P fd st) \<and>
    rel_sum (=) (efd_sim P cnt a fd) (sock_efd_unsignal a w) (nn_efd_unsignal_ev P fd st)"
proof -
  obtain s where s: "w_heap w a = Some s" "s_efd s = fd" "0 \<le> fd \<Longrightarrow> eventfd_laws P cnt \<and> cnt (a_kern st) fd = Some (s_sigs s)"
    using sim by (auto simp: efd_sim_def)
  show ?thesis
  proof (cases "fd < 0")
    case True
    then show ?thesis using s sim
      by (simp add: sock_efd_signal_def sock_efd_unsignal_def nn_efd_signal_ev_def nn_efd_unsignal_ev_def sock_at_def)
  next
    case False
    with s(3) have l: "eventfd_laws P cnt" and c: "cnt (a_kern st) fd = Some (s_sigs s)" by auto
    note L = eventfd_lawsD [OF l c]
    obtain k1 where k1: "sys_write P (a_kern st) fd efd_one = (k1, Ret 8)" "cnt k1 = (cnt (a_kern st))(fd := Some (Suc (s_sigs s)))"
      using L(2) [OF room [OF s(1)]] by blast
    have "rel_sum (=) (efd_sim P cnt a fd) (sock_efd_signal a w) (nn_efd_signal_ev P fd st)"
      using False s k1 l by (simp add: sock_efd_signal_def nn_efd_signal_ev_def sock_at_def c_call_def efd_sim_def log_eff_def sock_put_def)
    moreover have "rel_sum (=) (efd_sim P cnt a fd) (sock_efd_unsignal a w) (nn_efd_unsignal_ev P fd st)"
    proof (cases "s_sigs s = 0")
      case True
      then obtain k2 where "sys_read P (a_kern st) fd 8 = (k2, Inl EAGAIN)" using L(4) by blast
      then show ?thesis using False s True
        by (simp add: sock_efd_unsignal_def nn_efd_unsignal_ev_def sock_at_def c_read_def assert_that_def)
    next
      case pos: False
      then obtain k2 bs where "sys_read P (a_kern st) fd 8 = (k2, Inr bs)" "length bs = 8" "cnt k2 = (cnt (a_kern st))(fd := Some 0)"
        using L(3) by blast
      then show ?thesis using False s pos l
        by (simp add: sock_efd_unsignal_def nn_efd_unsignal_ev_def sock_at_def c_read_def efd_sim_def sock_put_def)
    qed
    ultimately show ?thesis by blast
  qed
qed

theorem socket_signals_refined_witness:
  "rel_sum (=) (efd_sim (signal_posix True) (\<lambda>k. on_fds (sk_cnt k)) 0 3) (sock_efd_signal 0 example_world)
     (nn_efd_signal_ev (signal_posix True) 3 signal_anet)"
proof -
  have "efd_sim (signal_posix True) (\<lambda>k. on_fds (sk_cnt k)) 0 3 example_world signal_anet"
    using signal_eventfds by (simp add: efd_sim_def example_base_def example_sock_def signal_anet_def)
  from socket_signals_refined [OF this] show ?thesis by (simp add: example_base_def example_sock_def eventfd_max_def)
qed

end
