(* ===== verification/Support.thy ===== *)
theory Support
  imports Prelude
begin

text \<open>
  Two supporting modules that the sources keep but the build leaves out: the error texts and
  error translations of \<open>utils/err.h\<close> and \<open>utils/err.c\<close>, and the stopwatch of \<open>utils/stopwatch.h\<close>
  and \<open>utils/stopwatch.c\<close>.
\<close>

subsection \<open>Error numbers\<close>

text \<open>
  The error numbers the two tables name; \<open>ETERM\<close> and \<open>EFSM\<close> come from a header that is not included,
  so the file does not compile as it is. \<open>E_num\<close> is any other number.
\<close>

datatype posix_err =
    E_NOTSUP | E_PROTONOSUPPORT | E_NOBUFS | E_NETDOWN | E_ADDRINUSE | E_ADDRNOTAVAIL | E_CONNREFUSED
  | E_INPROGRESS | E_NOTSOCK | E_AFNOSUPPORT | E_PROTO | E_AGAIN | E_BADF | E_INVAL | E_MFILE | E_FAULT
  | E_ACCES | E_NETRESET | E_NETUNREACH | E_HOSTUNREACH | E_NOTCONN | E_MSGSIZE | E_TIMEDOUT | E_CONNABORTED
  | E_CONNRESET | E_NOPROTOOPT | E_ISCONN | E_SOCKTNOSUPPORT | E_PIPE | E_INTR | E_TERM | E_FSM | E_num int

text \<open>\<open>windows\<close> is \<open>NN_HAVE_WINDOWS\<close>, and \<open>strerror\<close> the text of the C library.\<close>

fun win_strerror :: "posix_err \<Rightarrow> string option" where
  "win_strerror E_NOTSUP = Some ''Not supported''"
| "win_strerror E_PROTONOSUPPORT = Some ''Protocol not supported''"
| "win_strerror E_NOBUFS = Some ''No buffer space available''"
| "win_strerror E_NETDOWN = Some ''Network is down''"
| "win_strerror E_ADDRINUSE = Some ''Address in use''"
| "win_strerror E_ADDRNOTAVAIL = Some ''Address not available''"
| "win_strerror E_CONNREFUSED = Some ''Connection refused''"
| "win_strerror E_INPROGRESS = Some ''Operation in progress''"
| "win_strerror E_NOTSOCK = Some ''Not a socket''"
| "win_strerror E_AFNOSUPPORT = Some ''Address family not supported''"
| "win_strerror E_PROTO = Some ''Protocol error''"
| "win_strerror E_AGAIN = Some ''Resource unavailable, try again''"
| "win_strerror E_BADF = Some ''Bad file descriptor''"
| "win_strerror E_INVAL = Some ''Invalid argument''"
| "win_strerror E_MFILE = Some ''Too many open files''"
| "win_strerror E_FAULT = Some ''Bad address''"
| "win_strerror E_ACCES = Some ''Permission denied''"
| "win_strerror E_NETRESET = Some ''Connection aborted by network''"
| "win_strerror E_NETUNREACH = Some ''Network unreachable''"
| "win_strerror E_HOSTUNREACH = Some ''Host is unreachable''"
| "win_strerror E_NOTCONN = Some ''The socket is not connected''"
| "win_strerror E_MSGSIZE = Some ''Message too large''"
| "win_strerror E_TIMEDOUT = Some ''Timed out''"
| "win_strerror E_CONNABORTED = Some ''Connection aborted''"
| "win_strerror E_CONNRESET = Some ''Connection reset''"
| "win_strerror E_NOPROTOOPT = Some ''Protocol not available''"
| "win_strerror E_ISCONN = Some ''Socket is connected''"
| "win_strerror _ = None"

definition nn_err_strerror :: "bool \<Rightarrow> (posix_err \<Rightarrow> string) \<Rightarrow> posix_err \<Rightarrow> string" where
  "nn_err_strerror windows strerror e =
     (case (if windows then win_strerror e else None) of
        Some t \<Rightarrow> t
      | None \<Rightarrow>
          if e = E_TERM then ''Nanomsg library was terminated''
          else if e = E_FSM then ''Operation cannot be performed in this state''
          else strerror e)"

text \<open>The Windows codes the translation names; \<open>WSA_num\<close> is any other, \<open>WSAEINTR\<close> among them.\<close>

datatype wsa_err =
    WSAEINPROGRESS | WSAEBADF | WSAEINVAL | WSAEMFILE | WSAEFAULT | WSAEPROTONOSUPPORT | WSAENOBUFS
  | WSAENETDOWN | WSAEADDRINUSE | WSAEADDRNOTAVAIL | WSAEAFNOSUPPORT | WSAEACCES | WSAENETRESET
  | WSAENETUNREACH | WSAEHOSTUNREACH | WSAENOTCONN | WSAEMSGSIZE | WSAETIMEDOUT | WSAECONNREFUSED
  | WSAECONNABORTED | WSAECONNRESET | WSAENOTSOCK | ERROR_BROKEN_PIPE | WSAESOCKTNOSUPPORT
  | ERROR_NOT_CONNECTED | ERROR_PIPE_NOT_CONNECTED | ERROR_NO_DATA | WSA_num int

fun nn_err_wsa_to_posix :: "wsa_err \<Rightarrow> fault + posix_err" where
  "nn_err_wsa_to_posix WSAEINPROGRESS = Inr E_AGAIN"
| "nn_err_wsa_to_posix WSAEBADF = Inr E_BADF"
| "nn_err_wsa_to_posix WSAEINVAL = Inr E_INVAL"
| "nn_err_wsa_to_posix WSAEMFILE = Inr E_MFILE"
| "nn_err_wsa_to_posix WSAEFAULT = Inr E_FAULT"
| "nn_err_wsa_to_posix WSAEPROTONOSUPPORT = Inr E_PROTONOSUPPORT"
| "nn_err_wsa_to_posix WSAENOBUFS = Inr E_NOBUFS"
| "nn_err_wsa_to_posix WSAENETDOWN = Inr E_NETDOWN"
| "nn_err_wsa_to_posix WSAEADDRINUSE = Inr E_ADDRINUSE"
| "nn_err_wsa_to_posix WSAEADDRNOTAVAIL = Inr E_ADDRNOTAVAIL"
| "nn_err_wsa_to_posix WSAEAFNOSUPPORT = Inr E_AFNOSUPPORT"
| "nn_err_wsa_to_posix WSAEACCES = Inr E_ACCES"
| "nn_err_wsa_to_posix WSAENETRESET = Inr E_NETRESET"
| "nn_err_wsa_to_posix WSAENETUNREACH = Inr E_NETUNREACH"
| "nn_err_wsa_to_posix WSAEHOSTUNREACH = Inr E_HOSTUNREACH"
| "nn_err_wsa_to_posix WSAENOTCONN = Inr E_NOTCONN"
| "nn_err_wsa_to_posix WSAEMSGSIZE = Inr E_MSGSIZE"
| "nn_err_wsa_to_posix WSAETIMEDOUT = Inr E_TIMEDOUT"
| "nn_err_wsa_to_posix WSAECONNREFUSED = Inr E_CONNREFUSED"
| "nn_err_wsa_to_posix WSAECONNABORTED = Inr E_CONNABORTED"
| "nn_err_wsa_to_posix WSAECONNRESET = Inr E_CONNRESET"
| "nn_err_wsa_to_posix WSAENOTSOCK = Inr E_NOTSOCK"
| "nn_err_wsa_to_posix ERROR_BROKEN_PIPE = Inr E_CONNRESET"
| "nn_err_wsa_to_posix WSAESOCKTNOSUPPORT = Inr E_SOCKTNOSUPPORT"
| "nn_err_wsa_to_posix ERROR_NOT_CONNECTED = Inr E_NOTCONN"
| "nn_err_wsa_to_posix ERROR_PIPE_NOT_CONNECTED = Inr E_NOTCONN"
| "nn_err_wsa_to_posix ERROR_NO_DATA = Inr E_PIPE"
| "nn_err_wsa_to_posix (WSA_num n) = Inl Abort"

text \<open>
  \<open>nn_efd_wait\<close> of \<open>utils/efd.c\<close> for Windows, on the result of \<open>select\<close>: \<open>Inl\<close> the code of
  \<open>WSAGetLastError\<close> when it failed, or the number of descriptors. The results are -EBADF, -EINTR,
  -ETIMEDOUT and 0.
\<close>

datatype wait_result = Wait_ok | Wait_error posix_err

definition nn_efd_wait_win :: "int \<Rightarrow> wsa_err + int \<Rightarrow> fault + wait_result" where
  "nn_efd_wait_win fd sel =
     (if fd < 0 then Inr (Wait_error E_BADF) else
      case sel of
        Inl wsa \<Rightarrow>
          rbind (nn_err_wsa_to_posix wsa) (\<lambda>rc.
          \<comment> \<open>\<open>rc\<close> now holds the positive error number, so the assertion that follows holds\<close>
          if rc = E_INTR \<or> rc = E_NOTSOCK then Inr (Wait_error E_INTR) else Inr Wait_ok)
      | Inr n \<Rightarrow>
          rbind (assert_that (n \<ge> 0)) (\<lambda>_. Inr (if n = 0 then Wait_error E_TIMEDOUT else Wait_ok)))"

text \<open>
  On Windows a \<open>select\<close> that failed is never reported as the failure it was: the code for an interrupted
  call is not in the translation, so it aborts, a closed socket comes out as an interruption, and
  every other failure that is translated comes out as success, because the variable that is
  checked afterwards was overwritten with the positive error number.
\<close>

theorem efd_wait_win_failures:
  assumes fd: "0 \<le> fd"
  shows "nn_efd_wait_win fd (Inl wsa) =
    (if nn_err_wsa_to_posix wsa = Inl Abort then Inl Abort
     else if wsa = WSAENOTSOCK then Inr (Wait_error E_INTR) else Inr Wait_ok)"
  using fd by (cases wsa) (simp_all add: nn_efd_wait_win_def)

theorem efd_wait_win_failures_witness: "nn_efd_wait_win 3 (Inl WSAENETDOWN) = Inr Wait_ok"
  by (subst efd_wait_win_failures) simp_all

subsection \<open>The error numbers of the public header\<close>

text \<open>
  \<open>fsock.h\<close> gives a number to every error name the platform does not define. \<open>platform\<close> says which it
  defines, and how. \<open>EACCESS\<close> is another name of \<open>EACCES\<close>.
\<close>

definition FSOCK_HAUSNUMERO :: int where "FSOCK_HAUSNUMERO = 156384712"

fun fsock_fallback :: "posix_err \<Rightarrow> int option" where
  "fsock_fallback E_NOTSUP = Some (FSOCK_HAUSNUMERO + 1)"
| "fsock_fallback E_PROTONOSUPPORT = Some (FSOCK_HAUSNUMERO + 2)"
| "fsock_fallback E_NOBUFS = Some (FSOCK_HAUSNUMERO + 3)"
| "fsock_fallback E_NETDOWN = Some (FSOCK_HAUSNUMERO + 4)"
| "fsock_fallback E_ADDRINUSE = Some (FSOCK_HAUSNUMERO + 5)"
| "fsock_fallback E_ADDRNOTAVAIL = Some (FSOCK_HAUSNUMERO + 6)"
| "fsock_fallback E_CONNREFUSED = Some (FSOCK_HAUSNUMERO + 7)"
| "fsock_fallback E_INPROGRESS = Some (FSOCK_HAUSNUMERO + 8)"
| "fsock_fallback E_NOTSOCK = Some (FSOCK_HAUSNUMERO + 9)"
| "fsock_fallback E_AFNOSUPPORT = Some (FSOCK_HAUSNUMERO + 10)"
| "fsock_fallback E_PROTO = Some (FSOCK_HAUSNUMERO + 11)"
| "fsock_fallback E_AGAIN = Some (FSOCK_HAUSNUMERO + 12)"
| "fsock_fallback E_BADF = Some (FSOCK_HAUSNUMERO + 13)"
| "fsock_fallback E_INVAL = Some (FSOCK_HAUSNUMERO + 14)"
| "fsock_fallback E_MFILE = Some (FSOCK_HAUSNUMERO + 15)"
| "fsock_fallback E_FAULT = Some (FSOCK_HAUSNUMERO + 16)"
| "fsock_fallback E_ACCES = Some (FSOCK_HAUSNUMERO + 17)"
| "fsock_fallback E_NETRESET = Some (FSOCK_HAUSNUMERO + 18)"
| "fsock_fallback E_NETUNREACH = Some (FSOCK_HAUSNUMERO + 19)"
| "fsock_fallback E_HOSTUNREACH = Some (FSOCK_HAUSNUMERO + 20)"
| "fsock_fallback E_NOTCONN = Some (FSOCK_HAUSNUMERO + 21)"
| "fsock_fallback E_MSGSIZE = Some (FSOCK_HAUSNUMERO + 22)"
| "fsock_fallback E_TIMEDOUT = Some (FSOCK_HAUSNUMERO + 23)"
| "fsock_fallback E_CONNABORTED = Some (FSOCK_HAUSNUMERO + 24)"
| "fsock_fallback E_CONNRESET = Some (FSOCK_HAUSNUMERO + 25)"
| "fsock_fallback E_NOPROTOOPT = Some (FSOCK_HAUSNUMERO + 26)"
| "fsock_fallback E_ISCONN = Some (FSOCK_HAUSNUMERO + 27)"
| "fsock_fallback E_SOCKTNOSUPPORT = Some (FSOCK_HAUSNUMERO + 28)"
| "fsock_fallback _ = None"

definition fsock_errno :: "(posix_err \<Rightarrow> int option) \<Rightarrow> posix_err \<Rightarrow> int option" where
  "fsock_errno platform e = (case platform e of Some n \<Rightarrow> Some n | None \<Rightarrow> fsock_fallback e)"

definition EFTERM :: "int option \<Rightarrow> int" where
  "EFTERM platform = (case platform of Some n \<Rightarrow> n | None \<Rightarrow> FSOCK_HAUSNUMERO + 53)"

text \<open>
  Two names never share a number, unless the platform gives them one number, or gives one the number that
  another falls back to.
\<close>

lemma fsock_fallback_inj: "fsock_fallback e = Some n \<Longrightarrow> fsock_fallback e' = Some n \<Longrightarrow> e = e'"
  by (cases e; simp; cases e'; simp)

lemma fsock_fallback_range: "fsock_fallback e = Some n \<Longrightarrow> FSOCK_HAUSNUMERO < n \<and> n \<le> FSOCK_HAUSNUMERO + 28"
  by (cases e) auto

lemma fsock_errno_distinct:
  assumes "\<And>e e' n. platform e = Some n \<Longrightarrow> platform e' = Some n \<Longrightarrow> e = e'"
    and "\<And>e n. platform e = Some n \<Longrightarrow> n < FSOCK_HAUSNUMERO"
    and "fsock_errno platform e = Some n" "fsock_errno platform e' = Some n"
  shows "e = e'"
  using assms(1) [of e n e'] assms(2) [of e n] assms(2) [of e' n] assms(3,4) fsock_fallback_inj [of e n e']
    fsock_fallback_range [of e n] fsock_fallback_range [of e' n]
  by (auto simp: fsock_errno_def split: option.splits)

subsection \<open>The stopwatch\<close>

text \<open>A \<open>struct timeval\<close>, seconds and microseconds, as microseconds in 64 bits.\<close>

definition stopwatch_us :: "int \<times> int \<Rightarrow> 64 word" where
  "stopwatch_us tv = (case tv of (sec, usec) \<Rightarrow> word_of_int sec * 1000000 + word_of_int usec)"

definition nn_stopwatch_init :: "(int \<times> int) option \<Rightarrow> fault + 64 word" where
  "nn_stopwatch_init tv = (case tv of None \<Rightarrow> Inl Abort | Some t \<Rightarrow> Inr (stopwatch_us t))"

definition nn_stopwatch_term :: "64 word \<Rightarrow> (int \<times> int) option \<Rightarrow> fault + 64 word" where
  "nn_stopwatch_term start tv = (case tv of None \<Rightarrow> Inl Abort | Some t \<Rightarrow> Inr (stopwatch_us t - start))"

text \<open>On Windows: ticks of a counter, and their number per second. The product wraps around.\<close>

definition nn_stopwatch_init_win :: "int \<Rightarrow> 64 word" where
  "nn_stopwatch_init_win ticks = word_of_int ticks"

definition nn_stopwatch_term_win :: "64 word \<Rightarrow> int \<Rightarrow> int \<Rightarrow> fault + 64 word" where
  "nn_stopwatch_term_win start ticks tps =
     (if (word_of_int tps :: 64 word) = 0 then Inl Abort
      else Inr (((word_of_int ticks - start) * 1000000) div word_of_int tps))"

lemma stopwatch_us_of_int: "stopwatch_us (s, u) = word_of_int (s * 1000000 + u)"
  by (simp add: stopwatch_us_def)

text \<open>
  The stopwatch shows the microseconds between the two times exactly, even when the
  times themselves do not fit 64 bits of microseconds, as long as the difference does.
\<close>

theorem stopwatch_exact:
  assumes order: "s * 1000000 + u \<le> s' * 1000000 + u'" and fits: "(s' - s) * 1000000 + (u' - u) < 2 ^ 64"
  shows "\<exists>start. nn_stopwatch_init (Some (s, u)) = Inr start \<and>
    (\<exists>t. nn_stopwatch_term start (Some (s', u')) = Inr t \<and> uint t = (s' - s) * 1000000 + (u' - u))"
proof -
  have "stopwatch_us (s', u') - stopwatch_us (s, u) = word_of_int ((s' - s) * 1000000 + (u' - u))"
    unfolding stopwatch_us_of_int wi_hom_sub by (simp add: algebra_simps)
  moreover have "uint (word_of_int d :: 64 word) = d" if "0 \<le> d" "d < 2 ^ 64" for d
    using that by (simp add: uint_word_of_int)
  then have "uint (word_of_int ((s' - s) * 1000000 + (u' - u)) :: 64 word) = (s' - s) * 1000000 + (u' - u)"
    using order fits by (simp only: algebra_simps)
  ultimately show ?thesis by (simp add: nn_stopwatch_init_def nn_stopwatch_term_def del: of_int_add of_int_diff of_int_mult)
qed

theorem stopwatch_exact_witness:
  "\<exists>start. nn_stopwatch_init (Some (10, 999999)) = Inr start \<and>
    (\<exists>t. nn_stopwatch_term start (Some (12, 1)) = Inr t \<and> uint t = 1000002)"
  using stopwatch_exact [of 10 999999 12 1] by simp

end
