(* ===== verification/EfdWin.thy ===== *)
theory EfdWin
  imports Efd Support
begin

text \<open>
  The event descriptor of Windows, \<open>utils/efd_win.inc\<close>: two ends of a TCP connection of the
  process with itself, made inside a system-wide critical section. The Windows calls are a
  record of functions over a kernel state, and the state of a call also holds the value of
  \<open>WSAGetLastError\<close>. \<open>INVALID_SOCKET\<close> is \<open>None\<close>.
\<close>

subsection \<open>The calls\<close>

datatype wait_status = Wait_object | Wait_abandoned | Wait_timeout | Wait_failed wsa_err

datatype win_opt = Win_reuseaddr | Win_nodelay

text \<open>
  A call that can fail returns the error code, if any. \<open>win_accept\<close> gives the socket, whether the address has the
  expected length, and whether it is the loopback address.
\<close>

record 'k winapi =
  win_init_sd :: "'k \<Rightarrow> 'k \<times> bool"
  win_set_dacl :: "'k \<Rightarrow> 'k \<times> bool"
  win_mutex :: "'k \<Rightarrow> 'k \<times> int option"
  win_wait_for :: "'k \<Rightarrow> int \<Rightarrow> int \<Rightarrow> 'k \<times> wait_status"
  win_release :: "'k \<Rightarrow> int \<Rightarrow> 'k \<times> bool"
  win_close_handle :: "'k \<Rightarrow> int \<Rightarrow> 'k \<times> bool"
  win_socket :: "'k \<Rightarrow> 'k \<times> (wsa_err + int)"
  win_no_inherit :: "'k \<Rightarrow> int option \<Rightarrow> 'k \<times> bool"
  win_setsockopt :: "'k \<Rightarrow> int option \<Rightarrow> win_opt \<Rightarrow> 'k \<times> wsa_err option"
  win_bind_loopback :: "'k \<Rightarrow> int option \<Rightarrow> int \<Rightarrow> 'k \<times> wsa_err option"
  win_listen :: "'k \<Rightarrow> int option \<Rightarrow> int \<Rightarrow> 'k \<times> wsa_err option"
  win_connect_loopback :: "'k \<Rightarrow> int option \<Rightarrow> int \<Rightarrow> 'k \<times> wsa_err option"
  win_accept :: "'k \<Rightarrow> int option \<Rightarrow> 'k \<times> (wsa_err + int \<times> bool \<times> bool)"
  win_closesocket :: "'k \<Rightarrow> int option \<Rightarrow> 'k \<times> wsa_err option"
  win_nonblock :: "'k \<Rightarrow> int option \<Rightarrow> 'k \<times> wsa_err option"
  win_send :: "'k \<Rightarrow> int \<Rightarrow> byte list \<Rightarrow> 'k \<times> (wsa_err + nat)"
  win_recv :: "'k \<Rightarrow> int \<Rightarrow> nat \<Rightarrow> 'k \<times> (wsa_err + byte list)"

record 'k wstate =
  ws_kern :: 'k
  ws_last :: wsa_err

record wends =
  w_rd :: "int option"
  w_wr :: "int option"

definition NN_EFD_PORT :: int where "NN_EFD_PORT = 5907"
definition NN_EFD_RETRIES :: nat where "NN_EFD_RETRIES = 1000"

text \<open>Calls as the code sees them: whether they succeeded.\<close>

definition win_test :: "('k \<Rightarrow> 'k \<times> bool) \<Rightarrow> 'k wstate \<Rightarrow> bool \<times> 'k wstate" where
  "win_test f st = (case f (ws_kern st) of (k, b) \<Rightarrow> (b, st\<lparr>ws_kern := k\<rparr>))"

definition win_call :: "('k \<Rightarrow> 'k \<times> wsa_err option) \<Rightarrow> 'k wstate \<Rightarrow> bool \<times> 'k wstate" where
  "win_call f st =
     (case f (ws_kern st) of
        (k, None) \<Rightarrow> (True, st\<lparr>ws_kern := k\<rparr>)
      | (k, Some e) \<Rightarrow> (False, \<lparr>ws_kern = k, ws_last = e\<rparr>))"

definition win_new :: "('k \<Rightarrow> 'k \<times> (wsa_err + int)) \<Rightarrow> 'k wstate \<Rightarrow> int option \<times> 'k wstate" where
  "win_new f st =
     (case f (ws_kern st) of
        (k, Inr s) \<Rightarrow> (Some s, st\<lparr>ws_kern := k\<rparr>)
      | (k, Inl e) \<Rightarrow> (None, \<lparr>ws_kern = k, ws_last = e\<rparr>))"

text \<open>\<open>win_assert\<close> on a call.\<close>

definition win_must :: "('k \<Rightarrow> 'k \<times> bool) \<Rightarrow> 'k wstate \<Rightarrow> fault + 'k wstate" where
  "win_must f st = (case win_test f st of (b, st1) \<Rightarrow> if b then Inr st1 else Inl Abort)"

subsection \<open>Making the pair\<close>

text \<open>
  Where the code goes on: past the loops, or to the labels \<open>wsafail\<close> and \<open>wsafail2\<close>, the second with the value
  \<open>rc\<close> has; \<open>None\<close> is 0.
\<close>

datatype win_goto = Go_on | Wsafail | Wsafail2 "posix_err option"

text \<open>
  The rounds that are left, starting with \<open>NN_EFD_RETRIES\<close>. When there are none, \<open>rc\<close> holds the 0 of the
  last \<open>closesocket\<close>. Whether the socket could be made is not tested: the test looks at the listener again.
\<close>

fun win_connect_loop :: "'k winapi \<Rightarrow> nat \<Rightarrow> wends \<Rightarrow> 'k wstate \<Rightarrow> fault + (win_goto \<times> wends \<times> 'k wstate)" where
  "win_connect_loop A 0 h st = Inr (Wsafail2 None, h, st)"
| "win_connect_loop A (Suc n) h st =
     (let (s, st1) = win_new (win_socket A) st; h1 = h\<lparr>w_wr := s\<rparr> in
      rbind (win_must (\<lambda>k. win_no_inherit A k s) st1) (\<lambda>st2.
      let (ok, st3) = win_call (\<lambda>k. win_setsockopt A k s Win_nodelay) st2 in
      if \<not> ok then Inr (Wsafail, h1, st3) else
      let (ok, st4) = win_call (\<lambda>k. win_connect_loopback A k s NN_EFD_PORT) st3 in
      if ok then Inr (Go_on, h1, st4) else
      rbind (nn_err_wsa_to_posix (ws_last st4)) (\<lambda>rc.
      if rc \<noteq> E_ADDRINUSE then Inr (Wsafail2 (Some rc), h1, st4) else
      let (ok, st5) = win_call (\<lambda>k. win_closesocket A k s) st4 in
      if \<not> ok then Inr (Wsafail, h1, st5) else win_connect_loop A n h1 st5)))"

text \<open>
  Connections from elsewhere are closed and the next one is taken, as long as they come. When
  \<open>accept\<close> fails, \<open>rc\<close> still holds the 0 of \<open>connect\<close>, or of \<open>closesocket\<close>.
\<close>

partial_function (option) win_accept_loop ::
  "'k winapi \<Rightarrow> int option \<Rightarrow> wends \<Rightarrow> 'k wstate \<Rightarrow> (win_goto \<times> wends \<times> 'k wstate) option" where
  "win_accept_loop A listener h st =
     (case win_accept A (ws_kern st) listener of
        (k, Inl e) \<Rightarrow> Some (Wsafail2 None, h\<lparr>w_rd := None\<rparr>, \<lparr>ws_kern = k, ws_last = e\<rparr>)
      | (k, Inr (s, len_ok, local)) \<Rightarrow>
          let h1 = h\<lparr>w_rd := Some s\<rparr>; st1 = st\<lparr>ws_kern := k\<rparr> in
          if \<not> len_ok then Some (Wsafail2 None, h1, st1)
          else if local then Some (Go_on, h1, st1)
          else case win_call (\<lambda>k. win_closesocket A k (Some s)) st1 of
            (ok, st2) \<Rightarrow> if ok then win_accept_loop A listener h1 st2 else Some (Wsafail, h1, st2))"

definition win_listener :: "'k winapi \<Rightarrow> 'k wstate \<Rightarrow> fault + (int option \<times> bool \<times> 'k wstate)" where
  "win_listener A st =
     (let (l, st1) = win_new (win_socket A) st in
      if l = None then Inr (l, False, st1) else
      rbind (win_must (\<lambda>k. win_no_inherit A k l) st1) (\<lambda>st2.
      let (ok, st3) = win_call (\<lambda>k. win_setsockopt A k l Win_reuseaddr) st2 in
      if \<not> ok then Inr (l, False, st3) else
      let (ok, st4) = win_call (\<lambda>k. win_bind_loopback A k l NN_EFD_PORT) st3 in
      if \<not> ok then Inr (l, False, st4) else
      let (ok, st5) = win_call (\<lambda>k. win_listen A k l 1) st4 in
      Inr (l, ok, st5)))"

text \<open>What is done inside the critical section.\<close>

definition win_make_pair :: "'k winapi \<Rightarrow> 'k wstate \<Rightarrow> fault + (win_goto \<times> wends \<times> 'k wstate)" where
  "win_make_pair A st =
     (let h = \<lparr>w_rd = None, w_wr = None\<rparr> in
      rbind (win_listener A st) (\<lambda>(l, ok, st1).
      if \<not> ok then Inr (Wsafail, h, st1) else
      rbind (win_connect_loop A NN_EFD_RETRIES h st1) (\<lambda>(go, h1, st2).
      if go \<noteq> Go_on then Inr (go, h1, st2) else
      case win_accept_loop A l h1 st2 of
        None \<Rightarrow> Inl Hang
      | Some (go, h2, st3) \<Rightarrow>
          if go \<noteq> Go_on then Inr (go, h2, st3) else
          let (ok, st4) = win_call (\<lambda>k. win_closesocket A k l) st3 in
          Inr (if ok then Go_on else Wsafail, h2, st4))))"

text \<open>Leaving the critical section: \<open>wsafail2\<close> and what follows it, or the normal end.\<close>

definition win_leave :: "'k winapi \<Rightarrow> int \<Rightarrow> 'k wstate \<Rightarrow> fault + 'k wstate" where
  "win_leave A sync st =
     rbind (win_must (\<lambda>k. win_release A k sync) st) (win_must (\<lambda>k. win_close_handle A k sync))"

definition win_finish :: "'k winapi \<Rightarrow> int \<Rightarrow> win_goto \<Rightarrow> wends \<Rightarrow> 'k wstate \<Rightarrow> fault + (posix_err option \<times> wends \<times> 'k wstate)" where
  "win_finish A sync go h st =
     (case go of
        Go_on \<Rightarrow>
          rbind (win_leave A sync st) (\<lambda>st1.
          let (ok, st2) = win_call (\<lambda>k. win_nonblock A k (w_rd h)) st1 in
          rbind (assert_that ok) (\<lambda>_. Inr (None, h, st2)))
      | Wsafail \<Rightarrow>
          rbind (nn_err_wsa_to_posix (ws_last st)) (\<lambda>rc.
          rbind (win_leave A sync st) (\<lambda>st1. Inr (Some rc, h, st1)))
      | Wsafail2 rc \<Rightarrow> rbind (win_leave A sync st) (\<lambda>st1. Inr (rc, h, st1)))"

text \<open>
  The result is the error the function returns, \<open>None\<close> for 0, with the handle. The set of descriptors kept with the
  handle, which is emptied at the end, is left out: every wait puts the
  descriptor into it before it is used.
\<close>

definition nn_efd_init_win :: "'k winapi \<Rightarrow> wends \<Rightarrow> 'k wstate \<Rightarrow> fault + (posix_err option \<times> wends \<times> 'k wstate)" where
  "nn_efd_init_win A old st =
     rbind (win_must (win_init_sd A) st) (\<lambda>st1.
     rbind (win_must (win_set_dacl A) st1) (\<lambda>st2.
     case win_mutex A (ws_kern st2) of
       (k, None) \<Rightarrow> Inl Abort
     | (k, Some sync) \<Rightarrow>
         (case win_wait_for A k sync 10000 of
            (k, Wait_timeout) \<Rightarrow>
              rbind (win_must (\<lambda>k. win_close_handle A k sync) (st2\<lparr>ws_kern := k\<rparr>)) (\<lambda>st3. Inr (Some E_TIMEDOUT, old, st3))
          | (k, Wait_failed e) \<Rightarrow>
              rbind (nn_err_wsa_to_posix e) (\<lambda>rc.
              rbind (win_must (\<lambda>k. win_close_handle A k sync) \<lparr>ws_kern = k, ws_last = e\<rparr>) (\<lambda>st3. Inr (Some rc, old, st3)))
          | (k, _) \<Rightarrow>
              rbind (win_make_pair A (st2\<lparr>ws_kern := k\<rparr>)) (\<lambda>(go, h, st3). win_finish A sync go h st3))))"

subsection \<open>Using it\<close>

definition win_closing :: "'k winapi \<Rightarrow> int option \<Rightarrow> 'k wstate \<Rightarrow> fault + 'k wstate" where
  "win_closing A s st =
     (if s = None then Inr st else
      let (ok, st1) = win_call (\<lambda>k. win_closesocket A k s) st in
      rbind (assert_that ok) (\<lambda>_. Inr st1))"

definition nn_efd_stop_win :: "'k winapi \<Rightarrow> wends \<Rightarrow> 'k wstate \<Rightarrow> fault + (wends \<times> 'k wstate)" where
  "nn_efd_stop_win A h st = rbind (win_closing A (w_wr h) st) (\<lambda>st1. Inr (h\<lparr>w_wr := None\<rparr>, st1))"

definition nn_efd_term_win :: "'k winapi \<Rightarrow> wends \<Rightarrow> 'k wstate \<Rightarrow> fault + (wends \<times> 'k wstate)" where
  "nn_efd_term_win A h st =
     rbind (win_closing A (w_rd h) st) (\<lambda>st1.
     rbind (win_closing A (w_wr h) st1) (\<lambda>st2. Inr (\<lparr>w_rd = None, w_wr = None\<rparr>, st2)))"

definition nn_efd_getfd_win :: "wends \<Rightarrow> int option" where
  "nn_efd_getfd_win h = w_rd h"

definition nn_efd_signal_win :: "'k winapi \<Rightarrow> wends \<Rightarrow> 'k wstate \<Rightarrow> fault + 'k wstate" where
  "nn_efd_signal_win A h st =
     (case w_wr h of
        None \<Rightarrow> Inr st
      | Some s \<Rightarrow>
          (case win_send A (ws_kern st) s [0xec] of
             (k, Inl e) \<Rightarrow> Inl Abort
           | (k, Inr n) \<Rightarrow> rbind (assert_that (n = 1)) (\<lambda>_. Inr (st\<lparr>ws_kern := k\<rparr>))))"

text \<open>\<open>WSAEWOULDBLOCK\<close> is a code outside the table of \<open>utils/err.c\<close>.\<close>

definition WSAEWOULDBLOCK :: wsa_err where "WSAEWOULDBLOCK = WSA_num 10035"

partial_function (option) win_unsignal_loop :: "'k winapi \<Rightarrow> wends \<Rightarrow> 'k wstate \<Rightarrow> (fault + 'k wstate) option" where
  "win_unsignal_loop A h st =
     (case w_rd h of
        None \<Rightarrow> Some (Inr st)
      | Some s \<Rightarrow>
          (case win_recv A (ws_kern st) s 16 of
             (k, Inl e) \<Rightarrow> if e = WSAEWOULDBLOCK then Some (Inr \<lparr>ws_kern = k, ws_last = e\<rparr>) else Some (Inl Abort)
           | (k, Inr bs) \<Rightarrow>
               if length bs < 16 then Some (Inr (st\<lparr>ws_kern := k\<rparr>)) else win_unsignal_loop A h (st\<lparr>ws_kern := k\<rparr>)))"

definition nn_efd_unsignal_win :: "'k winapi \<Rightarrow> wends \<Rightarrow> 'k wstate \<Rightarrow> fault + 'k wstate" where
  "nn_efd_unsignal_win A h st = returning (win_unsignal_loop A h st)"

subsection \<open>The critical section\<close>

text \<open>
  What the calls around the critical section do, as Windows documents it: \<open>inside\<close> says that the process is in it.
\<close>

definition section_laws :: "'k winapi \<Rightarrow> ('k \<Rightarrow> bool) \<Rightarrow> bool" where
  "section_laws A inside \<longleftrightarrow>
     (\<forall>k. inside (fst (win_init_sd A k)) = inside k) \<and> (\<forall>k. inside (fst (win_set_dacl A k)) = inside k) \<and>
     (\<forall>k. inside (fst (win_mutex A k)) = inside k) \<and>
     (\<forall>k m t. inside (fst (win_wait_for A k m t)) =
        (snd (win_wait_for A k m t) \<in> {Wait_object, Wait_abandoned} \<or> inside k)) \<and>
     (\<forall>k m. snd (win_release A k m) \<longrightarrow> \<not> inside (fst (win_release A k m))) \<and>
     (\<forall>k m. inside (fst (win_close_handle A k m)) = inside k) \<and>
     (\<forall>k s. inside (fst (win_nonblock A k s)) = inside k)"

lemma win_must_Inr: "win_must f st = Inr st1 \<longleftrightarrow> snd (f (ws_kern st)) \<and> st1 = st\<lparr>ws_kern := fst (f (ws_kern st))\<rparr>"
  by (auto simp: win_must_def win_test_def split: prod.splits)

lemma win_call_kern: "ws_kern (snd (win_call f st)) = fst (f (ws_kern st))"
  by (simp add: win_call_def split: prod.splits option.splits)

lemma win_leave_outside:
  "section_laws A inside \<Longrightarrow> win_leave A sync st = Inr st1 \<Longrightarrow> \<not> inside (ws_kern st1)"
  by (auto simp: win_leave_def rbind_eq_Inr win_must_Inr section_laws_def)

lemma section_lawsD:
  assumes "section_laws A inside"
  shows "win_init_sd A k = (k1, b) \<Longrightarrow> inside k1 = inside k" "win_set_dacl A k = (k1, b) \<Longrightarrow> inside k1 = inside k"
    "win_mutex A k = (k1, m) \<Longrightarrow> inside k1 = inside k" "win_close_handle A k n = (k1, b) \<Longrightarrow> inside k1 = inside k"
    "win_wait_for A k n t = (k1, Wait_timeout) \<Longrightarrow> inside k1 = inside k"
    "win_wait_for A k n t = (k1, Wait_failed e) \<Longrightarrow> inside k1 = inside k"
    "win_nonblock A k s = (k1, r) \<Longrightarrow> inside k1 = inside k"
  using assms unfolding section_laws_def by (metis fst_conv snd_conv empty_iff insert_iff wait_status.distinct)+

lemma win_finish_outside:
  assumes laws: "section_laws A inside" and run: "win_finish A sync go h st = Inr (rc, h', st')"
  shows "\<not> inside (ws_kern st')"
proof (cases go)
  case Go_on
  obtain st1 where 1: "win_leave A sync st = Inr st1"
    using run Go_on by (cases "win_leave A sync st") (auto simp: win_finish_def)
  obtain ok st2 where 2: "win_call (\<lambda>k. win_nonblock A k (w_rd h)) st1 = (ok, st2)" by fastforce
  have "st' = st2" using run Go_on 1 2 by (cases ok) (simp_all add: win_finish_def)
  moreover have "ws_kern st2 = fst (win_nonblock A (ws_kern st1) (w_rd h))"
    using win_call_kern [of "\<lambda>k. win_nonblock A k (w_rd h)" st1] 2 by simp
  ultimately show ?thesis using win_leave_outside [OF laws 1] laws by (simp add: section_laws_def)
qed (use run win_leave_outside [OF laws] in \<open>auto simp: win_finish_def rbind_eq_Inr\<close>)

lemma win_init_outside:
  assumes laws: "section_laws A inside" and out: "\<not> inside (ws_kern st)"
    and run: "nn_efd_init_win A old st = Inr (rc, h, st')"
  shows "\<not> inside (ws_kern st')"
proof -
  note D = section_lawsD [OF laws]
  obtain st1 st2 where 1: "win_must (win_init_sd A) st = Inr st1" "win_must (win_set_dacl A) st1 = Inr st2"
    using run by (auto simp: nn_efd_init_win_def rbind_eq_Inr)
  then have o2: "\<not> inside (ws_kern st2)" using out laws by (simp add: win_must_Inr section_laws_def)
  obtain k1 sync where m: "win_mutex A (ws_kern st2) = (k1, Some sync)"
    using run 1 by (cases "win_mutex A (ws_kern st2)") (auto simp: nn_efd_init_win_def split: option.splits)
  have o3: "\<not> inside k1" using D(3) [OF m] o2 by simp
  obtain k2 ws where w: "win_wait_for A k1 sync 10000 = (k2, ws)" by fastforce
  show ?thesis
  proof (cases "ws = Wait_object \<or> ws = Wait_abandoned")
    case True
    then obtain go h1 st3 where "win_finish A sync go h1 st3 = Inr (rc, h, st')"
      using run 1 m w by (auto simp: nn_efd_init_win_def rbind_eq_Inr)
    then show ?thesis by (rule win_finish_outside [OF laws])
  next
    case False
    then have "\<not> inside k2" using D(5,6) w o3 by (cases ws) auto
    then show ?thesis using False run 1 m w laws
      by (cases ws) (auto simp: nn_efd_init_win_def rbind_eq_Inr win_must_Inr section_laws_def)
  qed
qed

text \<open>
  Making the descriptor enters a system-wide critical section, and however it goes on, every
  path that returns has left the section: success, each of the error exits, and the one without a lock.
\<close>

theorem win_init_leaves_section:
  assumes "section_laws A inside" and "\<not> inside (ws_kern st)" and "nn_efd_init_win A old st = Inr (rc, h, st')"
  shows "\<not> inside (ws_kern st')"
  using assms by (rule win_init_outside)

subsection \<open>Success without a connection\<close>

text \<open>Every call but the two that make the connection succeeds.\<close>

definition win_calls_succeed :: "'k winapi \<Rightarrow> bool" where
  "win_calls_succeed A \<longleftrightarrow>
     (\<forall>k. snd (win_init_sd A k)) \<and> (\<forall>k. snd (win_set_dacl A k)) \<and> (\<forall>k. \<exists>m. snd (win_mutex A k) = Some m) \<and>
     (\<forall>k m t. snd (win_wait_for A k m t) = Wait_object) \<and> (\<forall>k m. snd (win_release A k m)) \<and>
     (\<forall>k m. snd (win_close_handle A k m)) \<and> (\<forall>k. \<exists>s. snd (win_socket A k) = Inr s) \<and>
     (\<forall>k s. snd (win_no_inherit A k s)) \<and> (\<forall>k s opt. snd (win_setsockopt A k s opt) = None) \<and>
     (\<forall>k s p. snd (win_bind_loopback A k s p) = None) \<and> (\<forall>k s n. snd (win_listen A k s n) = None) \<and>
     (\<forall>k s. snd (win_closesocket A k s) = None)"

lemma win_must_ok:
  assumes "\<And>k. snd (f k)"
  shows "\<exists>k. win_must f st = Inr (st\<lparr>ws_kern := k\<rparr>)"
  using assms [of "ws_kern st"] by (cases "f (ws_kern st)") (auto simp: win_must_def win_test_def)

lemma win_call_ok:
  assumes "\<And>k. snd (f k) = None"
  shows "\<exists>k. win_call f st = (True, st\<lparr>ws_kern := k\<rparr>)"
  using assms [of "ws_kern st"] by (cases "f (ws_kern st)") (auto simp: win_call_def)

lemma win_call_bad:
  assumes "\<And>k. snd (f k) = Some e"
  shows "\<exists>k. win_call f st = (False, \<lparr>ws_kern = k, ws_last = e\<rparr>)"
  using assms [of "ws_kern st"] by (cases "f (ws_kern st)") (auto simp: win_call_def)

lemma win_new_ok:
  assumes "\<And>k. \<exists>s. snd (f k) = Inr s"
  shows "\<exists>s k. win_new f st = (Some s, st\<lparr>ws_kern := k\<rparr>)"
  using assms [of "ws_kern st"] by (cases "f (ws_kern st)") (auto simp: win_new_def)

lemma win_okD:
  assumes "win_calls_succeed A"
  shows "\<exists>s k. win_new (win_socket A) st = (Some s, st\<lparr>ws_kern := k\<rparr>)"
    "\<exists>k. win_must (win_init_sd A) st = Inr (st\<lparr>ws_kern := k\<rparr>)" "\<exists>k. win_must (win_set_dacl A) st = Inr (st\<lparr>ws_kern := k\<rparr>)"
    "\<exists>k. win_must (\<lambda>k. win_no_inherit A k s) st = Inr (st\<lparr>ws_kern := k\<rparr>)"
    "\<exists>k. win_must (\<lambda>k. win_release A k m) st = Inr (st\<lparr>ws_kern := k\<rparr>)"
    "\<exists>k. win_must (\<lambda>k. win_close_handle A k m) st = Inr (st\<lparr>ws_kern := k\<rparr>)"
    "\<exists>k. win_call (\<lambda>k. win_setsockopt A k s opt) st = (True, st\<lparr>ws_kern := k\<rparr>)"
    "\<exists>k. win_call (\<lambda>k. win_bind_loopback A k s p) st = (True, st\<lparr>ws_kern := k\<rparr>)"
    "\<exists>k. win_call (\<lambda>k. win_listen A k s n) st = (True, st\<lparr>ws_kern := k\<rparr>)"
    "\<exists>k. win_call (\<lambda>k. win_closesocket A k s) st = (True, st\<lparr>ws_kern := k\<rparr>)"
  by (rule win_new_ok win_must_ok win_call_ok; use assms in \<open>simp add: win_calls_succeed_def\<close>)+

lemma win_listener_ok: "win_calls_succeed A \<Longrightarrow> \<exists>l k. win_listener A st = Inr (Some l, True, st\<lparr>ws_kern := k\<rparr>)"
proof -
  assume A: "win_calls_succeed A"
  note D = win_okD [OF A]
  obtain s k1 where 1: "win_new (win_socket A) st = (Some s, st\<lparr>ws_kern := k1\<rparr>)" using D(1) by blast
  obtain k2 where 2: "win_must (\<lambda>k. win_no_inherit A k (Some s)) (st\<lparr>ws_kern := k1\<rparr>) = Inr (st\<lparr>ws_kern := k2\<rparr>)"
    using D(4) [of "Some s" "st\<lparr>ws_kern := k1\<rparr>"] by auto
  obtain k3 where 3: "win_call (\<lambda>k. win_setsockopt A k (Some s) Win_reuseaddr) (st\<lparr>ws_kern := k2\<rparr>) = (True, st\<lparr>ws_kern := k3\<rparr>)"
    using D(7) [of "Some s" Win_reuseaddr "st\<lparr>ws_kern := k2\<rparr>"] by auto
  obtain k4 where 4: "win_call (\<lambda>k. win_bind_loopback A k (Some s) NN_EFD_PORT) (st\<lparr>ws_kern := k3\<rparr>) = (True, st\<lparr>ws_kern := k4\<rparr>)"
    using D(8) [of "Some s" NN_EFD_PORT "st\<lparr>ws_kern := k3\<rparr>"] by auto
  obtain k5 where 5: "win_call (\<lambda>k. win_listen A k (Some s) 1) (st\<lparr>ws_kern := k4\<rparr>) = (True, st\<lparr>ws_kern := k5\<rparr>)"
    using D(9) [of "Some s" 1 "st\<lparr>ws_kern := k4\<rparr>"] by auto
  show ?thesis by (intro exI [of _ s] exI [of _ k5]) (simp add: win_listener_def 1 2 3 4 5)
qed

text \<open>One round of the first loop, up to the attempt to connect.\<close>

lemma win_connect_round:
  assumes A: "win_calls_succeed A"
  shows "\<exists>s k. win_connect_loop A (Suc n) h st =
    (let h1 = h\<lparr>w_wr := Some s\<rparr>;
         (ok, st4) = win_call (\<lambda>k. win_connect_loopback A k (Some s) NN_EFD_PORT) (st\<lparr>ws_kern := k\<rparr>) in
     if ok then Inr (Go_on, h1, st4) else
     rbind (nn_err_wsa_to_posix (ws_last st4)) (\<lambda>rc.
     if rc \<noteq> E_ADDRINUSE then Inr (Wsafail2 (Some rc), h1, st4) else
     let (ok, st5) = win_call (\<lambda>k. win_closesocket A k (Some s)) st4 in
     if \<not> ok then Inr (Wsafail, h1, st5) else win_connect_loop A n h1 st5))"
proof -
  note D = win_okD [OF A]
  obtain s k1 where 1: "win_new (win_socket A) st = (Some s, st\<lparr>ws_kern := k1\<rparr>)" using D(1) by blast
  obtain k2 where 2: "win_must (\<lambda>k. win_no_inherit A k (Some s)) (st\<lparr>ws_kern := k1\<rparr>) = Inr (st\<lparr>ws_kern := k2\<rparr>)"
    using D(4) [of "Some s" "st\<lparr>ws_kern := k1\<rparr>"] by auto
  obtain k3 where 3: "win_call (\<lambda>k. win_setsockopt A k (Some s) Win_nodelay) (st\<lparr>ws_kern := k2\<rparr>) = (True, st\<lparr>ws_kern := k3\<rparr>)"
    using D(7) [of "Some s" Win_nodelay "st\<lparr>ws_kern := k2\<rparr>"] by auto
  show ?thesis by (intro exI [of _ s] exI [of _ k3]) (simp add: 1 2 3 Let_def)
qed

lemma win_connect_busy:
  assumes A: "win_calls_succeed A" and busy: "\<And>k s p. snd (win_connect_loopback A k s p) = Some WSAEADDRINUSE"
  shows "\<exists>h' st'. win_connect_loop A n h st = Inr (Wsafail2 None, h', st') \<and> w_rd h' = w_rd h"
proof (induction n arbitrary: h st)
  case (Suc n)
  obtain s k where r: "win_connect_loop A (Suc n) h st =
    (let h1 = h\<lparr>w_wr := Some s\<rparr>;
         (ok, st4) = win_call (\<lambda>k. win_connect_loopback A k (Some s) NN_EFD_PORT) (st\<lparr>ws_kern := k\<rparr>) in
     if ok then Inr (Go_on, h1, st4) else
     rbind (nn_err_wsa_to_posix (ws_last st4)) (\<lambda>rc.
     if rc \<noteq> E_ADDRINUSE then Inr (Wsafail2 (Some rc), h1, st4) else
     let (ok, st5) = win_call (\<lambda>k. win_closesocket A k (Some s)) st4 in
     if \<not> ok then Inr (Wsafail, h1, st5) else win_connect_loop A n h1 st5))"
    using win_connect_round [OF A] by blast
  obtain k4 where 4: "win_call (\<lambda>k. win_connect_loopback A k (Some s) NN_EFD_PORT) (st\<lparr>ws_kern := k\<rparr>) =
      (False, \<lparr>ws_kern = k4, ws_last = WSAEADDRINUSE\<rparr>)"
    using win_call_bad [of "\<lambda>k. win_connect_loopback A k (Some s) NN_EFD_PORT"] busy by blast
  obtain k5 where 5: "win_call (\<lambda>k. win_closesocket A k (Some s)) \<lparr>ws_kern = k4, ws_last = WSAEADDRINUSE\<rparr> =
      (True, \<lparr>ws_kern = k5, ws_last = WSAEADDRINUSE\<rparr>)"
    using win_okD(10) [OF A, of "Some s" "\<lparr>ws_kern = k4, ws_last = WSAEADDRINUSE\<rparr>"] by auto
  show ?case using Suc [of "h\<lparr>w_wr := Some s\<rparr>" "\<lparr>ws_kern = k5, ws_last = WSAEADDRINUSE\<rparr>"]
    unfolding r by (simp add: 4 5 Let_def)
qed simp

lemma win_connect_once:
  assumes A: "win_calls_succeed A" and conn: "\<And>k s p. snd (win_connect_loopback A k s p) = None"
  shows "\<exists>h' st'. win_connect_loop A (Suc n) h st = Inr (Go_on, h', st')"
proof -
  obtain s k where r: "win_connect_loop A (Suc n) h st =
    (let h1 = h\<lparr>w_wr := Some s\<rparr>;
         (ok, st4) = win_call (\<lambda>k. win_connect_loopback A k (Some s) NN_EFD_PORT) (st\<lparr>ws_kern := k\<rparr>) in
     if ok then Inr (Go_on, h1, st4) else
     rbind (nn_err_wsa_to_posix (ws_last st4)) (\<lambda>rc.
     if rc \<noteq> E_ADDRINUSE then Inr (Wsafail2 (Some rc), h1, st4) else
     let (ok, st5) = win_call (\<lambda>k. win_closesocket A k (Some s)) st4 in
     if \<not> ok then Inr (Wsafail, h1, st5) else win_connect_loop A n h1 st5))"
    using win_connect_round [OF A] by blast
  obtain k4 where 4: "win_call (\<lambda>k. win_connect_loopback A k (Some s) NN_EFD_PORT) (st\<lparr>ws_kern := k\<rparr>) =
      (True, st\<lparr>ws_kern := k\<rparr>\<lparr>ws_kern := k4\<rparr>)"
    using win_call_ok [of "\<lambda>k. win_connect_loopback A k (Some s) NN_EFD_PORT"] conn by blast
  show ?thesis unfolding r by (simp add: 4 Let_def)
qed

definition win_no_connection :: "'k winapi \<Rightarrow> bool" where
  "win_no_connection A \<longleftrightarrow>
     (\<forall>k s p. snd (win_connect_loopback A k s p) = Some WSAEADDRINUSE) \<or>
     (\<forall>k s p. snd (win_connect_loopback A k s p) = None) \<and> (\<forall>k l. \<exists>e. snd (win_accept A k l) = Inl e)"

lemma win_accept_fails:
  assumes "\<And>k l. \<exists>e. snd (win_accept A k l) = Inl e"
  shows "\<exists>st'. win_accept_loop A l h st = Some (Wsafail2 None, h\<lparr>w_rd := None\<rparr>, st')"
  using assms [of "ws_kern st" l] by (cases "win_accept A (ws_kern st) l") (auto simp: win_accept_loop.simps)

lemma win_make_pair_empty:
  assumes A: "win_calls_succeed A" and no: "win_no_connection A"
  shows "\<exists>h st'. win_make_pair A st = Inr (Wsafail2 None, h, st') \<and> w_rd h = None"
proof -
  let ?h = "\<lparr>w_rd = None, w_wr = None\<rparr>"
  obtain l k where 1: "win_listener A st = Inr (Some l, True, st\<lparr>ws_kern := k\<rparr>)" using win_listener_ok [OF A] by blast
  obtain n where n: "NN_EFD_RETRIES = Suc n" by (simp add: NN_EFD_RETRIES_def numeral_eq_Suc)
  show ?thesis
  proof (cases "\<forall>k s p. snd (win_connect_loopback A k s p) = Some WSAEADDRINUSE")
    case True
    then obtain h1 st2 where "win_connect_loop A NN_EFD_RETRIES ?h (st\<lparr>ws_kern := k\<rparr>) = Inr (Wsafail2 None, h1, st2)" "w_rd h1 = None"
      using win_connect_busy [OF A, of NN_EFD_RETRIES ?h "st\<lparr>ws_kern := k\<rparr>"] by auto
    then show ?thesis by (simp add: win_make_pair_def 1)
  next
    case False
    then have c: "\<And>k s p. snd (win_connect_loopback A k s p) = None" and a: "\<And>k l. \<exists>e. snd (win_accept A k l) = Inl e"
      using no by (auto simp: win_no_connection_def)
    obtain h1 st2 where 2: "win_connect_loop A (Suc n) ?h (st\<lparr>ws_kern := k\<rparr>) = Inr (Go_on, h1, st2)"
      using win_connect_once [OF A c] by blast
    obtain st3 where 3: "win_accept_loop A (Some l) h1 st2 = Some (Wsafail2 None, h1\<lparr>w_rd := None\<rparr>, st3)"
      using win_accept_fails [of A, OF a] by blast
    show ?thesis by (simp add: win_make_pair_def 1 n 2 3 del: win_connect_loop.simps)
  qed
qed

lemma win_leave_ok: "win_calls_succeed A \<Longrightarrow> \<exists>k. win_leave A sync st = Inr (st\<lparr>ws_kern := k\<rparr>)"
proof -
  assume A: "win_calls_succeed A"
  obtain k1 where 1: "win_must (\<lambda>k. win_release A k sync) st = Inr (st\<lparr>ws_kern := k1\<rparr>)" using win_okD(5) [OF A] by blast
  obtain k2 where 2: "win_must (\<lambda>k. win_close_handle A k sync) (st\<lparr>ws_kern := k1\<rparr>) = Inr (st\<lparr>ws_kern := k2\<rparr>)"
    using win_okD(6) [OF A, of sync "st\<lparr>ws_kern := k1\<rparr>"] by auto
  show ?thesis by (intro exI [of _ k2]) (simp add: win_leave_def 1 2)
qed

lemma win_init_empty:
  assumes A: "win_calls_succeed A" and no: "win_no_connection A"
  shows "\<exists>h st'. nn_efd_init_win A old st = Inr (None, h, st') \<and> w_rd h = None"
proof -
  obtain k1 where 1: "win_must (win_init_sd A) st = Inr (st\<lparr>ws_kern := k1\<rparr>)" using win_okD(2) [OF A] by blast
  obtain k2 where 2: "win_must (win_set_dacl A) (st\<lparr>ws_kern := k1\<rparr>) = Inr (st\<lparr>ws_kern := k2\<rparr>)"
    using win_okD(3) [OF A, of "st\<lparr>ws_kern := k1\<rparr>"] by auto
  have "\<forall>k. \<exists>m. snd (win_mutex A k) = Some m" using A by (simp add: win_calls_succeed_def)
  then obtain k3 sync where 3: "win_mutex A k2 = (k3, Some sync)" by (metis prod.collapse)
  have "snd (win_wait_for A k3 sync 10000) = Wait_object" using A by (simp add: win_calls_succeed_def)
  then obtain k4 where 4: "win_wait_for A k3 sync 10000 = (k4, Wait_object)" by (metis prod.collapse)
  obtain h st5 where 5: "win_make_pair A (st\<lparr>ws_kern := k4\<rparr>) = Inr (Wsafail2 None, h, st5)" "w_rd h = None"
    using win_make_pair_empty [OF A no, of "st\<lparr>ws_kern := k4\<rparr>"] by blast
  obtain k6 where 6: "win_leave A sync st5 = Inr (st5\<lparr>ws_kern := k6\<rparr>)" using win_leave_ok [OF A] by blast
  show ?thesis
    by (intro exI [of _ h] exI [of _ "st5\<lparr>ws_kern := k6\<rparr>"]) (simp add: nn_efd_init_win_def win_finish_def 1 2 3 4 5 6)
qed

text \<open>
  C40: When no attempt to connect succeeds because the address is in use, or the connection
  cannot be accepted, \<open>nn_efd_init\<close> returns 0, because \<open>rc\<close> holds the 0 of the call before. The handle it
  leaves has no read end: waiting on it fails with \<open>EBADF\<close> and a signal is never seen.
\<close>

theorem win_init_false_success:
  assumes "win_calls_succeed A" and "win_no_connection A"
  shows "\<exists>h st'. nn_efd_init_win A old st = Inr (None, h, st') \<and> nn_efd_getfd_win h = None \<and>
    (\<forall>B st. nn_efd_unsignal_win B h st = Inr st)"
proof -
  obtain h st' where h: "nn_efd_init_win A old st = Inr (None, h, st')" "w_rd h = None"
    using win_init_empty [OF assms] by blast
  have "nn_efd_unsignal_win B h st = Inr st" for B :: "'k winapi" and st
    using h(2) by (simp add: nn_efd_unsignal_win_def returning_def win_unsignal_loop.simps)
  then show ?thesis using h by (auto simp: nn_efd_getfd_win_def)
qed

text \<open>A Windows on which the port is taken; its state is whether the process is in the section.\<close>

definition busy_windows :: "bool winapi" where
  "busy_windows =
     \<lparr>win_init_sd = \<lambda>k. (k, True), win_set_dacl = \<lambda>k. (k, True), win_mutex = \<lambda>k. (k, Some 1),
      win_wait_for = \<lambda>k m t. (True, Wait_object), win_release = \<lambda>k m. (False, True),
      win_close_handle = \<lambda>k m. (k, True), win_socket = \<lambda>k. (k, Inr 7), win_no_inherit = \<lambda>k s. (k, True),
      win_setsockopt = \<lambda>k s opt. (k, None), win_bind_loopback = \<lambda>k s p. (k, None), win_listen = \<lambda>k s n. (k, None),
      win_connect_loopback = \<lambda>k s p. (k, Some WSAEADDRINUSE), win_accept = \<lambda>k l. (k, Inl WSAEINVAL),
      win_closesocket = \<lambda>k s. (k, None), win_nonblock = \<lambda>k s. (k, None), win_send = \<lambda>k s bs. (k, Inr 1),
      win_recv = \<lambda>k s n. (k, Inr [])\<rparr>"

lemma busy_windows_ok:
  "win_calls_succeed busy_windows" "win_no_connection busy_windows" "section_laws busy_windows (\<lambda>k. k)"
  by (simp_all add: win_calls_succeed_def win_no_connection_def section_laws_def busy_windows_def)

theorem win_init_false_success_witness:
  "\<exists>h st'. nn_efd_init_win busy_windows \<lparr>w_rd = None, w_wr = None\<rparr> \<lparr>ws_kern = False, ws_last = WSAEINVAL\<rparr> = Inr (None, h, st') \<and>
    nn_efd_getfd_win h = None"
  using win_init_false_success [OF busy_windows_ok(1,2), of "\<lparr>w_rd = None, w_wr = None\<rparr>" "\<lparr>ws_kern = False, ws_last = WSAEINVAL\<rparr>"]
  by (elim exE conjE) (intro exI conjI)

theorem win_init_leaves_section_witness:
  "\<exists>h st'. nn_efd_init_win busy_windows \<lparr>w_rd = None, w_wr = None\<rparr> \<lparr>ws_kern = False, ws_last = WSAEINVAL\<rparr> = Inr (None, h, st') \<and>
    \<not> ws_kern st'"
proof -
  let ?h = "\<lparr>w_rd = None, w_wr = None\<rparr>" and ?st = "\<lparr>ws_kern = False, ws_last = WSAEINVAL\<rparr>"
  obtain h st' where h: "nn_efd_init_win busy_windows ?h ?st = Inr (None, h, st')"
    using win_init_empty [OF busy_windows_ok(1,2), of ?h ?st] by (elim exE conjE)
  have "\<not> ws_kern st'" by (rule win_init_leaves_section [OF busy_windows_ok(3) _ h]) simp
  with h show ?thesis by (intro exI conjI)
qed

end
