(* ===== verification/Worker.thy ===== *)
theory Worker
  imports Queue
begin

text \<open>
  The worker of \<open>utils/worker.h\<close> and \<open>utils/worker.c\<close>, an older form of the worker threads that the
  sources keep but the build leaves out: a loop, a mutex, a queue of tasks, and a stop item that
  goes through the same queue. A task is its number; the stop item is an item of its own.
\<close>

subsection \<open>State\<close>

datatype witem = Wtask nat | Wstop

text \<open>The calls that leave the program, in order.\<close>

datatype weffect =
    W_async_init | W_async_start | W_async_send | W_async_stop
  | W_loop_destroy | W_thread_create | W_thread_join | W_routine

text \<open>
  \<open>wk_held\<close>: the mutex is held by the running call; \<open>wk_fn\<close> are the functions of the tasks,
  \<open>None\<close> for NULL. The \<open>next\<close> fields of all items are \<open>wk_next\<close>.
\<close>

record worker =
  wk_loop :: bool
  wk_held :: bool
  wk_tasks :: "witem queue"
  wk_next :: "witem links"
  wk_fn :: "nat \<Rightarrow> nat option"
  wk_log :: "weffect list"

definition wk_eff :: "weffect \<Rightarrow> worker \<Rightarrow> worker" where
  "wk_eff e w = w\<lparr>wk_log := wk_log w @ [e]\<rparr>"

definition wk_lock :: "worker \<Rightarrow> fault + worker" where
  "wk_lock w = (if wk_held w then Inl Deadlock else Inr (w\<lparr>wk_held := True\<rparr>))"

definition wk_unlock :: "worker \<Rightarrow> fault + worker" where
  "wk_unlock w = (if wk_held w then Inr (w\<lparr>wk_held := False\<rparr>) else Inl BadUnlock)"

definition wk_push :: "witem \<Rightarrow> worker \<Rightarrow> fault + worker" where
  "wk_push i w = rbind (fsock_queue_push (wk_next w) (wk_tasks w) i) (\<lambda>(n, q). Inr (w\<lparr>wk_next := n, wk_tasks := q\<rparr>))"

definition wk_wake :: "worker \<Rightarrow> fault + worker" where
  "wk_wake w = (if wk_loop w then Inr (wk_eff W_async_send w) else Inl NullDeref)"

subsection \<open>Operations\<close>

text \<open>The new thread runs the routine the worker was given.\<close>

definition fsock_worker_main_routine :: "(worker \<Rightarrow> worker) \<Rightarrow> worker \<Rightarrow> worker" where
  "fsock_worker_main_routine routine w = routine (wk_eff W_routine w)"

text \<open>
  \<open>loop_ok\<close>: \<open>ev_loop_new\<close> made a loop; \<open>rc\<close> is the result of \<open>pthread_create\<close>. When the thread
  cannot be made the loop is destroyed, with the watcher still started on it. 12 is \<open>ENOMEM\<close>.
\<close>

definition fsock_worker_init :: "bool \<Rightarrow> int \<Rightarrow> worker \<Rightarrow> int \<times> worker" where
  "fsock_worker_init loop_ok rc w =
     (if \<not> loop_ok then (12, w\<lparr>wk_loop := False\<rparr>) else
      let w1 = wk_eff W_async_start (wk_eff W_async_init (w\<lparr>wk_loop := True\<rparr>));
          w2 = w1\<lparr>wk_held := False, wk_tasks := fsock_queue_init, wk_next := fsock_queue_item_init (wk_next w1) Wstop\<rparr>;
          w3 = wk_eff W_thread_create w2
      in if rc \<noteq> 0 then (rc, (wk_eff W_loop_destroy w3)\<lparr>wk_loop := False\<rparr>) else (0, w3))"

text \<open>
  The function ends without a \<open>return\<close>: its result is the indeterminate \<open>ret0\<close>. \<open>join\<close> is what the worker
  does until it has returned.
\<close>

definition fsock_worker_term :: "(worker \<Rightarrow> worker) \<Rightarrow> int \<Rightarrow> worker \<Rightarrow> fault + (int \<times> worker)" where
  "fsock_worker_term join ret0 w =
     rbind (wk_lock w) (\<lambda>w1.
     rbind (wk_push Wstop w1) (\<lambda>w2.
     rbind (wk_wake w2) (\<lambda>w3.
     rbind (wk_unlock w3) (\<lambda>w4.
     Inr (ret0, (wk_eff W_loop_destroy (wk_eff W_async_stop (wk_eff W_thread_join (join w4))))\<lparr>wk_loop := False\<rparr>)))))"

definition fsock_worker_schedule_task :: "nat \<Rightarrow> worker \<Rightarrow> fault + worker" where
  "fsock_worker_schedule_task t w =
     rbind (wk_lock w) (\<lambda>w1.
     rbind (wk_push (Wtask t) w1) (\<lambda>w2.
     rbind (wk_unlock w2) wk_wake))"

definition fsock_worker_erase_task :: "nat \<Rightarrow> worker \<Rightarrow> fault + worker" where
  "fsock_worker_erase_task t w =
     rbind (wk_lock w) (\<lambda>w1.
     rbind (if fsock_queue_item_isinqueue (wk_next w1) (Wtask t)
            then rbind (fsock_queue_remove (wk_next w1) (wk_tasks w1) (Wtask t)) (\<lambda>(n, q).
                 Inr (w1\<lparr>wk_next := n, wk_tasks := q\<rparr>))
            else Inr w1) wk_unlock)"

definition fsock_worker_task_init :: "nat \<Rightarrow> worker \<Rightarrow> worker" where
  "fsock_worker_task_init t w =
     w\<lparr>wk_fn := (wk_fn w)(t := None), wk_next := fsock_queue_item_init (wk_next w) (Wtask t)\<rparr>"

definition fsock_worker_task_term :: "nat \<Rightarrow> worker \<Rightarrow> fault + unit" where
  "fsock_worker_task_term t w = fsock_queue_item_term (wk_next w) (Wtask t)"

definition fsock_worker_task_set_func :: "nat \<Rightarrow> nat option \<Rightarrow> worker \<Rightarrow> worker" where
  "fsock_worker_task_set_func t f w = w\<lparr>wk_fn := (wk_fn w)(t := f)\<rparr>"

subsection \<open>The tasks a worker holds\<close>

text \<open>A running worker with the items \<open>xs\<close> to do, oldest first, and every other item unlinked.\<close>

definition worker_rep :: "worker \<Rightarrow> witem list \<Rightarrow> bool" where
  "worker_rep w xs \<longleftrightarrow> wk_loop w \<and> \<not> wk_held w \<and> queue_rep (wk_next w) (wk_tasks w) xs \<and>
     (\<forall>i. wk_next w i \<noteq> NotInQueue \<longrightarrow> i \<in> set xs)"

lemma worker_rep_linked: "worker_rep w xs \<Longrightarrow> wk_next w i \<noteq> NotInQueue \<longleftrightarrow> i \<in> set xs"
  using queue_rep_in_queue by (fastforce simp: worker_rep_def)

lemma wk_push_ok:
  assumes rep: "worker_rep w xs" and new: "i \<notin> set xs"
  shows "\<exists>n q. wk_push i (w\<lparr>wk_held := h\<rparr>) = Inr (w\<lparr>wk_held := h, wk_next := n, wk_tasks := q\<rparr>) \<and>
    worker_rep (w\<lparr>wk_next := n, wk_tasks := q\<rparr>) (xs @ [i])"
proof -
  have free: "wk_next w i = NotInQueue" using worker_rep_linked [OF rep, of i] new by blast
  have q: "queue_rep (wk_next w) (wk_tasks w) xs" using rep by (simp add: worker_rep_def)
  obtain n q where 1: "fsock_queue_push (wk_next w) (wk_tasks w) i = Inr (n, q)" "queue_rep n q (xs @ [i])"
      "\<forall>j. j \<noteq> i \<and> j \<notin> set xs \<longrightarrow> n j = wk_next w j"
    using queue_push_rep [OF q free] by blast
  have "j \<in> set (xs @ [i])" if "n j \<noteq> NotInQueue" for j
    using that 1(3) worker_rep_linked [OF rep, of j] by (cases "j \<in> set xs"; cases "j = i") auto
  with 1 rep show ?thesis by (auto simp: wk_push_def worker_rep_def)
qed

lemma worker_push_linked: "worker_rep w xs \<Longrightarrow> i \<in> set xs \<Longrightarrow> wk_push i (w\<lparr>wk_held := h\<rparr>) = Inl Abort"
  using worker_rep_linked [of w xs i] by (simp add: wk_push_def fsock_queue_push_def)

lemma worker_schedule_ok:
  assumes rep: "worker_rep w xs" and new: "Wtask t \<notin> set xs"
  shows "\<exists>w'. fsock_worker_schedule_task t w = Inr w' \<and> worker_rep w' (xs @ [Wtask t]) \<and> wk_log w' = wk_log w @ [W_async_send]"
proof -
  obtain n q where 1: "wk_push (Wtask t) (w\<lparr>wk_held := True\<rparr>) = Inr (w\<lparr>wk_held := True, wk_next := n, wk_tasks := q\<rparr>)"
      "worker_rep (w\<lparr>wk_next := n, wk_tasks := q\<rparr>) (xs @ [Wtask t])" using wk_push_ok [OF rep new] by blast
  then show ?thesis using rep
    by (simp add: fsock_worker_schedule_task_def wk_lock_def wk_unlock_def wk_wake_def wk_eff_def worker_rep_def)
qed

lemma worker_erase_ok:
  assumes rep: "worker_rep w xs"
  shows "\<exists>w'. fsock_worker_erase_task t w = Inr w' \<and> worker_rep w' (remove1 (Wtask t) xs) \<and> wk_log w' = wk_log w"
proof (cases "Wtask t \<in> set xs")
  case True
  have q: "queue_rep (wk_next w) (wk_tasks w) xs" using rep by (simp add: worker_rep_def)
  obtain n q' where 1: "fsock_queue_remove (wk_next w) (wk_tasks w) (Wtask t) = Inr (n, q')" "queue_rep n q' (remove1 (Wtask t) xs)"
      "n (Wtask t) = NotInQueue" "\<forall>j. j \<noteq> Wtask t \<longrightarrow> (n j = NotInQueue \<longleftrightarrow> wk_next w j = NotInQueue)"
    using queue_remove_rep [OF q True] by blast
  have "j \<in> set (remove1 (Wtask t) xs)" if "n j \<noteq> NotInQueue" for j
    using that 1(3,4) worker_rep_linked [OF rep, of j] by (cases "j = Wtask t") auto
  then show ?thesis using 1 rep True worker_rep_linked [OF rep, of "Wtask t"]
    by (simp add: fsock_worker_erase_task_def wk_lock_def wk_unlock_def fsock_queue_item_isinqueue_def worker_rep_def)
next
  case False
  then show ?thesis using rep worker_rep_linked [OF rep, of "Wtask t"]
    by (simp add: fsock_worker_erase_task_def wk_lock_def wk_unlock_def fsock_queue_item_isinqueue_def remove1_idem worker_rep_def)
qed

text \<open>
  scheduling a task and erasing it again leaves the worker with what it had to do, whatever was
  scheduled in between; erasing a task that is not scheduled changes nothing.
\<close>

theorem worker_schedule_erase:
  assumes rep: "worker_rep w xs" and new: "Wtask t \<notin> set xs" "Wtask u \<notin> set xs" "t \<noteq> u"
  shows "\<exists>w1 w2 w3. fsock_worker_schedule_task t w = Inr w1 \<and> fsock_worker_schedule_task u w1 = Inr w2 \<and>
    fsock_worker_erase_task t w2 = Inr w3 \<and> worker_rep w3 (xs @ [Wtask u]) \<and>
    (\<exists>w4. fsock_worker_erase_task t w3 = Inr w4 \<and> worker_rep w4 (xs @ [Wtask u]))"
proof -
  obtain w1 where 1: "fsock_worker_schedule_task t w = Inr w1" "worker_rep w1 (xs @ [Wtask t])"
    using worker_schedule_ok [OF rep new(1)] by blast
  obtain w2 where 2: "fsock_worker_schedule_task u w1 = Inr w2" "worker_rep w2 ((xs @ [Wtask t]) @ [Wtask u])"
    using worker_schedule_ok [OF 1(2)] new by fastforce
  have rem: "remove1 (Wtask t) ((xs @ [Wtask t]) @ [Wtask u]) = xs @ [Wtask u]" "remove1 (Wtask t) (xs @ [Wtask u]) = xs @ [Wtask u]"
    using new by (simp_all add: remove1_append remove1_idem)
  show ?thesis using 1(1) 2(1) worker_erase_ok [OF 2(2), of t] worker_erase_ok [of _ "xs @ [Wtask u]" t] unfolding rem by blast
qed

text \<open>
  a worker can be stopped once: \<open>fsock_worker_term\<close> queues the stop item behind all tasks and wakes
  the loop before it joins the thread; with the stop item already queued it aborts.
\<close>

theorem worker_term_once:
  assumes rep: "worker_rep w xs"
  shows "if Wstop \<in> set xs then fsock_worker_term join ret0 w = Inl Abort
    else \<exists>w1. worker_rep w1 (xs @ [Wstop]) \<and> wk_log w1 = wk_log w @ [W_async_send] \<and>
      fsock_worker_term join ret0 w =
        Inr (ret0, (join w1)\<lparr>wk_log := wk_log (join w1) @ [W_thread_join, W_async_stop, W_loop_destroy], wk_loop := False\<rparr>)"
proof (cases "Wstop \<in> set xs")
  case True
  then show ?thesis using rep worker_push_linked [OF rep True, of True]
    by (simp add: fsock_worker_term_def wk_lock_def worker_rep_def)
next
  case False
  obtain n q where 1: "wk_push Wstop (w\<lparr>wk_held := True\<rparr>) = Inr (w\<lparr>wk_held := True, wk_next := n, wk_tasks := q\<rparr>)"
      "worker_rep (w\<lparr>wk_next := n, wk_tasks := q\<rparr>) (xs @ [Wstop])" using wk_push_ok [OF rep False] by blast
  let ?w1 = "wk_eff W_async_send (w\<lparr>wk_next := n, wk_tasks := q\<rparr>)"
  have held: "\<not> wk_held w" "wk_loop w" using rep by (simp_all add: worker_rep_def)
  have eq: "w\<lparr>wk_next := n, wk_tasks := q, wk_log := l, wk_held := False\<rparr> = w\<lparr>wk_next := n, wk_tasks := q, wk_log := l\<rparr>" for l
    using held by (cases w) simp
  have "fsock_worker_term join ret0 w =
      Inr (ret0, (join ?w1)\<lparr>wk_log := wk_log (join ?w1) @ [W_thread_join, W_async_stop, W_loop_destroy], wk_loop := False\<rparr>)"
    using 1(1) held by (simp add: fsock_worker_term_def wk_lock_def wk_unlock_def wk_wake_def wk_eff_def eq)
  moreover have "worker_rep ?w1 (xs @ [Wstop])" using 1(2) by (simp add: worker_rep_def wk_eff_def)
  ultimately show ?thesis using False by (auto simp: wk_eff_def)
qed

text \<open>A worker fresh from \<open>fsock_worker_init\<close>.\<close>

definition example_worker :: worker where
  "example_worker = snd (fsock_worker_init True 0
     \<lparr>wk_loop = False, wk_held = True, wk_tasks = fsock_queue_init, wk_next = \<lambda>_. NotInQueue, wk_fn = \<lambda>_. None, wk_log = []\<rparr>)"

lemma example_worker_rep: "worker_rep example_worker []"
  by (simp add: worker_rep_def example_worker_def fsock_worker_init_def wk_eff_def Let_def fsock_queue_item_init_def)

theorem worker_schedule_erase_witness:
  "\<exists>w1 w2 w3. fsock_worker_schedule_task 1 example_worker = Inr w1 \<and> fsock_worker_schedule_task 2 w1 = Inr w2 \<and>
    fsock_worker_erase_task 1 w2 = Inr w3 \<and> worker_rep w3 [Wtask 2]"
  using worker_schedule_erase [OF example_worker_rep, of 1 2] by auto

theorem worker_term_once_witness:
  "\<exists>w1. worker_rep w1 [Wstop] \<and> fsock_worker_term id 0 example_worker =
     Inr (0, w1\<lparr>wk_log := wk_log w1 @ [W_thread_join, W_async_stop, W_loop_destroy], wk_loop := False\<rparr>)"
  using worker_term_once [OF example_worker_rep, of id 0] by auto

end
