(* ===== verification/Jobs.thy ===== *)
theory Jobs
  imports Async Example
begin

text \<open>
  What a worker does with the jobs it takes: every job once, in the order they were scheduled,
  up to the stop job; and a connection that is handed to a thread is read from there.
\<close>

subsection \<open>What the jobs do\<close>

text \<open>
  A task is ready in a memory when the objects it works on are there. A task of
  \<open>utils/thread.c\<close> owns its data.
\<close>

definition task_ready :: "'x world \<Rightarrow> item \<Rightarrow> bool" where
  "task_ready w it \<longleftrightarrow>
     (case it of
        Sock_task a k \<Rightarrow> w_heap w a \<noteq> None
      | New_task t \<Rightarrow> (case w_tasks w t of
            None \<Rightarrow> False
          | Some (THR_BIND d) \<Rightarrow> (case w_tdata w d of None \<Rightarrow> False | Some td \<Rightarrow> w_heap w (td_sock td) \<noteq> None)
          | Some (THR_CONN d) \<Rightarrow> (case w_tdata w d of None \<Rightarrow> False | Some td \<Rightarrow> w_heap w (td_sock td) \<noteq> None))
      | _ \<Rightarrow> False)"

definition task_data_of :: "'x world \<Rightarrow> item \<Rightarrow> nat option" where
  "task_data_of w it =
     (case it of
        New_task t \<Rightarrow> map_option (\<lambda>d. case d of THR_BIND d \<Rightarrow> d | THR_CONN d \<Rightarrow> d) (w_tasks w t)
      | _ \<Rightarrow> None)"

text \<open>The calls a task makes, when thread \<open>i\<close> runs it.\<close>

definition sock_fd_at :: "'x world \<Rightarrow> nat \<Rightarrow> int" where
  "sock_fd_at w a = (case w_heap w a of None \<Rightarrow> -1 | Some s \<Rightarrow> s_fd s)"

definition task_effects :: "'x world \<Rightarrow> nat \<Rightarrow> item \<Rightarrow> effect list" where
  "task_effects w i it =
     (case it of
        Sock_task a START_READ \<Rightarrow> [Io_start i a Rio]
      | Sock_task a STOP_READ \<Rightarrow> [Io_stop a Rio]
      | Sock_task a START_WRITE \<Rightarrow> [Io_start i a Wio]
      | New_task t \<Rightarrow> (case w_tasks w t of
            None \<Rightarrow> []
          | Some (THR_BIND d) \<Rightarrow> (case w_tdata w d of None \<Rightarrow> [] | Some td \<Rightarrow>
              [Io_init (td_sock td) Rio Accept_handler (sock_fd_at w (td_sock td)), Io_start i (td_sock td) Rio] @
              (case td_addr td of None \<Rightarrow> [] | Some (p, _) \<Rightarrow> [Free p]) @ [Free d, Free t])
          | Some (THR_CONN d) \<Rightarrow> (case w_tdata w d of None \<Rightarrow> [] | Some td \<Rightarrow>
              [Io_init (td_sock td) Rio Read_handler (sock_fd_at w (td_sock td)),
               Io_init (td_sock td) Wio Write_handler (sock_fd_at w (td_sock td)),
               Io_start i (td_sock td) Rio, Free d, Free t]))
      | _ \<Rightarrow> [])"

text \<open>
  \<open>jobs_run w0 xs i ds w\<close>: of the jobs \<open>xs\<close>, taken in the memory \<open>w0\<close>, those of \<open>ds\<close> have been
  run, and nothing that the others need has been touched.
\<close>

definition jobs_run :: "'x world \<Rightarrow> item set \<Rightarrow> nat \<Rightarrow> item list \<Rightarrow> 'x world \<Rightarrow> bool" where
  "jobs_run w0 A i ds w \<longleftrightarrow>
     w_log w = w_log w0 @ concat (map (task_effects w0 i) ds) \<and> w_held w = w_held w0 \<and>
     w_threads w = w_threads w0 \<and> w_out w = w_out w0 \<and> w_events w = w_events w0 \<and> w_env w = w_env w0 \<and>
     (\<forall>a. map_option s_fd (w_heap w a) = map_option s_fd (w_heap w0 a)) \<and>
     (\<forall>a. map_option s_events (w_heap w a) = map_option s_events (w_heap w0 a)) \<and>
     (\<forall>t. New_task t \<in> A - set ds \<longrightarrow> w_tasks w t = w_tasks w0 t \<and>
        (\<forall>d. task_data_of w0 (New_task t) = Some d \<longrightarrow> w_tdata w d = w_tdata w0 d))"

lemma jobs_run_fd: "jobs_run w0 A i ds w \<Longrightarrow> w_heap w a = Some s \<Longrightarrow> sock_fd_at w0 a = s_fd s"
  unfolding jobs_run_def sock_fd_at_def by (metis (mono_tags, lifting) map_option_eq_Some option.simps(5))

lemma jobs_run_live: "jobs_run w0 A i ds w \<Longrightarrow> w_heap w a = None \<longleftrightarrow> w_heap w0 a = None"
  unfolding jobs_run_def by (metis option.map_disc_iff)

lemma jobs_run_hdr: "jobs_run w0 A i ds w \<Longrightarrow> queue_hdr w = queue_hdr w0"
  by (rule ext) (simp add: queue_hdr_def jobs_run_def split: queue_id.split)

lemma jobs_run_step:
  assumes "jobs_run w0 A i ds w" "w_log w' = w_log w @ task_effects w0 i it"
    "w_held w' = w_held w" "w_threads w' = w_threads w" "w_out w' = w_out w" "w_events w' = w_events w" "w_env w' = w_env w"
    "\<And>a. map_option s_fd (w_heap w' a) = map_option s_fd (w_heap w a)"
    "\<And>a. map_option s_events (w_heap w' a) = map_option s_events (w_heap w a)"
    "\<And>t. New_task t \<in> A \<Longrightarrow> New_task t \<noteq> it \<Longrightarrow> w_tasks w' t = w_tasks w t \<and>
        (\<forall>d. task_data_of w0 (New_task t) = Some d \<longrightarrow> w_tdata w' d = w_tdata w d)"
  shows "jobs_run w0 A i (ds @ [it]) w'"
  using assms unfolding jobs_run_def by auto

lemma sock_task_runs:
  assumes run: "jobs_run w0 A i ds w" and ready: "task_ready w0 (Sock_task a k)"
  shows "\<exists>w'. task_fn i (Sock_task a k) w = Inr w' \<and> jobs_run w0 A i (ds @ [Sock_task a k]) w' \<and> w_next w' = w_next w"
proof -
  obtain s where s: "w_heap w a = Some s"
    using ready jobs_run_live [OF run, of a] by (auto simp: task_ready_def)
  let ?w = "case k of START_READ \<Rightarrow> log_eff (Io_start i a Rio) (sock_put a (s\<lparr>s_reading := 1\<rparr>) w)
      | STOP_READ \<Rightarrow> log_eff (Io_stop a Rio) w | START_WRITE \<Rightarrow> log_eff (Io_start i a Wio) w | _ \<Rightarrow> w"
  have "task_fn i (Sock_task a k) w = Inr ?w"
    using s by (cases k) (simp_all add: task_fn_def sock_task_routine_def sock_upd_def sock_at_def)
  moreover have "jobs_run w0 A i (ds @ [Sock_task a k]) ?w"
    by (rule jobs_run_step [OF run]; cases k) (use s in \<open>simp_all add: task_effects_def log_eff_def sock_put_def\<close>)
  moreover have "w_next ?w = w_next w" by (cases k) (simp_all add: log_eff_def sock_put_def)
  ultimately show ?thesis by blast
qed

lemma io_init_runs:
  "w_heap w a = Some s \<Longrightarrow> io_init a k h fd w =
     Inr (log_eff (Io_init a k h fd) (sock_put a (case k of Rio \<Rightarrow> s\<lparr>s_rio := Some \<lparr>io_fd = fd, io_cb = h\<rparr>\<rparr>
        | Wio \<Rightarrow> s\<lparr>s_wio := Some \<lparr>io_fd = fd, io_cb = h\<rparr>\<rparr>) w))"
  by (cases k) (simp_all add: io_init_def sock_upd_def sock_at_def)

lemma new_task_runs:
  assumes run: "jobs_run w0 A i ds w" and t: "New_task t \<in> A" "New_task t \<notin> set ds" and ready: "task_ready w0 (New_task t)"
    and own: "\<And>u. New_task u \<in> A \<Longrightarrow> u \<noteq> t \<Longrightarrow> task_data_of w0 (New_task u) \<noteq> task_data_of w0 (New_task t)"
  shows "\<exists>w'. task_fn i (New_task t) w = Inr w' \<and> jobs_run w0 A i (ds @ [New_task t]) w' \<and> w_next w' = w_next w"
proof -
  obtain r d td where r0: "w_tasks w0 t = Some r" "r = THR_BIND d \<or> r = THR_CONN d" "w_tdata w0 d = Some td"
      "w_heap w0 (td_sock td) \<noteq> None"
    using ready by (auto simp: task_ready_def split: option.splits thr_task.splits)
  moreover obtain s where "w_heap w (td_sock td) = Some s"
    using r0(4) jobs_run_live [OF run, of "td_sock td"] by auto
  ultimately have r: "w_tasks w0 t = Some r" "r = THR_BIND d \<or> r = THR_CONN d" "w_tdata w0 d = Some td"
      "w_heap w (td_sock td) = Some s" by simp_all
  have d0: "task_data_of w0 (New_task t) = Some d" using r by (auto simp: task_data_of_def)
  have now: "w_tasks w t = Some r" "w_tdata w d = Some td" using run t r d0 by (auto simp: jobs_run_def)
  have fd: "sock_fd_at w0 (td_sock td) = s_fd s" by (rule jobs_run_fd [OF run r(4)])
  have other: "d' \<noteq> d" if "New_task u \<in> A" "New_task u \<noteq> New_task t" "task_data_of w0 (New_task u) = Some d'" for u d'
    using own [of u] that d0 by auto
  let ?r = "\<lambda>h. log_eff (Io_init (td_sock td) Rio h (s_fd s))
      (sock_put (td_sock td) (s\<lparr>s_rio := Some \<lparr>io_fd = s_fd s, io_cb = h\<rparr>\<rparr>) w)"
  show ?thesis
  proof (cases "r = THR_BIND d")
    case True
    let ?w2 = "log_eff (Io_start i (td_sock td) Rio) (?r Accept_handler)"
    let ?w = "free_task d t (case td_addr td of None \<Rightarrow> ?w2 | Some (p, _) \<Rightarrow> log_eff (Free p) ?w2)"
    have "task_fn i (New_task t) w = Inr ?w"
      using now True r(4) by (simp add: task_fn_def thr_task_routine_def sock_at_def io_init_runs Let_def)
    moreover have "jobs_run w0 A i (ds @ [New_task t]) ?w"
      by (rule jobs_run_step [OF run])
        (use r True fd other in \<open>simp_all add: task_effects_def log_eff_def sock_put_def free_task_def Let_def split: option.splits prod.splits\<close>)
    moreover have "w_next ?w = w_next w"
      by (simp add: log_eff_def sock_put_def free_task_def Let_def split: option.splits prod.splits)
    ultimately show ?thesis by blast
  next
    case False
    then have c: "r = THR_CONN d" using r(2) by simp
    let ?s = "s\<lparr>s_rio := Some \<lparr>io_fd = s_fd s, io_cb = Read_handler\<rparr>\<rparr>"
    let ?w = "free_task d t (log_eff (Io_start i (td_sock td) Rio) (log_eff (Io_init (td_sock td) Wio Write_handler (s_fd s))
       (sock_put (td_sock td) (?s\<lparr>s_wio := Some \<lparr>io_fd = s_fd s, io_cb = Write_handler\<rparr>\<rparr>) (?r Read_handler))))"
    have h: "w_heap (?r Read_handler) (td_sock td) = Some ?s" by (simp add: log_eff_def sock_put_def)
    have "task_fn i (New_task t) w = Inr ?w"
      using now c r(4) io_init_runs [OF h] by (simp add: task_fn_def thr_task_routine_def sock_at_def io_init_runs Let_def)
    moreover have "jobs_run w0 A i (ds @ [New_task t]) ?w"
      by (rule jobs_run_step [OF run])
        (use r c fd other in \<open>simp_all add: task_effects_def log_eff_def sock_put_def free_task_def Let_def\<close>)
    moreover have "w_next ?w = w_next w"
      by (simp add: log_eff_def sock_put_def free_task_def Let_def)
    ultimately show ?thesis by blast
  qed
qed

text \<open>The jobs a queue holds can be run, in the memory they were taken in.\<close>

definition jobs_ready :: "'x world \<Rightarrow> item list \<Rightarrow> bool" where
  "jobs_ready w xs \<longleftrightarrow> (\<forall>it \<in> set xs. task_ready w it) \<and>
     (\<forall>t u. New_task t \<in> set xs \<longrightarrow> New_task u \<in> set xs \<longrightarrow> u \<noteq> t \<longrightarrow>
        task_data_of w (New_task u) \<noteq> task_data_of w (New_task t))"

lemma task_frame:
  assumes "w_heap w' = w_heap w" "w_tasks w' = w_tasks w" "w_tdata w' = w_tdata w"
  shows "task_effects w' i it = task_effects w i it" "task_ready w' it = task_ready w it" "task_data_of w' it = task_data_of w it"
  unfolding task_effects_def sock_fd_at_def task_ready_def task_data_of_def assms by (rule refl)+

lemma task_fn_runs:
  assumes run: "jobs_run w0 (set xs) i ds w" and it: "it \<in> set xs" "it \<notin> set ds" and ready: "jobs_ready w0 xs"
  shows "\<exists>w'. task_fn i it w = Inr w' \<and> jobs_run w0 (set xs) i (ds @ [it]) w' \<and> w_next w' = w_next w"
proof (cases it)
  case (Sock_task a k)
  then show ?thesis using sock_task_runs [of w0 "set xs" i ds w a k] run it ready by (simp add: jobs_ready_def)
next
  case (New_task t)
  then show ?thesis
    using new_task_runs [of w0 "set xs" i ds w t] run it ready by (simp add: jobs_ready_def)
qed (use it ready in \<open>force simp: jobs_ready_def task_ready_def\<close>)+

lemma task_fn_keeps_queue:
  assumes "it \<in> set xs" "it \<notin> set ds" "local_queue Q w q ys" "jobs_run w0 (set xs) i ds w" "jobs_ready w0 xs"
  shows "\<exists>w'. task_fn i it w = Inr w' \<and> local_queue Q w' q ys \<and> jobs_run w0 (set xs) i (ds @ [it]) w'"
proof -
  obtain w' where w': "task_fn i it w = Inr w'" "jobs_run w0 (set xs) i (ds @ [it]) w'" "w_next w' = w_next w"
    using task_fn_runs [OF assms(4,1,2,5)] by blast
  have "queue_hdr w' = queue_hdr w" using jobs_run_hdr [OF w'(2)] jobs_run_hdr [OF assms(4)] by simp
  then have "local_queue Q w' q ys" using assms(3) w'(3) by (simp add: local_queue_def)
  with w' show ?thesis by blast
qed

lemma jobs_run_pop: "jobs_run w0 A i ds w \<Longrightarrow> world_pop w q = Inr (x, w', q') \<Longrightarrow> jobs_run w0 A i ds w'"
  by (cases "fsock_queue_pop (w_next w) q") (auto simp: world_pop_def jobs_run_def)

lemma async_take_ok:
  assumes ok: "queues_ok w Q" and i: "i < length (w_threads w)" and free: "Thr_sync i \<notin> w_held w"
  shows "\<exists>q w1. async_take i w = Inr (q, w1) \<and> w1 = thread_put i ((w_threads w ! i)\<lparr>t_jobs := fsock_queue_init\<rparr>) w \<and>
    local_queue (Q(Jobs i := [])) w1 q (Q (Jobs i))"
proof -
  let ?q = "t_jobs (w_threads w ! i)" and ?w1 = "thread_put i ((w_threads w ! i)\<lparr>t_jobs := fsock_queue_init\<rparr>) w"
  have "async_take i w = Inr (?q, ?w1)"
    using i free by (simp add: async_take_def fsock_mutex_lock_def fsock_mutex_unlock_def lock_exists_def thread_at_def thread_put_def)
  moreover have L: "Q Local = []" using family_none [of "w_next w" "queue_hdr w" Q Local] ok by (simp add: queues_ok_def queue_hdr_def)
  have "queue_family (w_next w) ((queue_hdr w)(Jobs i := Some fsock_queue_init, Local := Some ?q)) (Q(Local := Q (Jobs i), Jobs i := []))"
    by (rule family_move) (use ok i L in \<open>simp_all add: queues_ok_def queue_hdr_Jobs\<close>)
  moreover have "Q(Local := Q (Jobs i), Jobs i := []) = Q(Jobs i := [], Local := Q (Jobs i))" by auto
  ultimately show ?thesis using queue_hdr_thread_put [OF i]
    by (simp add: local_queue_def) (simp add: thread_put_def)
qed

lemma local_queue_empty: "local_queue Q w q [] \<Longrightarrow> Q Local = [] \<Longrightarrow> queues_ok w Q"
  using family_drop [of "w_next w" "(queue_hdr w)(Local := Some q)" "Q(Local := [])" Local]
  by (simp add: local_queue_def queues_ok_def fun_upd_idem queue_hdr_def)

lemma async_runs:
  assumes ok: "queues_ok w Q" and i: "i < length (w_threads w)" and free: "Thr_sync i \<notin> w_held w"
    and ready: "jobs_ready w (takeWhile (\<lambda>it. it \<noteq> Stop_task i) (Q (Jobs i)))"
  shows "\<exists>w'. async_routine i w = Inr (takeWhile (\<lambda>it. it \<noteq> Stop_task i) (Q (Jobs i)), Stop_task i \<in> set (Q (Jobs i)), w') \<and>
    queues_ok w' (Q(Jobs i := [])) \<and> w_held w' = w_held w \<and>
    w_log w' = w_log w @ concat (map (task_effects w i) (takeWhile (\<lambda>it. it \<noteq> Stop_task i) (Q (Jobs i)))) @
      (if Stop_task i \<in> set (Q (Jobs i)) then [Loop_break i] else [])"
proof -
  obtain q w1 where take: "async_take i w = Inr (q, w1)"
      "w1 = thread_put i ((w_threads w ! i)\<lparr>t_jobs := fsock_queue_init\<rparr>) w" "local_queue (Q(Jobs i := [])) w1 q (Q (Jobs i))"
    using async_take_ok [OF ok i free] by blast
  let ?xs = "takeWhile (\<lambda>it. it \<noteq> Stop_task i) (Q (Jobs i))" and ?Q = "Q(Jobs i := [])"
  have same: "task_effects w1 i it = task_effects w i it" "task_ready w1 it = task_ready w it" "task_data_of w1 it = task_data_of w it" for it
    by (rule task_frame; simp add: take(2) thread_put_def)+
  have ready1: "jobs_ready w1 ?xs" using ready by (simp only: jobs_ready_def same)
  have start: "jobs_run w1 (set ?xs) i [] w1" by (simp add: jobs_run_def)
  have dist: "distinct (Q (Jobs i))" using ok family_distinct by (fastforce simp: queues_ok_def)
  note exec = task_fn_keeps_queue [OF _ _ _ _ ready1]
  have "\<exists>w2 q2. drain_with world_pop (\<lambda>it. it = Stop_task i) (task_fn i) [] w1 q =
        Some (Inr (rev [] @ ?xs, list_ex (\<lambda>it. it = Stop_task i) (Q (Jobs i)), w2)) \<and>
      local_queue ?Q w2 q2 [] \<and> jobs_run w1 (set ?xs) i (rev [] @ ?xs) w2"
    by (rule world_queue.drain_runs [where A = "set ?xs" and Inv = "jobs_run w1 (set ?xs) i"], erule (3) exec, erule (1) jobs_run_pop, rule take(3)) (simp_all add: start dist)
  then obtain w2 q2 where run: "drain_with world_pop (\<lambda>it. it = Stop_task i) (task_fn i) [] w1 q =
        Some (Inr (?xs, list_ex (\<lambda>it. it = Stop_task i) (Q (Jobs i)), w2))"
      "local_queue ?Q w2 q2 []" "jobs_run w1 (set ?xs) i ?xs w2" by auto
  have ex: "list_ex (\<lambda>it. it = Stop_task i) (Q (Jobs i)) \<longleftrightarrow> Stop_task i \<in> set (Q (Jobs i))" by (auto simp: list_ex_iff)
  have L: "?Q Local = []" using family_none [of "w_next w" "queue_hdr w" Q Local] ok by (simp add: queues_ok_def queue_hdr_def)
  have ok2: "queues_ok w2 ?Q" by (rule local_queue_empty [OF run(2) L])
  have ok3: "queues_ok (log_eff (Loop_break i) w2) ?Q" using ok2 by (rule queues_ok_frame) (simp_all add: log_eff_def)
  have w1: "w_held w1 = w_held w" "w_log w1 = w_log w" by (simp_all add: take(2) thread_put_def)
  have w2: "w_held w2 = w_held w" "w_log w2 = w_log w @ concat (map (task_effects w i) ?xs)"
    using run(3) w1 ext [of "task_effects w1 i" "task_effects w i", OF same(1)] by (simp_all add: jobs_run_def)
  show ?thesis using take(1) run(1) ex ok2 ok3 w2 by (simp add: async_routine_def log_eff_def)
qed

subsection \<open>A connection and its thread\<close>

lemma start_connection_ok:
  assumes ok: "queues_ok w Q" and i: "i < length (w_threads w)" "t_loop (w_threads w ! i)" and free: "Thr_sync i \<notin> w_held w"
    and mem: "o_malloc (w_env w) (w_allocs w)" "o_malloc (w_env w) (Suc (w_allocs w))"
    and new: "\<not> item_isinqueue (New_task (Suc (w_allocs w))) w"
  shows "\<exists>w'. fsock_thread_start_connection i a w = Inr w' \<and> queues_ok w' (Q(Jobs i := Q (Jobs i) @ [New_task (Suc (w_allocs w))])) \<and>
    w_heap w' = w_heap w \<and> w_held w' = w_held w \<and> w_log w' = w_log w @ [Async_send i] \<and>
    length (w_threads w') = length (w_threads w) \<and>
    w_tasks w' = (w_tasks w)(Suc (w_allocs w) := Some (THR_CONN (w_allocs w))) \<and>
    w_tdata w' = (w_tdata w)(w_allocs w := Some \<lparr>td_addr = None, td_port = 0, td_sock = a\<rparr>)"
proof -
  let ?t = "Suc (w_allocs w)" and ?d = "w_allocs w"
  let ?w1 = "w\<lparr>w_allocs := Suc (Suc ?d), w_tdata := (w_tdata w)(?d := Some \<lparr>td_addr = None, td_port = 0, td_sock = a\<rparr>),
      w_tasks := (w_tasks w)(?t := Some (THR_CONN ?d))\<rparr>"
  have links: "fsock_queue_item_init (w_next w) (New_task ?t) = w_next w"
    using new by (auto simp: fsock_queue_item_init_def item_isinqueue_def fsock_queue_item_isinqueue_def)
  then have same: "fsock_task_init (New_task ?t) ?w1 = ?w1" by (simp add: fsock_task_init_def)
  have run: "fsock_thread_start_connection i a w = fsock_thread_schedule_task i (New_task ?t) ?w1"
    using mem same by (simp add: fsock_thread_start_connection_def c_malloc_def Let_def ptr_deref_def)
  have ok1: "queues_ok ?w1 Q" using ok by (rule queues_ok_frame) simp_all
  obtain w2 where w2: "fsock_thread_schedule_task i (New_task ?t) ?w1 = Inr (log_eff (Async_send i) w2)"
      "queues_ok w2 (Q(Jobs i := Q (Jobs i) @ [New_task ?t]))" "jobs_step ?w1 w2"
    using schedule_task_ok [OF ok1, of i "New_task ?t"] i free new by (auto simp: item_isinqueue_def)
  have "queues_ok (log_eff (Async_send i) w2) (Q(Jobs i := Q (Jobs i) @ [New_task ?t]))"
    using w2(2) by (rule queues_ok_frame) (simp_all add: log_eff_def)
  then show ?thesis using run w2(1) jobs_stepD [OF w2(3)] by (simp add: log_eff_def)
qed

text \<open>A connection that has just been given to an idle thread is read from after its next round.\<close>

lemma started_connection_runs:
  assumes ok: "queues_ok w Q" and i: "i < length (w_threads w)" "t_loop (w_threads w ! i)" and free: "Thr_sync i \<notin> w_held w"
    and mem: "o_malloc (w_env w) (w_allocs w)" "o_malloc (w_env w) (Suc (w_allocs w))"
    and new: "\<not> item_isinqueue (New_task (Suc (w_allocs w))) w" and idle: "Q (Jobs i) = []" and s: "w_heap w a = Some s"
  shows "\<exists>w1 w2. fsock_thread_start_connection i a w = Inr w1 \<and> w_heap w1 = w_heap w \<and> w_held w1 = w_held w \<and>
    async_routine i w1 = Inr ([New_task (Suc (w_allocs w))], False, w2) \<and> queues_ok w2 Q \<and> w_held w2 = w_held w \<and>
    w_log w2 = w_log w @ [Async_send i, Io_init a Rio Read_handler (s_fd s), Io_init a Wio Write_handler (s_fd s),
      Io_start i a Rio, Free (w_allocs w), Free (Suc (w_allocs w))]"
proof -
  let ?t = "New_task (Suc (w_allocs w))"
  obtain w1 where w1: "fsock_thread_start_connection i a w = Inr w1" "queues_ok w1 (Q(Jobs i := [?t]))"
      "w_heap w1 = w_heap w" "w_held w1 = w_held w" "w_log w1 = w_log w @ [Async_send i]"
      "length (w_threads w1) = length (w_threads w)"
      "w_tasks w1 = (w_tasks w)(Suc (w_allocs w) := Some (THR_CONN (w_allocs w)))"
      "w_tdata w1 = (w_tdata w)(w_allocs w := Some \<lparr>td_addr = None, td_port = 0, td_sock = a\<rparr>)"
    using start_connection_ok [OF assms(1-7), of a] idle by auto
  have eff: "task_effects w1 i ?t = [Io_init a Rio Read_handler (s_fd s), Io_init a Wio Write_handler (s_fd s),
      Io_start i a Rio, Free (w_allocs w), Free (Suc (w_allocs w))]"
    using w1(3,7,8) s by (simp add: task_effects_def sock_fd_at_def)
  have ready: "jobs_ready w1 (takeWhile (\<lambda>it. it \<noteq> Stop_task i) ((Q(Jobs i := [?t])) (Jobs i)))"
    using w1(3,7,8) s by (simp add: jobs_ready_def task_ready_def)
  have Q: "Q(Jobs i := [?t], Jobs i := []) = Q" using idle by auto
  show ?thesis
    using async_runs [OF w1(2) _ _ ready] i(1) free w1(1,3,4,5,6) eff Q by fastforce
qed

text \<open>
  C10: A worker runs every job that is in its queue, once and in the order they were scheduled, up to the
  stop job, and makes exactly the calls of these jobs; the jobs behind the stop job are taken out
  and dropped. Its queue is empty afterwards, the other queues are as they were, no mutex is kept,
  and the loop ends exactly when the stop job was there.
\<close>

theorem worker_runs_jobs_in_order:
  assumes "queues_ok w Q" and "i < length (w_threads w)" and "Thr_sync i \<notin> w_held w"
    and "jobs_ready w (takeWhile (\<lambda>it. it \<noteq> Stop_task i) (Q (Jobs i)))"
  shows "\<exists>w'. async_routine i w = Inr (takeWhile (\<lambda>it. it \<noteq> Stop_task i) (Q (Jobs i)), Stop_task i \<in> set (Q (Jobs i)), w') \<and>
    queues_ok w' (Q(Jobs i := [])) \<and> w_held w' = w_held w \<and>
    w_log w' = w_log w @ concat (map (task_effects w i) (takeWhile (\<lambda>it. it \<noteq> Stop_task i) (Q (Jobs i)))) @
      (if Stop_task i \<in> set (Q (Jobs i)) then [Loop_break i] else [])"
  using assms by (rule async_runs)

lemma example_two_jobs:
  "\<exists>w. queues_ok w ((\<lambda>_. [])(Jobs 0 := [Sock_task 1 START_READ, Stop_task 0])) \<and> length (w_threads w) = 4 \<and>
     w_held w = {} \<and> w_heap w = w_heap example_world \<and> w_log w = []"
proof -
  obtain w1 where w1: "thread_push 0 (Sock_task 1 START_READ) example_world = Inr w1"
      "queues_ok w1 ((\<lambda>_. [])(Jobs 0 := [Sock_task 1 START_READ]))" "jobs_step example_world w1"
    using thread_push_ok [OF example_queues, of 0 "Sock_task 1 START_READ"]
    by (auto simp: item_isinqueue_def fsock_queue_item_isinqueue_def)
  have "\<not> item_isinqueue (Stop_task 0) w1" using queues_ok_linked [OF w1(2), of "Stop_task 0"] by (auto split: if_splits)
  then obtain w2 where w2: "thread_push 0 (Stop_task 0) w1 = Inr w2"
      "queues_ok w2 ((\<lambda>_. [])(Jobs 0 := [Sock_task 1 START_READ, Stop_task 0]))" "jobs_step w1 w2"
    using thread_push_ok [OF w1(2), of 0 "Stop_task 0"] jobs_stepD(11) [OF w1(3)] by auto
  show ?thesis using w2(2) jobs_stepD [OF w1(3)] jobs_stepD [OF w2(3)] by (intro exI [of _ w2]) simp
qed

theorem worker_runs_jobs_in_order_witness:
  "\<exists>w w' :: unit world. async_routine 0 w = Inr ([Sock_task 1 START_READ], True, w') \<and>
     queues_ok w' (\<lambda>_. []) \<and> w_held w' = {} \<and> w_log w' = [Io_start 0 1 Rio, Loop_break 0]"
proof -
  let ?Q = "(\<lambda>_. [])(Jobs 0 := [Sock_task 1 START_READ, Stop_task 0])"
  obtain w :: "unit world" where w: "queues_ok w ?Q" "length (w_threads w) = 4" "w_held w = {}"
      "w_heap w = w_heap example_world" "w_log w = []"
    using example_two_jobs by blast
  have r: "jobs_ready w (takeWhile (\<lambda>it. it \<noteq> Stop_task 0) (?Q (Jobs 0)))"
    using w(4) by (simp add: jobs_ready_def task_ready_def)
  have Q: "?Q(Jobs 0 := []) = (\<lambda>_. [])" by auto
  show ?thesis using worker_runs_jobs_in_order [OF w(1) _ _ r] w Q by (fastforce simp: task_effects_def)
qed

text \<open>
  A connection handed to a thread is read from there: the thread's next round initialises both
  watchers of the connection with its descriptor and the read and write handlers, starts the read
  watcher, and frees the task and its data. The thread is woken for this.
\<close>

theorem connection_reaches_its_thread:
  assumes "queues_ok w Q" and "i < length (w_threads w)" and "t_loop (w_threads w ! i)" and "Thr_sync i \<notin> w_held w"
    and "o_malloc (w_env w) (w_allocs w)" and "o_malloc (w_env w) (Suc (w_allocs w))"
    and "\<not> item_isinqueue (New_task (Suc (w_allocs w))) w"
    and "Q (Jobs i) = []" and "w_heap w a = Some s"
  shows "\<exists>w1 w2. fsock_thread_start_connection i a w = Inr w1 \<and>
    async_routine i w1 = Inr ([New_task (Suc (w_allocs w))], False, w2) \<and> queues_ok w2 Q \<and> w_held w2 = w_held w \<and>
    w_log w2 = w_log w @ [Async_send i, Io_init a Rio Read_handler (s_fd s), Io_init a Wio Write_handler (s_fd s),
      Io_start i a Rio, Free (w_allocs w), Free (Suc (w_allocs w))]"
  using started_connection_runs [OF assms] by blast

theorem connection_reaches_its_thread_witness:
  "\<exists>w1 w2. fsock_thread_start_connection 0 1 example_world = Inr w1 \<and>
    async_routine 0 w1 = Inr ([New_task 3], False, w2) \<and> queues_ok w2 (\<lambda>_. []) \<and> w_held w2 = {} \<and>
    w_log w2 = [Async_send 0, Io_init 1 Rio Read_handler 5, Io_init 1 Wio Write_handler 5, Io_start 0 1 Rio, Free 2, Free 3]"
  using connection_reaches_its_thread [OF example_queues, of 0 1 example_conn]
  by (simp add: item_isinqueue_def fsock_queue_item_isinqueue_def example_conn_def example_sock_def numeral_3_eq_3)

end
