(* ===== verification/Accepting.thy ===== *)
theory Accepting
  imports Jobs
begin

text \<open>
  What the accept handler does, on each of its paths: the connection is stored in the bind and in the base
  socket and read from after the next round of its thread; or it cannot be stored.
\<close>

subsection \<open>The steps of the handler\<close>

text \<open>A bind at \<open>a\<close> of the base socket at \<open>root\<close>; no call is running, and the next block is fresh.\<close>

definition accept_ready :: "'x world \<Rightarrow> nat \<Rightarrow> 'x sock \<Rightarrow> nat \<Rightarrow> 'x sock \<Rightarrow> bool" where
  "accept_ready w a b root r \<longleftrightarrow> w_heap w a = Some b \<and> s_owner b = Some root \<and> w_heap w root = Some r \<and> s_type r = FSOCK_SOCK_BASE \<and>
     a \<noteq> root \<and> w_heap w (w_allocs w) = None \<and> o_malloc (w_env w) (w_allocs w) \<and> w_held w = {} \<and>
     (\<forall>k. \<not> item_isinqueue (Sock_task (w_allocs w) k) w)"

lemma accept_init_ok:
  assumes "accept_ready w a b root r" and "sock_efd_init (w_allocs w) w = Inr efd"
  shows "\<exists>c. fsock_sock_init F (w_allocs w) FSOCK_SOCK_IN (w\<lparr>w_allocs := Suc (w_allocs w)\<rparr>) =
      Inr (sock_put (w_allocs w) c (w\<lparr>w_allocs := Suc (w_allocs w)\<rparr>)) \<and>
    s_type c = FSOCK_SOCK_IN \<and> s_fd c = -1 \<and> s_thr c = None \<and> s_idx c = -1 \<and> s_events c = fsock_queue_init"
proof -
  have tasks: "fold fsock_task_init (sock_tasks (w_allocs w)) v = v" if "w_next v = w_next w" for v :: "'a world"
  proof -
    have "fsock_queue_item_init (w_next v) (Sock_task (w_allocs w) k) = w_next v" for k
      using assms(1) that by (auto simp: accept_ready_def fsock_queue_item_init_def item_isinqueue_def fsock_queue_item_isinqueue_def)
    then have "fsock_task_init (Sock_task (w_allocs w) k) v = v" for k by (simp add: fsock_task_init_def)
    then show ?thesis by (simp add: sock_tasks_def)
  qed
  have efd: "sock_efd_init (w_allocs w) (w\<lparr>w_allocs := n\<rparr>) = Inr efd" for n using assms(2) by (simp add: sock_efd_init_def)
  have held: "fsock_mutex_init l (sock_put x c (w\<lparr>w_allocs := n\<rparr>)) = sock_put x c (w\<lparr>w_allocs := n\<rparr>)" for l x n and c :: "'a sock"
    using assms(1) by (simp add: fsock_mutex_init_def accept_ready_def sock_put_def)
  show ?thesis unfolding fsock_sock_init_def efd rbind_Inr Let_def held
    by (subst tasks, simp add: sock_put_def, intro exI conjI, rule refl) simp_all
qed

lemma store_conn_ok:
  assumes "w_heap w x = Some s" "w_held w = {}" "fsock_parr_insert (o_realloc (w_env w)) (s_conns s) c = Inr (i, p)"
  shows "rbind (fsock_mutex_lock (Sock_sync x) w) (\<lambda>w4.
     rbind (conns_insert x c w4) (\<lambda>(i, w5).
     rbind (fsock_mutex_unlock (Sock_sync x) w5) (\<lambda>w6. g i w6))) =
   g i (if i = -1 then set_errno ENOMEM (sock_put x (s\<lparr>s_conns := p\<rparr>) w) else sock_put x (s\<lparr>s_conns := p\<rparr>) w)"
  using assms
  by (cases w) (simp add: fsock_mutex_lock_def fsock_mutex_unlock_def lock_exists_def conns_insert_def sock_at_def Let_def sock_put_def set_errno_def)

lemma accept_to_bind:
  assumes ready: "accept_ready w a b root r" and fd: "0 \<le> fd" and efd: "sock_efd_init (w_allocs w) w = Inr efd"
    and ins: "fsock_parr_insert (o_realloc (w_env w)) (s_conns b) (w_allocs w) = Inr (i, p)"
  shows "\<exists>c w1. s_type c = FSOCK_SOCK_IN \<and> s_owner c = Some root \<and> s_fd c = -1 \<and> s_thr c = None \<and> s_idx c = -1 \<and> s_events c = fsock_queue_init \<and>
    w1 = (if i = -1 then set_errno ENOMEM else id)
      (w\<lparr>w_allocs := Suc (w_allocs w), w_heap := (w_heap w)(w_allocs w \<mapsto> c, a \<mapsto> b\<lparr>s_conns := p\<rparr>)\<rparr>) \<and>
    fsock_sock_accept_handler F a fd w =
      (if i < 0 then Inr (sock_free (w_allocs w) w1) else
        rbind (fsock_mutex_lock (Sock_sync root) w1) (\<lambda>w7.
        rbind (conns_insert root (w_allocs w) w7) (\<lambda>(index, w8).
        rbind (fsock_mutex_unlock (Sock_sync root) w8) (\<lambda>w9.
        if index < 0 then Inr w9 else
        rbind (fsock_glock_lock w9) (\<lambda>w10.
        let (thr, w11) = f_choose_thr w10 in
        rbind (fsock_glock_unlock w11) (\<lambda>w12.
        rbind (sock_upd (w_allocs w) (\<lambda>s. s\<lparr>s_thr := Some thr, s_fd := fd, s_idx := index, s_idxlocal := i\<rparr>) w12) (\<lambda>w13.
        fsock_thread_start_connection thr (w_allocs w) w13)))))))"
proof -
  let ?n = "w_allocs w"
  obtain c where c: "s_type c = FSOCK_SOCK_IN" "s_fd c = -1" "s_thr c = None" "s_idx c = -1" "s_events c = fsock_queue_init"
      "fsock_sock_init F ?n FSOCK_SOCK_IN (w\<lparr>w_allocs := Suc ?n\<rparr>) = Inr (sock_put ?n c (w\<lparr>w_allocs := Suc ?n\<rparr>))"
    using accept_init_ok [OF ready efd] by blast
  define c1 where "c1 = c\<lparr>s_owner := Some root\<rparr>"
  define w2 where "w2 = sock_put ?n c1 (w\<lparr>w_allocs := Suc ?n\<rparr>)"
  have n: "?n \<noteq> a" "?n \<noteq> root" using ready by (auto simp: accept_ready_def)
  have up: "sock_upd ?n (\<lambda>s. s\<lparr>s_owner := Some root\<rparr>) (sock_put ?n c (w\<lparr>w_allocs := Suc ?n\<rparr>)) = Inr w2"
    by (simp add: sock_upd_def sock_at_def sock_put_def w2_def c1_def)
  have w2: "w_heap w2 a = Some b" "w_held w2 = {}" "fsock_parr_insert (o_realloc (w_env w2)) (s_conns b) ?n = Inr (i, p)"
    using ready ins n by (simp_all add: accept_ready_def w2_def sock_put_def)
  have m: "c_malloc w = (Some ?n, w\<lparr>w_allocs := Suc ?n\<rparr>)" using ready by (simp add: accept_ready_def c_malloc_ok)
  have run: "fsock_sock_accept_handler F a fd w = rbind (fsock_mutex_lock (Sock_sync a) w2) (\<lambda>w4.
          rbind (conns_insert a ?n w4) (\<lambda>(indexlocal, w5).
          rbind (fsock_mutex_unlock (Sock_sync a) w5) (\<lambda>w6.
          if indexlocal < 0 then Inr (sock_free ?n w6) else
          rbind (fsock_mutex_lock (Sock_sync root) w6) (\<lambda>w7.
          rbind (conns_insert root ?n w7) (\<lambda>(index, w8).
          rbind (fsock_mutex_unlock (Sock_sync root) w8) (\<lambda>w9.
          if index < 0 then Inr w9 else
          rbind (fsock_glock_lock w9) (\<lambda>w10.
          let (thr, w11) = f_choose_thr w10 in
          rbind (fsock_glock_unlock w11) (\<lambda>w12.
          rbind (sock_upd ?n (\<lambda>s. s\<lparr>s_thr := Some thr, s_fd := fd, s_idx := index, s_idxlocal := indexlocal\<rparr>) w12) (\<lambda>w13.
          fsock_thread_start_connection thr ?n w13)))))))))"
    using ready fd c(6) up m unfolding fsock_sock_accept_handler_def
    by (simp add: accept_ready_def sock_at_def ptr_deref_def)
  show ?thesis
    unfolding run store_conn_ok [OF w2]
    by (rule exI [of _ c1], rule exI [of _ "(if i = -1 then set_errno ENOMEM else id)
      (w\<lparr>w_allocs := Suc ?n, w_heap := (w_heap w)(?n \<mapsto> c1, a \<mapsto> b\<lparr>s_conns := p\<rparr>)\<rparr>)"])
      (use c in \<open>simp add: c1_def w2_def sock_put_def\<close>)
qed

lemma queues_ok_new_sock:
  assumes "queues_ok w Q" "w_heap w n = None" "s_events c = fsock_queue_init"
  shows "queues_ok (sock_put n c w) Q"
proof -
  have "queue_family (w_next w) ((queue_hdr w)(Events_of n := Some fsock_queue_init)) Q"
    by (rule family_new) (use assms in \<open>simp_all add: queues_ok_def queue_hdr_def\<close>)
  then show ?thesis using assms(3) by (simp add: queues_ok_def queue_hdr_sock_put) (simp add: sock_put_def)
qed

subsection \<open>Properties\<close>

text \<open>
  C11: A connection that is accepted is stored in the bind and in the base socket, knows both numbers, its
  owner, its descriptor and its thread, which is the next one in turn; and the next round of that thread sets up its watchers
  and starts to read from it.
\<close>

theorem accepted_connection_is_read:
  assumes ready: "accept_ready w a b root r" and fd: "0 \<le> fd" and efd: "sock_efd_init (w_allocs w) w = Inr efd"
    and bind: "fsock_parr_insert (o_realloc (w_env w)) (s_conns b) (w_allocs w) = Inr (i, p)" "0 \<le> i"
    and base: "fsock_parr_insert (o_realloc (w_env w)) (s_conns r) (w_allocs w) = Inr (j, q)" "0 \<le> j"
    and ok: "queues_ok w Q" and t: "thr_last_idx w = int t" "t < 4" "length (w_threads w) = 4" "t_loop (w_threads w ! t)" "Q (Jobs t) = []"
    and mem: "o_malloc (w_env w) (w_allocs w + 1)" "o_malloc (w_env w) (w_allocs w + 2)"
    and new: "\<not> item_isinqueue (New_task (w_allocs w + 2)) w"
  shows "\<exists>w1 w2 c. fsock_sock_accept_handler F a fd w = Inr w1 \<and>
    w_heap w1 = (w_heap w)(a \<mapsto> b\<lparr>s_conns := p\<rparr>, root \<mapsto> r\<lparr>s_conns := q\<rparr>, w_allocs w \<mapsto> c) \<and>
    s_type c = FSOCK_SOCK_IN \<and> s_owner c = Some root \<and> s_fd c = fd \<and> s_thr c = Some t \<and> s_idx c = j \<and> s_idxlocal c = i \<and>
    w_held w1 = {} \<and> async_routine t w1 = Inr ([New_task (w_allocs w + 2)], False, w2) \<and>
    w_log w2 = w_log w @ [Async_send t, Io_init (w_allocs w) Rio Read_handler fd, Io_init (w_allocs w) Wio Write_handler fd,
      Io_start t (w_allocs w) Rio, Free (w_allocs w + 1), Free (w_allocs w + 2)]"
proof -
  let ?n = "w_allocs w"
  define wb where "wb c = w\<lparr>w_allocs := Suc ?n, w_heap := (w_heap w)(?n \<mapsto> c, a \<mapsto> b\<lparr>s_conns := p\<rparr>)\<rparr>" for c
  obtain c where c: "s_type c = FSOCK_SOCK_IN" "s_owner c = Some root" "s_events c = fsock_queue_init"
    and run: "fsock_sock_accept_handler F a fd w = rbind (fsock_mutex_lock (Sock_sync root) (wb c)) (\<lambda>w7.
        rbind (conns_insert root ?n w7) (\<lambda>(index, w8).
        rbind (fsock_mutex_unlock (Sock_sync root) w8) (\<lambda>w9.
        if index < 0 then Inr w9 else
        rbind (fsock_glock_lock w9) (\<lambda>w10.
        let (thr, w11) = f_choose_thr w10 in
        rbind (fsock_glock_unlock w11) (\<lambda>w12.
        rbind (sock_upd ?n (\<lambda>s. s\<lparr>s_thr := Some thr, s_fd := fd, s_idx := index, s_idxlocal := i\<rparr>) w12) (\<lambda>w13.
        fsock_thread_start_connection thr ?n w13))))))"
    using accept_to_bind [OF ready fd efd bind(1)] bind(2) unfolding wb_def by auto
  have n: "?n \<noteq> a" "?n \<noteq> root" "a \<noteq> root" and w: "w_heap w a = Some b" "w_heap w root = Some r" "w_held w = {}" "w_heap w ?n = None"
    using ready by (auto simp: accept_ready_def)
  define wr where "wr = sock_put root (r\<lparr>s_conns := q\<rparr>) (wb c)"
  define k where "k = (if thr_last_idx w + 1 = 4 then 0 else thr_last_idx w + 1)"
  define c2 where "c2 = c\<lparr>s_thr := Some t, s_fd := fd, s_idx := j, s_idxlocal := i\<rparr>"
  define w13 where "w13 = sock_put ?n c2 (wr\<lparr>thr_last_idx := k\<rparr>)"
  have wb: "w_heap (wb c) root = Some r" "w_held (wb c) = {}" "fsock_parr_insert (o_realloc (w_env (wb c))) (s_conns r) ?n = Inr (j, q)"
    using w n base(1) by (simp_all add: wb_def)
  have "rbind (fsock_glock_lock wr) (\<lambda>w10. let (thr, w11) = f_choose_thr w10 in
        rbind (fsock_glock_unlock w11) (\<lambda>w12.
        rbind (sock_upd ?n (\<lambda>s. s\<lparr>s_thr := Some thr, s_fd := fd, s_idx := j, s_idxlocal := i\<rparr>) w12) (\<lambda>w13.
        fsock_thread_start_connection thr ?n w13))) = fsock_thread_start_connection t ?n w13"
  proof -
    have "w_held wr = {}" "thr_last_idx wr = int t" "w_heap wr ?n = Some c" using w(3) t(1) n by (simp_all add: wr_def wb_def sock_put_def)
    then show ?thesis
      using t(1) by (cases wr) (simp add: fsock_glock_lock_def fsock_glock_unlock_def fsock_mutex_lock_def fsock_mutex_unlock_def
          lock_exists_def f_choose_thr_def Let_def sock_upd_def sock_at_def w13_def c2_def k_def)
  qed
  then have start: "fsock_sock_accept_handler F a fd w = fsock_thread_start_connection t ?n w13"
    unfolding run store_conn_ok [OF wb] using base(2) by (simp add: wr_def)
  have heap: "w_heap w13 = (w_heap w)(a \<mapsto> b\<lparr>s_conns := p\<rparr>, root \<mapsto> r\<lparr>s_conns := q\<rparr>, ?n \<mapsto> c2)"
    using n by (auto simp: w13_def wr_def wb_def sock_put_def)
  have "queues_ok (w\<lparr>w_allocs := Suc ?n\<rparr>) Q" using ok by (rule queues_ok_frame) simp_all
  then have "queues_ok (sock_put ?n c (w\<lparr>w_allocs := Suc ?n\<rparr>)) Q" by (rule queues_ok_new_sock) (simp_all add: w(4) c(3))
  then have "queues_ok (sock_put a (b\<lparr>s_conns := p\<rparr>) (sock_put ?n c (w\<lparr>w_allocs := Suc ?n\<rparr>))) Q"
    by (rule queues_ok_sock_put [of _ _ _ b]) (use n w(1) in \<open>simp_all add: sock_put_def\<close>)
  then have "queues_ok (wb c) Q" by (rule queues_ok_frame) (simp_all add: wb_def sock_put_def)
  then have "queues_ok wr Q" unfolding wr_def by (rule queues_ok_sock_put [OF _ wb(1)]) simp
  then have "queues_ok (wr\<lparr>thr_last_idx := k\<rparr>) Q" by (rule queues_ok_frame) simp_all
  then have "queues_ok w13 Q" unfolding w13_def
    by (rule queues_ok_sock_put [of _ _ _ c]) (use n in \<open>simp_all add: c2_def wr_def wb_def sock_put_def\<close>)
  then obtain w1 w2 where "fsock_thread_start_connection t ?n w13 = Inr w1" "w_heap w1 = w_heap w13" "w_held w1 = w_held w13"
    "async_routine t w1 = Inr ([New_task (Suc (w_allocs w13))], False, w2)"
    "w_log w2 = w_log w13 @ [Async_send t, Io_init ?n Rio Read_handler (s_fd c2), Io_init ?n Wio Write_handler (s_fd c2),
      Io_start t ?n Rio, Free (w_allocs w13), Free (Suc (w_allocs w13))]"
    using started_connection_runs [of w13 Q t ?n c2] t mem new w(3)
    by (auto simp: w13_def wr_def wb_def sock_put_def item_isinqueue_def)
  then show ?thesis
    using start heap c by (intro exI [of _ w1] exI [of _ w2] exI [of _ c2]) (simp add: c2_def w13_def wr_def wb_def sock_put_def w(3))
qed

text \<open>A bind, 1, of the socket 0, which has a connection already.\<close>

definition example_accept :: "environs \<Rightarrow> unit world" where
  "example_accept env = example_world\<lparr>w_heap := [0 \<mapsto> example_base, 1 \<mapsto> (example_sock FSOCK_SOCK_BIND)\<lparr>s_owner := Some 0\<rparr>], w_env := env\<rparr>"

lemma example_accept_ready:
  "o_malloc env 2 \<Longrightarrow> accept_ready (example_accept env) 1 ((example_sock FSOCK_SOCK_BIND)\<lparr>s_owner := Some 0\<rparr>) 0 example_base"
  by (simp add: accept_ready_def example_accept_def example_base_def example_sock_def item_isinqueue_def fsock_queue_item_isinqueue_def)

lemma example_accept_queues: "queues_ok (example_accept env) (\<lambda>_. [])"
  by (auto simp: queues_ok_def queue_family_def queue_hdr_def example_accept_def example_world_def example_base_def example_sock_def
      split: queue_id.split)

definition stores :: "bool \<Rightarrow> unit sock \<Rightarrow> bool" where
  "stores room s \<longleftrightarrow> (case fsock_parr_insert (\<lambda>_. room) (s_conns s) 2 of Inl f \<Rightarrow> False | Inr (i, p) \<Rightarrow> (0 \<le> i) = room)"

lemma stores_iff: "stores room s \<Longrightarrow> \<exists>i p. fsock_parr_insert (\<lambda>_. room) (s_conns s) 2 = Inr (i, p) \<and> (0 \<le> i) = room"
  by (auto simp: stores_def split: sum.splits)

lemma example_inserts: "\<exists>j q. fsock_parr_insert (\<lambda>_. False) (s_conns example_base) 2 = Inr (j, q)"
proof -
  have "rbind (fsock_parr_insert (\<lambda>_. False) (s_conns example_base) 2) (\<lambda>_. Inr ()) = Inr ()" by code_simp
  then show ?thesis by (auto simp: fault_iff)
qed

lemma example_stores:
  "stores True (example_sock FSOCK_SOCK_BIND)" "stores True example_base" "stores False (example_sock FSOCK_SOCK_BIND)"
  by code_simp+

theorem accepted_connection_is_read_witness:
  "\<exists>w1 w2. fsock_sock_accept_handler example_framer 1 9 (example_accept example_env) = Inr w1 \<and>
     async_routine 0 w1 = Inr ([New_task 4], False, w2) \<and>
     w_log w2 = [Async_send 0, Io_init 2 Rio Read_handler 9, Io_init 2 Wio Write_handler 9, Io_start 0 2 Rio, Free 3, Free 4]"
proof -
  obtain i p j q where ins: "fsock_parr_insert (\<lambda>_. True) (s_conns (example_sock FSOCK_SOCK_BIND)) 2 = Inr (i, p)" "0 \<le> i"
      "fsock_parr_insert (\<lambda>_. True) (s_conns example_base) 2 = Inr (j, q)" "0 \<le> j"
    using stores_iff [OF example_stores(1)] stores_iff [OF example_stores(2)] by auto
  have ready: "accept_ready (example_accept example_env) 1 ((example_sock FSOCK_SOCK_BIND)\<lparr>s_owner := Some 0\<rparr>) 0 example_base"
    by (rule example_accept_ready) simp
  show ?thesis
    using accepted_connection_is_read [OF ready _ _ _ ins(2) _ ins(4) example_accept_queues, of 9 5 p q 0 example_framer] ins
    by (force simp: example_accept_def sock_efd_init_def item_isinqueue_def fsock_queue_item_isinqueue_def)
qed

text \<open>
  C22: When the connection cannot be stored in the bind its memory is given back, and when it cannot be stored in the base
  socket it stays in the bind with neither a descriptor nor a thread. On both paths the descriptor that was accepted is
  not closed: nobody knows it any more.
\<close>

theorem accept_loses_descriptor:
  assumes ready: "accept_ready w a b root r" and fd: "0 \<le> fd" and efd: "sock_efd_init (w_allocs w) w = Inr efd"
    and bind: "fsock_parr_insert (o_realloc (w_env w)) (s_conns b) (w_allocs w) = Inr (i, p)"
    and base: "fsock_parr_insert (o_realloc (w_env w)) (s_conns r) (w_allocs w) = Inr (j, q)" and fails: "i < 0 \<or> j < 0"
  shows "\<exists>w'. fsock_sock_accept_handler F a fd w = Inr w' \<and> w_held w' = {} \<and> (\<forall>e. Close_fd e \<in> set (w_log w') \<longrightarrow> Close_fd e \<in> set (w_log w)) \<and>
    (if i < 0 then w_heap w' = (w_heap w)(a \<mapsto> b\<lparr>s_conns := p\<rparr>)
     else \<exists>c. w_heap w' = (w_heap w)(a \<mapsto> b\<lparr>s_conns := p\<rparr>, root \<mapsto> r\<lparr>s_conns := q\<rparr>, w_allocs w \<mapsto> c) \<and> s_fd c = -1 \<and> s_thr c = None)"
proof -
  let ?n = "w_allocs w"
  define wb where "wb c = (if i = -1 then set_errno ENOMEM else id)
      (w\<lparr>w_allocs := Suc ?n, w_heap := (w_heap w)(?n \<mapsto> c, a \<mapsto> b\<lparr>s_conns := p\<rparr>)\<rparr>)" for c
  have n: "?n \<noteq> a" "?n \<noteq> root" "a \<noteq> root" and w: "w_heap w a = Some b" "w_heap w root = Some r" "w_held w = {}" "w_heap w ?n = None"
    using ready by (auto simp: accept_ready_def)
  obtain c where c: "s_fd c = -1" "s_thr c = None"
    and run: "fsock_sock_accept_handler F a fd w = (if i < 0 then Inr (sock_free ?n (wb c)) else
        rbind (fsock_mutex_lock (Sock_sync root) (wb c)) (\<lambda>w7.
        rbind (conns_insert root ?n w7) (\<lambda>(index, w8).
        rbind (fsock_mutex_unlock (Sock_sync root) w8) (\<lambda>w9.
        if index < 0 then Inr w9 else
        rbind (fsock_glock_lock w9) (\<lambda>w10.
        let (thr, w11) = f_choose_thr w10 in
        rbind (fsock_glock_unlock w11) (\<lambda>w12.
        rbind (sock_upd ?n (\<lambda>s. s\<lparr>s_thr := Some thr, s_fd := fd, s_idx := index, s_idxlocal := i\<rparr>) w12) (\<lambda>w13.
        fsock_thread_start_connection thr ?n w13)))))))"
    using accept_to_bind [OF ready fd efd bind] unfolding wb_def by blast
  show ?thesis
  proof (cases "i < 0")
    case True
    have "w_heap (sock_free ?n (wb c)) = (w_heap w)(a \<mapsto> b\<lparr>s_conns := p\<rparr>)"
      using n w(4) by (auto simp: wb_def sock_free_def log_eff_def set_errno_def fun_upd_twist)
    then show ?thesis using run True w(3) by (simp add: wb_def sock_free_def log_eff_def set_errno_def)
  next
    case False
    have wb: "w_heap (wb c) root = Some r" "w_held (wb c) = {}" "fsock_parr_insert (o_realloc (w_env (wb c))) (s_conns r) ?n = Inr (j, q)"
      using w n base by (simp_all add: wb_def set_errno_def)
    show ?thesis
      using run False fails n w unfolding store_conn_ok [OF wb]
      by (auto simp: wb_def set_errno_def sock_put_def c intro!: exI [of _ c])
  qed
qed

theorem accept_loses_descriptor_witness:
  "\<exists>w1. fsock_sock_accept_handler example_framer 1 9 (example_accept (example_env\<lparr>o_realloc := \<lambda>_. False\<rparr>)) = Inr w1 \<and>
     w_held w1 = {} \<and> (\<forall>e. Close_fd e \<notin> set (w_log w1))"
proof -
  let ?w = "example_accept (example_env\<lparr>o_realloc := \<lambda>_. False\<rparr>)"
  obtain i p where bind: "fsock_parr_insert (\<lambda>_. False) (s_conns (example_sock FSOCK_SOCK_BIND)) 2 = Inr (i, p)" "i < 0"
    using stores_iff [OF example_stores(3)] by auto
  obtain j q where base: "fsock_parr_insert (\<lambda>_. False) (s_conns example_base) 2 = Inr (j, q)"
    using example_inserts by auto
  have ready: "accept_ready ?w 1 ((example_sock FSOCK_SOCK_BIND)\<lparr>s_owner := Some 0\<rparr>) 0 example_base"
    by (rule example_accept_ready) simp
  show ?thesis
    using accept_loses_descriptor [OF ready, of 9 5 i p j q example_framer] bind base
    by (force simp: example_accept_def sock_efd_init_def)
qed

end
