(* ===== verification/Handles.thy ===== *)
theory Handles
  imports Global
begin

text \<open>
  Which elements an array of pointers holds, and the roles the addresses of the library play: what the invariant
  of the theory Outcomes needs to know of the table of sockets and of the arrays of binds and connections.
\<close>

subsection \<open>The elements of an array\<close>

definition cells :: "'a parr \<Rightarrow> 'a cell list" where
  "cells p = (case pa_elems p of None \<Rightarrow> [] | Some xs \<Rightarrow> xs)"

definition parr_elems :: "'a parr \<Rightarrow> 'a set" where
  "parr_elems p = {x. Elem x \<in> set (cells p)}"

text \<open>No element is stored twice.\<close>

definition once :: "'a cell list \<Rightarrow> bool" where
  "once xs \<longleftrightarrow> (\<forall>i j x. i < length xs \<longrightarrow> j < length xs \<longrightarrow> xs ! i = Elem x \<longrightarrow> xs ! j = Elem x \<longrightarrow> i = j)"

lemma parr_elems_init [simp]: "parr_elems (fsock_parr_init n) = {}" "cells (fsock_parr_init n) = []" "once []"
  by (simp_all add: parr_elems_def cells_def fsock_parr_init_def once_def)

lemma parr_elems_last [simp]: "parr_elems (p\<lparr>pa_last := l\<rparr>) = parr_elems p" "cells (p\<lparr>pa_last := l\<rparr>) = cells p"
  by (simp_all add: parr_elems_def cells_def)

lemma parr_read_elem:
  assumes "parr_read p i = Inr (Elem x)"
  shows "x \<in> parr_elems p"
proof -
  obtain xs where "pa_elems p = Some xs" "0 \<le> i" "i < int (length xs)" "xs ! nat i = Elem x"
    using assms by (auto simp: parr_read_def split: option.splits if_splits)
  then show ?thesis using nth_mem [of "nat i" xs] by (simp add: parr_elems_def cells_def)
qed

lemma parr_ptr_read: "parr_ptr p i = Inr x \<Longrightarrow> parr_read p i = Inr (Elem x)"
  unfolding parr_ptr_def by (cases "parr_read p i") (auto split: cell.splits)

lemmas parr_ptr_elem = parr_read_elem [OF parr_ptr_read]

lemma parr_read_once:
  assumes "parr_read p i = Inr (Elem x)" "parr_read p j = Inr (Elem x)" "once (cells p)"
  shows "j = i"
proof -
  obtain xs where "pa_elems p = Some xs" "0 \<le> i" "i < int (length xs)" "xs ! nat i = Elem x" "0 \<le> j" "j < int (length xs)" "xs ! nat j = Elem x"
    using assms(1,2) by (auto simp: parr_read_def split: option.splits if_splits)
  then have "nat j = nat i" using assms(3) [unfolded once_def cells_def, rule_format, of "nat j" "nat i" x] by simp
  then show ?thesis using \<open>0 \<le> i\<close> \<open>0 \<le> j\<close> by simp
qed

lemma parr_write_elems:
  assumes "parr_write p i c = Inr p'"
  shows "parr_elems p' \<subseteq> parr_elems p \<union> {x. c = Elem x}"
    and "once (cells p) \<Longrightarrow> (\<And>x. c = Elem x \<Longrightarrow> x \<notin> parr_elems p) \<Longrightarrow> once (cells p')"
    and "once (cells p) \<Longrightarrow> parr_read p i = Inr (Elem x) \<Longrightarrow> c = Empty \<Longrightarrow> x \<notin> parr_elems p'"
proof -
  obtain xs where xs: "pa_elems p = Some xs" "0 \<le> i" "i < int (length xs)" "p' = p\<lparr>pa_elems := Some (xs[nat i := c])\<rparr>"
    using assms by (auto simp: parr_write_def split: option.splits if_splits)
  have c: "cells p = xs" "cells p' = xs[nat i := c]" using xs by (simp_all add: cells_def)
  show "parr_elems p' \<subseteq> parr_elems p \<union> {x. c = Elem x}"
    using set_update_subset_insert [of xs "nat i" c] by (auto simp: parr_elems_def c)
  show "once (cells p')" if o: "once (cells p)" and n: "\<And>x. c = Elem x \<Longrightarrow> x \<notin> parr_elems p"
  proof -
    have new: "k < length xs \<Longrightarrow> xs ! k = Elem x \<Longrightarrow> c \<noteq> Elem x" for k x
      using n [of x] nth_mem [of k xs] by (auto simp: parr_elems_def c)
    show ?thesis unfolding once_def c
    proof (intro allI impI)
      fix j k x assume a: "j < length (xs[nat i := c])" "k < length (xs[nat i := c])" "xs[nat i := c] ! j = Elem x" "xs[nat i := c] ! k = Elem x"
      then show "j = k"
        using new [of j x] new [of k x] o unfolding once_def c by (cases "j = nat i"; cases "k = nat i") (auto simp: nth_list_update)
    qed
  qed
  show "x \<notin> parr_elems p'" if o: "once (cells p)" and r: "parr_read p i = Inr (Elem x)" and e: "c = Empty"
  proof
    assume "x \<in> parr_elems p'"
    then obtain k where k: "k < length xs" "xs[nat i := Empty] ! k = Elem x" by (auto simp: parr_elems_def c e in_set_conv_nth)
    have "xs ! nat i = Elem x" using r xs by (auto simp: parr_read_def split: if_splits)
    moreover have ni: "nat i < length xs" using xs by simp
    moreover have "k \<noteq> nat i" "xs ! k = Elem x" using k ni by (auto simp: nth_list_update split: if_splits)
    ultimately show False using o k(1) unfolding once_def c by blast
  qed
qed

lemma parr_realloc_elems:
  assumes "fsock_parr_realloc al p n = Inr (rc, p')"
  shows "parr_elems p' \<subseteq> parr_elems p" "once (cells p) \<Longrightarrow> once (cells p')"
proof -
  have p': "p' = p \<or> (\<exists>m. cells p' = take m (cells p) @ replicate (m - length (cells p)) Uninit)"
    using assms by (auto simp: fsock_parr_realloc_def fault_iff parr_resize_def cells_def Let_def split: if_splits option.splits)
  show "parr_elems p' \<subseteq> parr_elems p" using p' by (auto simp: parr_elems_def dest: in_set_takeD)
  show "once (cells p) \<Longrightarrow> once (cells p')" using p' by (auto simp: once_def nth_append split: if_splits)
qed

lemma parr_insert_elems:
  assumes "fsock_parr_insert al p e = Inr (i, p')"
  shows "parr_elems p' \<subseteq> insert e (parr_elems p)" "i < 0 \<Longrightarrow> parr_elems p' \<subseteq> parr_elems p"
    and "once (cells p) \<Longrightarrow> e \<notin> parr_elems p \<Longrightarrow> once (cells p')"
proof -
  obtain rc p1 where 1: "(if pa_capacity p = 0 \<or> pa_last p = pa_capacity p - 1
            then fsock_parr_realloc al p (pa_increment p) else Inr (OK, p)) = Inr (rc, p1)"
      "rc \<noteq> OK \<and> p' = p1 \<or> (\<exists>p2 l. parr_write p1 i (Elem e) = Inr p2 \<and> p' = p2\<lparr>pa_last := l\<rparr>)"
    using assms by (auto simp: fsock_parr_insert_def fault_iff split: if_splits)
  have p1: "parr_elems p1 \<subseteq> parr_elems p" "once (cells p) \<Longrightarrow> once (cells p1)"
    using 1(1) parr_realloc_elems [of al p "pa_increment p" rc p1] by (auto split: if_splits)
  have w: "i \<ge> 0" if "parr_write p1 i (Elem e) = Inr p2" for p2
    using that by (auto simp: parr_write_def split: option.splits if_splits)
  show "parr_elems p' \<subseteq> insert e (parr_elems p)" using 1(2) p1 parr_write_elems(1) [of p1 i "Elem e"] by fastforce
  show "i < 0 \<Longrightarrow> parr_elems p' \<subseteq> parr_elems p" using 1(2) p1 w by fastforce
  show "once (cells p')" if "once (cells p)" "e \<notin> parr_elems p"
  proof -
    have "e \<notin> parr_elems p1" "once (cells p1)" using p1 that by auto
    then show ?thesis using 1(2) parr_write_elems(2) [of p1 i "Elem e"] by auto
  qed
qed

lemma parr_shrink_elems:
  "parr_shrink_loop al p = Some (Inr (rc, p')) \<Longrightarrow> parr_elems p' \<subseteq> parr_elems p \<and> (once (cells p) \<longrightarrow> once (cells p'))"
proof (induction al p "Inr (rc, p') :: fault + (int \<times> 'a parr)" arbitrary: rc p' rule: parr_shrink_loop.raw_induct [rotated, consumes 1, case_names step])
  case (step g al p rc)
  show ?case
  proof (cases "fsock_parr_can_shrink p")
    case (Inr b)
    show ?thesis
    proof (cases "b \<and> pa_capacity p \<noteq> pa_increment p")
      case True
      then obtain rc1 p1 where p1: "fsock_parr_realloc al p (- pa_increment p) = Inr (rc1, p1)"
        using step(2) Inr by (auto split: sum.splits)
      have "g al p1 = Some (Inr (rc, p')) \<or> p' = p1" using step(2) Inr True p1 by (auto split: if_splits)
      then show ?thesis using step(1) parr_realloc_elems [OF p1] by blast
    qed (use step(2) Inr in \<open>auto split: sum.splits if_splits\<close>)
  qed (use step(2) in auto)
qed

lemma parr_clear_elems:
  assumes "fsock_parr_clear al p i = Inr (rc, p')"
  shows "parr_elems p' \<subseteq> parr_elems p" "once (cells p) \<Longrightarrow> once (cells p')"
    and "once (cells p) \<Longrightarrow> parr_read p i = Inr (Elem x) \<Longrightarrow> x \<notin> parr_elems p'"
proof -
  obtain p1 where p1: "parr_write p i Empty = Inr p1" "parr_shrink_loop al p1 = Some (Inr (rc, p'))"
    using assms by (auto simp: fsock_parr_clear_def fault_iff split: option.splits)
  note s = parr_shrink_elems [OF p1(2)] and w = parr_write_elems [OF p1(1)]
  show "parr_elems p' \<subseteq> parr_elems p" using s w(1) by auto
  show "once (cells p) \<Longrightarrow> once (cells p')" using s w(2) by auto
  show "once (cells p) \<Longrightarrow> parr_read p i = Inr (Elem x) \<Longrightarrow> x \<notin> parr_elems p'" using s w(3) by auto
qed

end
