(* ===== verification/Ensures.thy ===== *)
theory Ensures
  imports Global
begin

text \<open>
  What an operation ensures: the relation that the theory Outcomes proves of every operation of the library, with
  rules that follow the structure of a body; and the operations that touch no mutex, whose rules say
  nothing about their result.
\<close>

subsection \<open>Outcomes\<close>

text \<open>
  \<open>ensures m R\<close>: if \<open>m\<close> returns normally, \<open>R\<close> holds of what it returns; and \<open>m\<close> does not lock a mutex that
  it holds or unlock one that it does not hold.
\<close>

definition lock_fault :: "fault \<Rightarrow> bool" where
  "lock_fault f \<longleftrightarrow> f = Deadlock \<or> f = BadUnlock"

definition ensures :: "fault + 'a \<Rightarrow> ('a \<Rightarrow> bool) \<Rightarrow> bool" where
  "ensures m R = (case m of Inl f \<Rightarrow> \<not> lock_fault f | Inr x \<Rightarrow> R x)"

named_theorems outcome \<open>what an operation ensures, for any continuation\<close>

lemma ensures_simps [simp]: "ensures (Inl f) R = (\<not> lock_fault f)" "ensures (Inr x) R = R x"
  by (simp_all add: ensures_def)

lemma no_lock_fault [simp]:
  "\<not> lock_fault Abort" "\<not> lock_fault NullDeref" "\<not> lock_fault WildDeref" "\<not> lock_fault OutOfBounds" "\<not> lock_fault UseAfterFree"
  "\<not> lock_fault UninitRead" "\<not> lock_fault IntOverflow" "\<not> lock_fault Hang"
  by (simp_all add: lock_fault_def)

lemma ensures_rbind [outcome]: "ensures m (\<lambda>x. ensures (f x) R) \<Longrightarrow> ensures (rbind m f) R"
  by (cases m) simp_all

lemma ensures_if [outcome]: "(b \<Longrightarrow> ensures m R) \<Longrightarrow> (\<not> b \<Longrightarrow> ensures n R) \<Longrightarrow> ensures (if b then m else n) R"
  by simp

lemma ensures_Inr [outcome]: "R x \<Longrightarrow> ensures (Inr x) R"
  by simp

lemma ensures_Inl [outcome]:
  "ensures (Inl Abort) R" "ensures (Inl NullDeref) R" "ensures (Inl WildDeref) R" "ensures (Inl OutOfBounds) R"
  "ensures (Inl UseAfterFree) R" "ensures (Inl UninitRead) R" "ensures (Inl IntOverflow) R" "ensures (Inl Hang) R"
  by simp_all

lemma ensures_cases [outcome]:
  "(\<And>a b. x = (a, b) \<Longrightarrow> ensures (f a b) R) \<Longrightarrow> ensures (case x of (a, b) \<Rightarrow> f a b) R"
  "(p = None \<Longrightarrow> ensures m R) \<Longrightarrow> (\<And>a. p = Some a \<Longrightarrow> ensures (g a) R) \<Longrightarrow> ensures (case p of None \<Rightarrow> m | Some a \<Rightarrow> g a) R"
  "(\<And>a. y = Inl a \<Longrightarrow> ensures (h a) R) \<Longrightarrow> (\<And>b. y = Inr b \<Longrightarrow> ensures (k b) R) \<Longrightarrow> ensures (case y of Inl a \<Rightarrow> h a | Inr b \<Rightarrow> k b) R"
  "ensures (q t) R \<Longrightarrow> ensures (let z = t in q z) R"
  by (simp_all split: prod.splits option.splits sum.splits)

lemma ensures_weaken: "ensures m Q \<Longrightarrow> (\<And>x. Q x \<Longrightarrow> R x) \<Longrightarrow> ensures m R"
  by (cases m) simp_all

lemma ensuresD: "ensures m R \<Longrightarrow> m = Inr x \<Longrightarrow> R x"
  by simp

lemma ensures_assert [outcome]: "(b \<Longrightarrow> R ()) \<Longrightarrow> ensures (assert_that b) R"
  by (cases b) simp_all

text \<open>Operations that touch no mutex.\<close>

abbreviation calm :: "fault + 'a \<Rightarrow> bool" where
  "calm m \<equiv> ensures m (\<lambda>_. True)"

lemma ensures_any: "calm m \<Longrightarrow> (\<And>x. m = Inr x \<Longrightarrow> R x) \<Longrightarrow> ensures m R"
  by (cases m) simp_all


lemma calm_any: "calm m \<Longrightarrow> (\<And>x. R x) \<Longrightarrow> ensures m R"
  by (cases m) simp_all

subsection \<open>Arrays\<close>

lemma calm_c_int: "calm (c_int x)" and calm_read: "calm (parr_read p i)" and calm_write: "calm (parr_write p i c)"
  by (simp_all add: c_int_def parr_read_def parr_write_def split: option.split)

lemma calm_ptr: "calm (parr_ptr p i)"
  unfolding parr_ptr_def by (rule ensures_rbind, rule calm_any [OF calm_read]) (simp split: cell.split)

lemma calm_count: "calm (parr_count p i len)"
  by (induction p i len rule: parr_count.induct)
    (subst parr_count.simps, auto intro!: ensures_rbind ensures_any [OF calm_read])

lemma calm_all_empty: "calm (parr_all_empty p i)"
  by (induction p i rule: parr_all_empty.induct)
    (subst parr_all_empty.simps, auto intro!: ensures_rbind ensures_any [OF calm_read])

lemma calm_find_slot: "calm (parr_find_slot p i)"
  by (induction p i rule: parr_find_slot.induct)
    (subst parr_find_slot.simps, auto intro!: ensures_rbind ensures_any [OF calm_read])

lemma calm_tail_empty: "calm (parr_tail_empty p d i)"
  by (induction p d i rule: parr_tail_empty.induct)
    (subst parr_tail_empty.simps, auto intro!: ensures_rbind ensures_any [OF calm_read])

lemma calm_begin_loop: "calm (parr_begin_loop p i)"
  by (induction p i rule: parr_begin_loop.induct)
    (subst parr_begin_loop.simps, auto intro!: ensures_rbind ensures_any [OF calm_read] split: cell.split)

lemma calm_next_loop: "calm (parr_next_loop p i j)"
  by (induction p i j rule: parr_next_loop.induct)
    (subst parr_next_loop.simps, auto intro!: ensures_rbind ensures_any [OF calm_read] split: cell.split)

lemma calm_size: "calm (fsock_parr_size p)" and calm_can_shrink: "calm (fsock_parr_can_shrink p)" and calm_begin: "calm (fsock_parr_begin p)"
  by (simp_all add: fsock_parr_size_def calm_count fsock_parr_can_shrink_def calm_tail_empty fsock_parr_begin_def calm_begin_loop)

lemma calm_next: "calm (fsock_parr_next p i)"
  unfolding fsock_parr_next_def by (auto intro!: outcome simp: calm_next_loop)

lemma calm_term: "calm (fsock_parr_term p)"
  unfolding fsock_parr_term_def by (rule ensures_rbind, rule calm_any [OF calm_size]) (auto intro: outcome)

lemma calm_realloc: "calm (fsock_parr_realloc al p n)"
  unfolding fsock_parr_realloc_def by (rule ensures_rbind, rule calm_any [OF calm_c_int]) simp

lemma calm_insert: "calm (fsock_parr_insert al p e)"
  unfolding fsock_parr_insert_def
  by (rule outcome calm_any [OF calm_realloc] calm_any [OF calm_find_slot] calm_any [OF calm_write] calm_any [OF calm_c_int] | simp)+

lemma calm_shrink_loop: "parr_shrink_loop al p = Some r \<Longrightarrow> calm r"
proof (induction al p r rule: parr_shrink_loop.raw_induct [rotated, consumes 1, case_names step])
  case (step g al p r)
  have t: "calm (fsock_parr_can_shrink p)" "calm (fsock_parr_term p)" "calm (fsock_parr_realloc al p (- pa_increment p))"
    by (rule calm_can_shrink calm_term calm_realloc)+
  show ?case
    using step(2) t step(1) by (auto split: sum.splits if_splits prod.splits)
qed

lemma calm_clear: "calm (fsock_parr_clear al p i)"
  unfolding fsock_parr_clear_def
  by (rule outcome calm_any [OF calm_write] | simp add: calm_shrink_loop)+

subsection \<open>Queues and pointers\<close>

lemma calm_queue:
  "calm (fsock_queue_push n q i)" "calm (fsock_queue_pop n q)" "calm (queue_splice n q l)"
  unfolding fsock_queue_push_def fsock_queue_pop_def queue_splice_def
  by (auto intro!: outcome simp: Let_def split: link.splits)

lemma calm_remove_loop: "queue_remove_loop n q i it prev = Some r \<Longrightarrow> calm r"
proof (induction n q i it prev r rule: queue_remove_loop.raw_induct [rotated, consumes 1, case_names step])
  case (step g n q i it prev r)
  show ?case using step(2) step(1) by (auto split: link.splits if_splits)
qed

lemma calm_remove: "calm (fsock_queue_remove n q i)"
  by (auto simp: fsock_queue_remove_def calm_remove_loop split: option.splits)

lemma calm_tasks_term: "calm (tasks_term its w)"
  by (induction its) (auto intro!: outcome simp: fsock_task_term_def)

lemma calm_deref: "calm (ptr_deref p)" "calm (cell_ptr c)" "calm (io_fd_of v)" "calm (thread_at w i)" "calm (fsock_mutex_term l w)" "calm (fsock_task_term it w)"
  by (auto simp: ptr_deref_def cell_ptr_def io_fd_of_def thread_at_def fsock_mutex_term_def fsock_task_term_def
      intro!: outcome split: option.split cell.split)

text \<open>The rules, with what the continuation may use of a pointer.\<close>

lemma deref_outcome [outcome]: "(\<And>a. p = Some a \<Longrightarrow> R a) \<Longrightarrow> ensures (ptr_deref p) R"
  by (cases p) (simp_all add: ptr_deref_def)

lemma cell_outcome [outcome]: "(\<And>a. c = Elem a \<Longrightarrow> R a) \<Longrightarrow> ensures (cell_ptr c) R"
  by (cases c) (simp_all add: cell_ptr_def)

lemma parr_read_outcome [outcome]: "(\<And>c. parr_read p i = Inr c \<Longrightarrow> R c) \<Longrightarrow> ensures (parr_read p i) R"
  by (rule ensures_any [OF calm_read])

lemma parr_ptr_outcome [outcome]: "(\<And>a. parr_ptr p i = Inr a \<Longrightarrow> R a) \<Longrightarrow> ensures (parr_ptr p i) R"
  by (rule ensures_any [OF calm_ptr])

lemma parr_insert_outcome [outcome]:
  "(\<And>j p'. fsock_parr_insert al p e = Inr (j, p') \<Longrightarrow> R (j, p')) \<Longrightarrow> ensures (fsock_parr_insert al p e) R"
  by (rule ensures_any [OF calm_insert]) auto

lemma parr_clear_outcome [outcome]:
  "(\<And>rc p'. fsock_parr_clear al p i = Inr (rc, p') \<Longrightarrow> R (rc, p')) \<Longrightarrow> ensures (fsock_parr_clear al p i) R"
  by (rule ensures_any [OF calm_clear]) auto

lemmas calm_outcome [outcome] =
  calm_any [OF calm_c_int] calm_any [OF calm_size] calm_any [OF calm_begin] calm_any [OF calm_next] calm_any [OF calm_term]
  calm_any [OF calm_queue(1)] calm_any [OF calm_queue(2)] calm_any [OF calm_queue(3)] calm_any [OF calm_remove]
  calm_any [OF calm_deref(3)] calm_any [OF calm_deref(4)] calm_any [OF calm_deref(5)] calm_any [OF calm_deref(6)]
  calm_any [OF calm_tasks_term]

end
