(* ===== verification/Outcomes.thy ===== *)
theory Outcomes
  imports Async Handles Ensures
begin

unbundle bit_operations_syntax

text \<open>
  The invariant that every operation of the library keeps on every path that returns, the error returns included: the
  operation holds exactly the mutexes it held before, there are four threads, the thread counter stays in range,
  the fields of every socket stay in theirs, and the pointers between the sockets and from the table of sockets lead
  where they should. Each operation has one rule, in the collection \<open>outcome\<close>, and the rule of an operation is
  proved by running the collection over its body. This theory has the rules of the parts; the theory Handling has
  those of the handlers and the theory Calls those of the public interface.
\<close>

subsection \<open>What is kept\<close>

definition sock_wf :: "'x sock \<Rightarrow> bool" where
  "sock_wf s \<longleftrightarrow>
     s_type s \<in> {FSOCK_SOCK_BASE, FSOCK_SOCK_BIND, FSOCK_SOCK_IN, FSOCK_SOCK_OUT} \<and>
     (\<forall>t. s_thr s = Some t \<longrightarrow> t < 4) \<and>
     s_reading s \<in> {FSOCK_SOCK_STOP_OP, 0, 1} \<and> s_writing s \<in> {FSOCK_SOCK_STOP_OP, 0, 1} \<and>
     s_want_efd s \<in> {0, 1} \<and> s_want_wcond s \<in> {0, 1} \<and>
     s_sndhwm s = FSOCK_SOCK_HWM_DEFAULT \<and> s_rcvhwm s = FSOCK_SOCK_HWM_DEFAULT"

text \<open>
  Every address has a role, which changes only in one direction: it is not yet allocated, allocated for a
  socket that is not initialised, a base socket in the table, a base socket taken out of the table, a bind or
  connection, or a connection that is known to have lost its peer. Addresses are not used twice, so a role outlives the socket.
\<close>

datatype role = Unborn | Pending | Base | Leaving | Part | Lost

definition is_part :: "role \<Rightarrow> bool" where
  "is_part r \<longleftrightarrow> r = Part \<or> r = Lost"

abbreviation marked :: "'x sock \<Rightarrow> bool" where
  "marked s \<equiv> s_flags s AND FSOCK_SOCK_ZOMBIE \<noteq> 0"

definition role_ok :: "int \<Rightarrow> role \<Rightarrow> bool" where
  "role_ok type r \<longleftrightarrow> (if type = FSOCK_SOCK_BASE then r = Base \<or> r = Leaving else is_part r)"

definition kids :: "'x sock \<Rightarrow> nat set" where
  "kids s = parr_elems (s_conns s) \<union> parr_elems (s_binds s)"

definition mem_ok :: "(nat \<Rightarrow> role) \<Rightarrow> 'x world \<Rightarrow> bool" where
  "mem_ok L w \<longleftrightarrow>
     (\<forall>a \<ge> w_allocs w. L a = Unborn) \<and>
     (\<forall>a s. w_heap w a = Some s \<longrightarrow> sock_wf s \<and> role_ok (s_type s) (L a) \<and> (L a = Lost \<longrightarrow> marked s) \<and> (\<forall>c \<in> kids s. is_part (L c)) \<and>
        (\<forall>b. s_owner s = Some b \<longrightarrow> L b = Base \<or> L b = Leaving)) \<and>
     once (cells (g_socks w)) \<and> (\<forall>a \<in> parr_elems (g_socks w). L a = Base \<and> w_heap w a \<noteq> None)"

text \<open>
  What a call knows of the roles. Another thread may take a base socket out of the table, or find that a
  connection is lost.
\<close>

definition becomes :: "role \<Rightarrow> role \<Rightarrow> bool" where
  "becomes r q \<longleftrightarrow> q = r \<or> r = Base \<and> q = Leaving \<or> r = Part \<and> q = Lost"

definition knows :: "(nat \<Rightarrow> role option) \<Rightarrow> (nat \<Rightarrow> role) \<Rightarrow> bool" where
  "knows K L \<longleftrightarrow> (\<forall>a r. K a = Some r \<longrightarrow> r \<noteq> Unborn \<and> becomes r (L a))"

definition lib_inv :: "(nat \<Rightarrow> role option) \<Rightarrow> lockid set \<Rightarrow> 'x world \<Rightarrow> bool" where
  "lib_inv K H w \<longleftrightarrow> w_held w = H \<and> length (w_threads w) = 4 \<and> 0 \<le> thr_last_idx w \<and> thr_last_idx w < 4 \<and>
     (\<exists>L. knows K L \<and> mem_ok L w)"

lemma becomes_simps [simp]:
  "becomes Base q = (q = Base \<or> q = Leaving)" "becomes Part q = is_part q" "becomes Unborn q = (q = Unborn)"
  "becomes Pending q = (q = Pending)" "becomes Leaving q = (q = Leaving)" "becomes Lost q = (q = Lost)" "becomes r r"
  by (auto simp: becomes_def is_part_def)

lemma is_part_simps [simp]:
  "is_part Part" "is_part Lost" "\<not> is_part Unborn" "\<not> is_part Pending" "\<not> is_part Base" "\<not> is_part Leaving"
  by (simp_all add: is_part_def)

lemma knowsD:
  assumes "knows K L" "K a = Some r"
  shows "r \<noteq> Unborn" "becomes r (L a)"
  using assms unfolding knows_def by blast+

lemma knows_upd: "knows K L \<Longrightarrow> r \<noteq> Unborn \<Longrightarrow> knows (K(a \<mapsto> r)) (L(a := r))"
  by (simp add: knows_def)

lemma mem_ok_born: "mem_ok L w \<Longrightarrow> L a = r \<Longrightarrow> r \<noteq> Unborn \<Longrightarrow> a < w_allocs w"
  by (rule ccontr) (simp add: mem_ok_def)

lemma mem_ok_heap:
  assumes "mem_ok L w" "w_heap w a = Some s"
  shows "sock_wf s" "role_ok (s_type s) (L a)" "L a = Lost \<Longrightarrow> marked s" "c \<in> kids s \<Longrightarrow> is_part (L c)"
    "s_owner s = Some b \<Longrightarrow> L b = Base \<or> L b = Leaving"
  using assms unfolding mem_ok_def by blast+

lemma mem_ok_frame [simp]:
  "mem_ok L (w\<lparr>thr_last_idx := k\<rparr>) = mem_ok L w" "mem_ok L (w\<lparr>w_held := H\<rparr>) = mem_ok L w" "mem_ok L (w\<lparr>w_threads := ts\<rparr>) = mem_ok L w"
  by (simp_all add: mem_ok_def)

lemma lib_inv_frame [simp]:
  "lib_inv K H (w\<lparr>w_next := n\<rparr>) = lib_inv K H w" "lib_inv K H (w\<lparr>w_events := e\<rparr>) = lib_inv K H w"
  "lib_inv K H (w\<lparr>w_tasks := t\<rparr>) = lib_inv K H w" "lib_inv K H (w\<lparr>w_tdata := d\<rparr>) = lib_inv K H w"
  "lib_inv K H (w\<lparr>w_out := l\<rparr>) = lib_inv K H w" "lib_inv K H (w\<lparr>w_oframe := f\<rparr>) = lib_inv K H w"
  "lib_inv K H (w\<lparr>w_log := lg\<rparr>) = lib_inv K H w" "lib_inv K H (w\<lparr>w_errno := er\<rparr>) = lib_inv K H w"
  "lib_inv K H (w\<lparr>g_initialized := b\<rparr>) = lib_inv K H w"
  "lib_inv K H (log_eff ef w) = lib_inv K H w" "lib_inv K H (set_errno er w) = lib_inv K H w"
  by (simp_all add: lib_inv_def mem_ok_def log_eff_def set_errno_def)

lemma heap_frame [simp]:
  "w_heap (log_eff e w) = w_heap w" "w_heap (set_errno er w) = w_heap w" "w_heap (sock_put a s w) = (w_heap w)(a := Some s)"
  by (simp_all add: log_eff_def set_errno_def sock_put_def)

definition base_known :: "(nat \<Rightarrow> role option) \<Rightarrow> nat \<Rightarrow> bool" where
  "base_known K b \<longleftrightarrow> K b = Some Base \<or> K b = Some Leaving"

definition part_known :: "(nat \<Rightarrow> role option) \<Rightarrow> nat \<Rightarrow> bool" where
  "part_known K c \<longleftrightarrow> K c = Some Part \<or> K c = Some Lost"

lemma known_roles:
  assumes "knows K L"
  shows "base_known K b \<Longrightarrow> L b = Base \<or> L b = Leaving" "part_known K c \<Longrightarrow> is_part (L c)"
  using knowsD [OF assms] unfolding base_known_def part_known_def by fastforce+

text \<open>A change of a socket that keeps what the invariant says of it.\<close>

definition fits :: "(nat \<Rightarrow> role option) \<Rightarrow> 'x sock \<Rightarrow> 'x sock \<Rightarrow> bool" where
  "fits K s s' \<longleftrightarrow> sock_wf s' \<and> s_type s' = s_type s \<and> (marked s \<longrightarrow> marked s') \<and> s_conns s' = s_conns s \<and> s_binds s' = s_binds s \<and>
     (s_owner s' = s_owner s \<or> (\<forall>b. s_owner s' = Some b \<longrightarrow> base_known K b))"

lemma lib_inv_wf: "lib_inv K H w \<Longrightarrow> w_heap w a = Some s \<Longrightarrow> sock_wf s"
  by (auto simp: lib_inv_def mem_ok_def)

lemma lib_inv_put:
  assumes "lib_inv K H w" "w_heap w a = Some s" "sock_wf s'" "s_type s' = s_type s" "marked s \<Longrightarrow> marked s'" "\<And>c. c \<in> kids s' \<Longrightarrow> c \<in> kids s \<or> part_known K c"
    "s_owner s' = s_owner s \<or> (\<forall>b. s_owner s' = Some b \<longrightarrow> base_known K b)"
  shows "lib_inv K H (sock_put a s' w)"
proof -
  obtain L where L: "knows K L" "mem_ok L w" using assms(1) by (auto simp: lib_inv_def)
  note s = mem_ok_heap [OF L(2) assms(2)]
  have "\<forall>c \<in> kids s'. is_part (L c)" using assms(6) s(4) known_roles(2) [OF L(1)] by blast
  moreover have "\<forall>b. s_owner s' = Some b \<longrightarrow> L b = Base \<or> L b = Leaving" using assms(7) s(5) known_roles(1) [OF L(1)] by auto
  ultimately have "mem_ok L (sock_put a s' w)"
    using L(2) s(2,3) assms(3,4,5) by (simp add: mem_ok_def sock_put_def)
  then show ?thesis using assms(1) L(1) by (auto simp: lib_inv_def sock_put_def)
qed

lemma lib_inv_sock_put:
  "lib_inv K H w \<Longrightarrow> w_heap w a = Some s \<Longrightarrow> fits K s s' \<Longrightarrow> lib_inv K H (sock_put a s' w)"
  by (rule lib_inv_put [where s = s]) (auto simp: fits_def kids_def)

lemma lib_inv_thread_put [simp]: "lib_inv K H (thread_put i t w) = lib_inv K H w"
  by (simp add: lib_inv_def thread_put_def)

lemma lib_inv_allocs:
  assumes "lib_inv K H w" "w_allocs w \<le> k"
  shows "lib_inv K H (w\<lparr>w_allocs := k\<rparr>)"
proof -
  obtain L where L: "knows K L" "mem_ok L w" using assms(1) by (auto simp: lib_inv_def)
  then have "\<forall>a \<ge> k. L a = Unborn" using assms(2) by (simp add: mem_ok_def)
  then have "mem_ok L (w\<lparr>w_allocs := k\<rparr>)" using L(2) by (simp add: mem_ok_def)
  then show ?thesis using assms(1) L(1) by (auto simp: lib_inv_def)
qed

lemma lib_inv_socks:
  assumes "lib_inv K H w" "parr_elems p \<subseteq> parr_elems (g_socks w)" "once (cells (g_socks w)) \<Longrightarrow> once (cells p)"
  shows "lib_inv K H (w\<lparr>g_socks := p\<rparr>)"
proof -
  obtain L where L: "knows K L" "mem_ok L w" using assms(1) by (auto simp: lib_inv_def)
  then have "mem_ok L (w\<lparr>g_socks := p\<rparr>)" using assms(2,3) unfolding mem_ok_def by auto
  then show ?thesis using assms(1) L(1) by (auto simp: lib_inv_def)
qed

lemma lib_inv_mutex_init: "lib_inv K H w \<Longrightarrow> lib_inv K (H - {l}) (fsock_mutex_init l w)"
  by (auto simp: lib_inv_def fsock_mutex_init_def)

lemma lib_inv_choose: "lib_inv K H w \<Longrightarrow> f_choose_thr w = (t, w') \<Longrightarrow> t < 4 \<and> lib_inv K H w'"
  by (auto simp: lib_inv_def f_choose_thr_def Let_def)

text \<open>
  A call learns the role of an address from the pointer it follows to it, and may forget it at its end. What it
  knew before stays.
\<close>

definition learn :: "(nat \<Rightarrow> role option) \<Rightarrow> nat \<Rightarrow> role \<Rightarrow> nat \<Rightarrow> role option" where
  "learn K a r = (if K a = None then K(a \<mapsto> r) else K)"

lemma learn_keeps: "K b = Some q \<Longrightarrow> learn K a r b = Some q" "base_known K b \<Longrightarrow> base_known (learn K a r) b"
  "part_known K b \<Longrightarrow> part_known (learn K a r) b"
  by (auto simp: learn_def base_known_def part_known_def)

lemma lib_inv_know:
  assumes "lib_inv K H w" "\<And>L. mem_ok L w \<Longrightarrow> becomes r (L a)" "r = Base \<or> r = Part"
  shows "lib_inv (learn K a r) H w" "case learn K a r a of None \<Rightarrow> False | Some q \<Rightarrow> becomes r q"
proof -
  obtain L where L: "knows K L" "mem_ok L w" using assms(1) by (auto simp: lib_inv_def)
  then have "knows (learn K a r) L" using assms(2) [OF L(2)] assms(3) by (auto simp: knows_def learn_def)
  then show "lib_inv (learn K a r) H w" using assms(1) L(2) by (auto simp: lib_inv_def)
  show "case learn K a r a of None \<Rightarrow> False | Some q \<Rightarrow> becomes r q"
  proof (cases "K a")
    case (Some q)
    then have "becomes q (L a)" "q \<noteq> Unborn" using knowsD [OF L(1)] by blast+
    then show ?thesis using assms(2) [OF L(2)] assms(3) Some by (auto simp: learn_def is_part_def becomes_def)
  qed (simp add: learn_def)
qed

lemma lib_inv_learn:
  assumes "lib_inv K H w"
  shows "w_heap w a = Some s \<Longrightarrow> c \<in> kids s \<Longrightarrow> lib_inv (learn K c Part) H w \<and> part_known (learn K c Part) c"
    and "w_heap w a = Some s \<Longrightarrow> s_owner s = Some b \<Longrightarrow> lib_inv (learn K b Base) H w \<and> base_known (learn K b Base) b"
    and "a \<in> parr_elems (g_socks w) \<Longrightarrow> lib_inv (learn K a Base) H w \<and> learn K a Base a = Some Base"
proof -
  note know = lib_inv_know [OF assms]
  show "w_heap w a = Some s \<Longrightarrow> c \<in> kids s \<Longrightarrow> lib_inv (learn K c Part) H w \<and> part_known (learn K c Part) c"
    using know [where a = c and r = Part] mem_ok_heap(4) [of _ w a s c] by (auto simp: part_known_def is_part_def split: option.splits)
  show "w_heap w a = Some s \<Longrightarrow> s_owner s = Some b \<Longrightarrow> lib_inv (learn K b Base) H w \<and> base_known (learn K b Base) b"
    using know [where a = b and r = Base] mem_ok_heap(5) [of _ w a s b] by (auto simp: base_known_def split: option.splits)
  show "lib_inv (learn K a Base) H w \<and> learn K a Base a = Some Base" if "a \<in> parr_elems (g_socks w)"
  proof -
    have a: "L a = Base" if "mem_ok L w" for L using that \<open>a \<in> parr_elems (g_socks w)\<close> by (simp add: mem_ok_def)
    obtain L where L: "knows K L" "mem_ok L w" using assms by (auto simp: lib_inv_def)
    then have "K a = None \<or> K a = Some Base" using a [OF L(2)] knowsD [OF L(1), of a] by (cases "K a") (auto simp: becomes_def)
    then show ?thesis using know(1) [where a = a and r = Base] a by (auto simp: learn_def)
  qed
qed

lemma lib_inv_mono:
  assumes "lib_inv K' H w" "\<And>b q. K b = Some q \<Longrightarrow> K' b = Some q"
  shows "lib_inv K H w"
proof -
  have "knows K' L \<Longrightarrow> knows K L" for L using assms(2) unfolding knows_def by blast
  then show ?thesis using assms(1) by (auto simp: lib_inv_def)
qed

lemma lib_inv_forget: "lib_inv (learn K a r) H w \<Longrightarrow> lib_inv K H w"
  by (erule lib_inv_mono) (simp add: learn_keeps)

lemma lib_inv_forget_new: "lib_inv (K(a \<mapsto> r)) H w \<Longrightarrow> K a = None \<Longrightarrow> lib_inv K H w"
  by (erule lib_inv_mono) auto

lemma lib_inv_sock_free:
  assumes "lib_inv K H w" "K a = Some r" "r \<noteq> Base"
  shows "lib_inv K H (sock_free a w)"
proof -
  obtain L where L: "knows K L" "mem_ok L w" using assms(1) by (auto simp: lib_inv_def)
  then have "L a \<noteq> Base" using assms(2,3) knowsD [OF L(1), of a] by (auto simp: becomes_def)
  then have "mem_ok L (sock_free a w)" using L(2) by (auto simp: mem_ok_def sock_free_def log_eff_def)
  then show ?thesis using assms(1) L(1) by (auto simp: lib_inv_def sock_free_def log_eff_def)
qed

subsection \<open>The parts\<close>

lemma lib_inv_held: "lib_inv K H w \<Longrightarrow> lib_inv K H' (w\<lparr>w_held := H'\<rparr>)"
  by (simp add: lib_inv_def)

lemma lock_outcome [outcome]:
  "lib_inv K H w \<Longrightarrow> l \<notin> H \<Longrightarrow> (\<And>w'. lib_inv K (insert l H) w' \<Longrightarrow> R w') \<Longrightarrow> ensures (fsock_mutex_lock l w) R"
  by (auto simp: fsock_mutex_lock_def lib_inv_def)

lemma unlock_outcome [outcome]:
  "lib_inv K H w \<Longrightarrow> l \<in> H \<Longrightarrow> (\<And>w'. lib_inv K (H - {l}) w' \<Longrightarrow> R w') \<Longrightarrow> ensures (fsock_mutex_unlock l w) R"
  by (auto simp: fsock_mutex_unlock_def lib_inv_def)

lemma glock_outcome [outcome]:
  "lib_inv K H w \<Longrightarrow> Glock \<notin> H \<Longrightarrow> (\<And>w'. lib_inv K (insert Glock H) w' \<Longrightarrow> R w') \<Longrightarrow> ensures (fsock_glock_lock w) R"
  "lib_inv K H w \<Longrightarrow> Glock \<in> H \<Longrightarrow> (\<And>w'. lib_inv K (H - {Glock}) w' \<Longrightarrow> R w') \<Longrightarrow> ensures (fsock_glock_unlock w) R"
  unfolding fsock_glock_lock_def fsock_glock_unlock_def by (rule lock_outcome unlock_outcome | assumption | simp)+

lemma sock_at_outcome [outcome]:
  "lib_inv K H w \<Longrightarrow> (\<And>s. w_heap w a = Some s \<Longrightarrow> sock_wf s \<Longrightarrow> R s) \<Longrightarrow> ensures (sock_at w a) R"
  using lib_inv_wf [of K H w a] by (auto simp: sock_at_def split: option.splits)

lemma sock_upd_outcome [outcome]:
  "lib_inv K H w \<Longrightarrow> (\<And>s. sock_wf s \<Longrightarrow> fits K s (f s)) \<Longrightarrow> (\<And>w'. lib_inv K H w' \<Longrightarrow> R w') \<Longrightarrow> ensures (sock_upd a f w) R"
  unfolding sock_upd_def by (rule ensures_rbind, rule sock_at_outcome) (auto intro: lib_inv_sock_put)

lemma lib_inv_task_init [simp]: "lib_inv K H (fsock_task_init it w) = lib_inv K H w"
  by (simp add: fsock_task_init_def)

lemma lib_inv_tasks_init [simp]: "lib_inv K H (fold fsock_task_init its w) = lib_inv K H w"
  by (induction its arbitrary: w) simp_all

lemma thread_push_outcome [outcome]:
  "lib_inv K H w \<Longrightarrow> (\<And>w'. lib_inv K H w' \<Longrightarrow> R w') \<Longrightarrow> ensures (thread_push i it w) R"
  unfolding thread_push_def by (intro outcome) (auto intro: outcome)

lemma thread_remove_outcome [outcome]:
  "lib_inv K H w \<Longrightarrow> (\<And>w'. lib_inv K H w' \<Longrightarrow> R w') \<Longrightarrow> ensures (thread_remove i it w) R"
  unfolding thread_remove_def by (intro outcome) (auto intro: outcome)

lemma thread_wake_outcome [outcome]:
  "lib_inv K H w \<Longrightarrow> (\<And>w'. lib_inv K H w' \<Longrightarrow> R w') \<Longrightarrow> ensures (thread_wake i w) R"
  unfolding thread_wake_def by (intro outcome) auto

text \<open>The mutexes of the worker threads are taken last.\<close>

definition no_thr :: "lockid set \<Rightarrow> bool" where
  "no_thr H \<longleftrightarrow> (\<forall>i. Thr_sync i \<notin> H)"

lemma no_thr_simps [simp]: "no_thr {}" "no_thr (insert Glock H) = no_thr H" "no_thr (insert (Sock_sync a) H) = no_thr H"
  by (simp_all add: no_thr_def)

lemma no_thrD: "no_thr H \<Longrightarrow> Thr_sync i \<notin> H"
  by (simp add: no_thr_def)

lemma Diff_insert_id: "l \<notin> H \<Longrightarrow> insert l H - {l} = H"
  by auto

lemma schedule_outcome [outcome]:
  "lib_inv K H w \<Longrightarrow> no_thr H \<Longrightarrow> (\<And>w'. lib_inv K H w' \<Longrightarrow> R w') \<Longrightarrow> ensures (fsock_thread_schedule_task i it w) R"
  unfolding fsock_thread_schedule_task_def
  by (rule outcome | assumption | simp add: no_thrD Diff_insert_id)+

lemma for_each_outcome:
  assumes "\<And>i w R. lib_inv K H w \<Longrightarrow> (\<And>w'. lib_inv K H w' \<Longrightarrow> R w') \<Longrightarrow> ensures (f i w) R"
  shows "lib_inv K H w \<Longrightarrow> (\<And>w'. lib_inv K H w' \<Longrightarrow> R w') \<Longrightarrow> ensures (for_each f is w) R"
proof (induction "is" arbitrary: w)
  case (Cons i "is")
  show ?case unfolding for_each.simps
    by (rule ensures_rbind, rule assms [OF Cons.prems(1)], rule Cons.IH) (use Cons.prems(2) in auto)
qed simp

lemma workers_signal_outcome [outcome]:
  "lib_inv K H w \<Longrightarrow> (\<And>w'. lib_inv K H w' \<Longrightarrow> R w') \<Longrightarrow> ensures (fsock_workers_signal w) R"
  unfolding fsock_workers_signal_def fsock_thread_schedule_task_signal_def
  by (rule for_each_outcome) (auto intro: outcome)

definition worker_locks :: "lockid set" where
  "worker_locks = {Thr_sync 0, Thr_sync 1, Thr_sync 2, Thr_sync 3}"

lemma no_thr_workers: "no_thr H \<Longrightarrow> H \<union> worker_locks - worker_locks = H" "no_thr H \<Longrightarrow> H \<inter> worker_locks = {}"
  by (auto simp: no_thr_def worker_locks_def)

lemma workers_lock_outcome [outcome]:
  "lib_inv K H w \<Longrightarrow> no_thr H \<Longrightarrow> (\<And>w'. lib_inv K (H \<union> worker_locks) w' \<Longrightarrow> R w') \<Longrightarrow> ensures (fsock_workers_lock w) R"
  unfolding fsock_workers_lock_def for_each.simps
proof -
  have eq: "insert (Thr_sync 3) (insert (Thr_sync 2) (insert (Thr_sync 1) (insert (Thr_sync 0) H))) = H \<union> worker_locks"
    by (auto simp: worker_locks_def)
  assume w: "lib_inv K H w" and n: "no_thr H" and r: "\<And>w'. lib_inv K (H \<union> worker_locks) w' \<Longrightarrow> R w'"
  show "ensures (rbind (fsock_mutex_lock (Thr_sync 0) w) (\<lambda>w. rbind (fsock_mutex_lock (Thr_sync 1) w)
      (\<lambda>w. rbind (fsock_mutex_lock (Thr_sync 2) w) (\<lambda>w. rbind (fsock_mutex_lock (Thr_sync 3) w) Inr)))) R"
    by (insert w n) (rule outcome | assumption | rule r, simp only: eq | simp add: no_thrD)+
qed

lemma workers_unlock_outcome [outcome]:
  "lib_inv K H w \<Longrightarrow> worker_locks \<subseteq> H \<Longrightarrow> (\<And>w'. lib_inv K (H - worker_locks) w' \<Longrightarrow> R w') \<Longrightarrow> ensures (fsock_workers_unlock w) R"
  unfolding fsock_workers_unlock_def for_each.simps
proof -
  have eq: "H - {Thr_sync 0} - {Thr_sync 1} - {Thr_sync 2} - {Thr_sync 3} = H - worker_locks" by (auto simp: worker_locks_def)
  assume w: "lib_inv K H w" and sub: "worker_locks \<subseteq> H" and r: "\<And>w'. lib_inv K (H - worker_locks) w' \<Longrightarrow> R w'"
  have mem: "Thr_sync 0 \<in> H" "Thr_sync 1 \<in> H" "Thr_sync 2 \<in> H" "Thr_sync 3 \<in> H" using sub by (auto simp: worker_locks_def)
  show "ensures (rbind (fsock_mutex_unlock (Thr_sync 0) w) (\<lambda>w. rbind (fsock_mutex_unlock (Thr_sync 1) w)
      (\<lambda>w. rbind (fsock_mutex_unlock (Thr_sync 2) w) (\<lambda>w. rbind (fsock_mutex_unlock (Thr_sync 3) w) Inr)))) R"
    by (insert w) (rule outcome | assumption | rule r, simp only: eq | simp add: mem [simplified])+
qed

lemma parr_fold_from_outcome:
  "lib_inv K H w \<Longrightarrow> (\<And>w'. lib_inv K H w' \<Longrightarrow> R w') \<Longrightarrow>
   (\<And>i a w R. lib_inv K H w \<Longrightarrow> (\<And>b w'. lib_inv K H w' \<Longrightarrow> R (b, w')) \<Longrightarrow> ensures (body i a w) R) \<Longrightarrow>
   ensures (parr_fold_from body p it w) R"
proof (induction body p it w arbitrary: R rule: parr_fold_from.induct)
  case (1 body p it w)
  show ?case
  proof (cases "fst it")
    case None
    then show ?thesis using "1.prems" by (subst parr_fold_from.simps) (cases it; simp)
  next
    case (Some e)
    then obtain i where it: "it = (Some e, i)" by (cases it) auto
    have e: "ensures (body i e w) (\<lambda>r. lib_inv K H (snd r))" using "1.prems"(1) by (rule "1.prems"(3)) simp
    show ?thesis
    proof (cases "body i e w")
      case (Inr r)
      obtain go w1 where r: "r = (go, w1)" by fastforce
      then have w1: "lib_inv K H w1" using e Inr by simp
      show ?thesis
      proof (cases go)
        case True
        show ?thesis
        proof (cases "fsock_parr_next p i")
          case (Inr it1)
          have "ensures (parr_fold_from body p it1 w1) R"
            by (rule "1.IH") (use it \<open>body i e w = Inr r\<close> r True Inr w1 "1.prems" in auto)
          then show ?thesis using it \<open>body i e w = Inr r\<close> r True Inr by (subst parr_fold_from.simps) simp
        qed (use it \<open>body i e w = Inr r\<close> r True calm_next [of p i] in \<open>subst parr_fold_from.simps, simp\<close>)
      qed (use it Inr r w1 "1.prems" in \<open>subst parr_fold_from.simps, simp\<close>)
    qed (use it e in \<open>subst parr_fold_from.simps, simp\<close>)
  qed
qed


lemma bulk_one_outcome [outcome]:
  "lib_inv K H w \<Longrightarrow> (\<And>w'. lib_inv K H w' \<Longrightarrow> R w') \<Longrightarrow> ensures (bulk_schedule_one field other c w) R"
  unfolding bulk_schedule_one_def fsock_thread_schedule_task_unsafe_def
  by (intro outcome | assumption)+

lemma bulk_unsafe_outcome [outcome]:
  "lib_inv K H w \<Longrightarrow> (\<And>w'. lib_inv K H w' \<Longrightarrow> R w') \<Longrightarrow> ensures (fsock_sock_bulk_schedule_unsafe a field other w) R"
  unfolding fsock_sock_bulk_schedule_unsafe_def parr_fold_def
  by (intro outcome parr_fold_from_outcome [where K = K and H = H] | assumption)+

lemma bulk_schedule_outcome [outcome]:
  "lib_inv K H w \<Longrightarrow> no_thr H \<Longrightarrow> (\<And>w'. lib_inv K H w' \<Longrightarrow> R w') \<Longrightarrow> ensures (bulk_schedule a field other w) R"
  unfolding bulk_schedule_def
  by (rule outcome | assumption | simp add: no_thr_workers)+

lemma malloc_outcome:
  "lib_inv K H w \<Longrightarrow> (\<And>p w1. lib_inv K H w1 \<Longrightarrow> w_heap w1 = w_heap w \<Longrightarrow> ensures (f p w1) R) \<Longrightarrow> ensures (case c_malloc w of (p, w1) \<Rightarrow> f p w1) R"
  by (auto simp: c_malloc_def Let_def lib_inv_allocs)

lemma choose_outcome:
  "lib_inv K H w \<Longrightarrow> (\<And>t w1. t < 4 \<Longrightarrow> lib_inv K H w1 \<Longrightarrow> ensures (f t w1) R) \<Longrightarrow> ensures (case f_choose_thr w of (t, w1) \<Rightarrow> f t w1) R"
  using lib_inv_choose [of K H w] by (auto split: prod.splits)

lemmas outcome_special = malloc_outcome choose_outcome

lemma mem_ok_unused:
  assumes "mem_ok L w" "L a = Unborn \<or> L a = Pending"
  shows "w_heap w a = None" "a \<notin> parr_elems (g_socks w)" "w_heap w b = Some s \<Longrightarrow> a \<notin> kids s \<and> s_owner s \<noteq> Some a"
proof -
  have "w_heap w a = Some s \<Longrightarrow> role_ok (s_type s) (L a)" for s using assms(1) by (simp add: mem_ok_def)
  then show "w_heap w a = None" using assms(2) by (cases "w_heap w a") (auto simp: role_ok_def split: if_splits)
  have "a \<in> parr_elems (g_socks w) \<Longrightarrow> L a = Base" using assms(1) by (simp add: mem_ok_def)
  then show "a \<notin> parr_elems (g_socks w)" using assms(2) by auto
  show "w_heap w b = Some s \<Longrightarrow> a \<notin> kids s \<and> s_owner s \<noteq> Some a"
  proof (rule conjI; rule notI)
    assume b: "w_heap w b = Some s"
    show False if "a \<in> kids s" using assms(2) mem_ok_heap(4) [OF assms(1) b that] by auto
    show False if "s_owner s = Some a" using assms(2) mem_ok_heap(5) [OF assms(1) b that] by auto
  qed
qed

text \<open>Giving a role to an address that is not used yet, and then a socket.\<close>

lemma mem_ok_relabel:
  assumes L: "mem_ok L w" "L a = Unborn \<or> L a = Pending" and k: "a < k" "w_allocs w \<le> k"
  shows "mem_ok (L(a := r)) (w\<lparr>w_allocs := k\<rparr>)"
    and "sock_wf s \<Longrightarrow> kids s = {} \<Longrightarrow> s_owner s = None \<Longrightarrow> role_ok (s_type s) r \<Longrightarrow> r \<noteq> Lost \<Longrightarrow> mem_ok (L(a := r)) (sock_put a s (w\<lparr>w_allocs := k\<rparr>))"
proof -
  define M where "M = L(a := r)"
  have Ma: "M a = r" and Mo: "b \<noteq> a \<Longrightarrow> M b = L b" for b by (simp_all add: M_def)
  note u = mem_ok_unused [OF L]
  have old: "\<forall>b \<ge> k. M b = Unborn" "once (cells (g_socks w))" using L(1) k Mo by (auto simp: mem_ok_def)
  have tab: "\<forall>b \<in> parr_elems (g_socks w). M b = Base \<and> w_heap w b \<noteq> None" using L(1) u(2) Mo by (auto simp: mem_ok_def) metis+
  have heap: "sock_wf t \<and> role_ok (s_type t) (M b) \<and> (M b = Lost \<longrightarrow> marked t) \<and> (\<forall>c \<in> kids t. is_part (M c)) \<and>
      (\<forall>o'. s_owner t = Some o' \<longrightarrow> M o' = Base \<or> M o' = Leaving)" if "w_heap w b = Some t" for b t
  proof -
    have "b \<noteq> a" using that u(1) by auto
    moreover have "a \<notin> kids t" "s_owner t \<noteq> Some a" using u(3) [OF that] by auto
    moreover note mem_ok_heap [OF L(1) that]
    ultimately show ?thesis using Mo by metis
  qed
  show "mem_ok (L(a := r)) (w\<lparr>w_allocs := k\<rparr>)"
    unfolding M_def [symmetric] using old tab heap by (simp add: mem_ok_def)
  show "mem_ok (L(a := r)) (sock_put a s (w\<lparr>w_allocs := k\<rparr>))"
    if "sock_wf s" "kids s = {}" "s_owner s = None" "role_ok (s_type s) r" "r \<noteq> Lost"
    unfolding M_def [symmetric] using old tab heap that Ma by (simp add: mem_ok_def sock_put_def)
qed

text \<open>An allocation for a socket: nobody knows its address before.\<close>

lemma malloc_sock_outcome:
  assumes w: "lib_inv K H w" and none: "\<And>w1. lib_inv K H w1 \<Longrightarrow> w_heap w1 = w_heap w \<Longrightarrow> ensures (f None w1) R"
    and some: "\<And>a w1. K a = None \<Longrightarrow> lib_inv (K(a \<mapsto> Pending)) H w1 \<Longrightarrow> w_heap w1 = w_heap w \<Longrightarrow> ensures (f (Some a) w1) R"
  shows "ensures (case c_malloc w of (p, w1) \<Rightarrow> f p w1) R"
proof (cases "o_malloc (w_env w) (w_allocs w)")
  case True
  let ?a = "w_allocs w"
  let ?w1 = "w\<lparr>w_allocs := Suc ?a\<rparr>"
  obtain L where L: "knows K L" "mem_ok L w" using w by (auto simp: lib_inv_def)
  have a: "L ?a = Unborn" using L(2) by (simp add: mem_ok_def)
  then have fresh: "K ?a = None" using L(1) using knowsD [OF L(1), of ?a] by (cases "K ?a") (auto simp: becomes_def)
  have "knows (K(?a \<mapsto> Pending)) (L(?a := Pending))" using L(1) by (intro knows_upd) simp_all
  moreover have "mem_ok (L(?a := Pending)) ?w1"
    using a by (intro mem_ok_relabel(1) [OF L(2)]) simp_all
  ultimately have "lib_inv (K(?a \<mapsto> Pending)) H ?w1" using w by (auto simp: lib_inv_def)
  then show ?thesis using some [OF fresh] True by (simp add: c_malloc_ok)
next
  case False
  then show ?thesis using none [OF lib_inv_allocs [OF w]] by (simp add: c_malloc_fails)
qed

lemma event_push_outcome [outcome]:
  "lib_inv K H w \<Longrightarrow> (\<And>q' w'. lib_inv K H w' \<Longrightarrow> R (q', w')) \<Longrightarrow> ensures (event_push e ev q w) R"
  unfolding event_push_def by (intro outcome) simp

lemma queue_event_outcome [outcome]:
  "lib_inv K H w \<Longrightarrow> (\<And>rc q' w'. lib_inv K H w' \<Longrightarrow> R (rc, q', w')) \<Longrightarrow> ensures (fsock_queue_event q type fr c w) R"
  unfolding fsock_queue_event_def
  by (rule outcome_special outcome | assumption | simp)+

lemma conns_insert_outcome [outcome]:
  assumes w: "lib_inv K H w" and c: "part_known K c" and R: "\<And>i w'. lib_inv K H w' \<Longrightarrow> R (i, w')"
  shows "ensures (conns_insert a c w) R"
proof -
  have put: "lib_inv K H (sock_put a (s\<lparr>s_conns := p\<rparr>) w)"
    if "w_heap w a = Some s" "fsock_parr_insert (o_realloc (w_env w)) (s_conns s) c = Inr (i, p)" for s i p
    using lib_inv_wf [OF w that(1)] parr_insert_elems(1) [OF that(2)] c
    by (intro lib_inv_put [OF w that(1)]) (auto simp: sock_wf_def kids_def)
  show ?thesis unfolding conns_insert_def
    by (insert w) (rule outcome | assumption | simp add: Let_def put R)+
qed

lemma binds_insert_outcome [outcome]:
  assumes w: "lib_inv K H w" and c: "part_known K c" and R: "\<And>i w'. lib_inv K H w' \<Longrightarrow> R (i, w')"
  shows "ensures (binds_insert a c w) R"
proof -
  have put: "lib_inv K H (sock_put a (s\<lparr>s_binds := p\<rparr>) w)"
    if "w_heap w a = Some s" "fsock_parr_insert (o_realloc (w_env w)) (s_binds s) c = Inr (i, p)" for s i p
    using lib_inv_wf [OF w that(1)] parr_insert_elems(1) [OF that(2)] c
    by (intro lib_inv_put [OF w that(1)]) (auto simp: sock_wf_def kids_def)
  show ?thesis unfolding binds_insert_def
    by (insert w) (rule outcome | assumption | simp add: Let_def put R)+
qed

lemma conns_clear_outcome [outcome]:
  assumes w: "lib_inv K H w" and R: "\<And>w'. lib_inv K H w' \<Longrightarrow> R w'"
  shows "ensures (conns_clear a i w) R"
proof -
  have put: "lib_inv K H (sock_put a (s\<lparr>s_conns := p\<rparr>) w)"
    if "w_heap w a = Some s" "fsock_parr_clear (o_realloc (w_env w)) (s_conns s) i = Inr (rc, p)" for s rc p
    using lib_inv_wf [OF w that(1)] parr_clear_elems(1) [OF that(2)]
    by (intro lib_inv_put [OF w that(1)]) (auto simp: sock_wf_def kids_def)
  show ?thesis unfolding conns_clear_def
    by (insert w) (rule outcome | assumption | simp add: put R)+
qed

lemma binds_clear_outcome [outcome]:
  assumes w: "lib_inv K H w" and R: "\<And>w'. lib_inv K H w' \<Longrightarrow> R w'"
  shows "ensures (binds_clear a i w) R"
proof -
  have put: "lib_inv K H (sock_put a (s\<lparr>s_binds := p\<rparr>) w)"
    if "w_heap w a = Some s" "fsock_parr_clear (o_realloc (w_env w)) (s_binds s) i = Inr (rc, p)" for s rc p
    using lib_inv_wf [OF w that(1)] parr_clear_elems(1) [OF that(2)]
    by (intro lib_inv_put [OF w that(1)]) (auto simp: sock_wf_def kids_def)
  show ?thesis unfolding binds_clear_def
    by (insert w) (rule outcome | assumption | simp add: put R)+
qed

text \<open>A new socket: its address had been allocated for it.\<close>

lemma lib_inv_new:
  assumes w: "lib_inv K H w" "K a = Some Pending"
    and s: "sock_wf s" "kids s = {}" "s_owner s = None" "role_ok (s_type s) r" and r: "r = Base \<or> r = Part"
  shows "lib_inv (K(a \<mapsto> r)) H (sock_put a s w)"
proof -
  obtain L where L: "knows K L" "mem_ok L w" using w(1) by (auto simp: lib_inv_def)
  have a: "L a = Pending" using knowsD [OF L(1) w(2)] by simp
  have "knows (K(a \<mapsto> r)) (L(a := r))" using r L(1) by (intro knows_upd) auto
  moreover have "mem_ok (L(a := r)) (sock_put a s w)"
  proof -
    have "a < w_allocs w" using L(2) a by (rule mem_ok_born) simp
    then show ?thesis using mem_ok_relabel(2) [OF L(2), of a "w_allocs w" s r] a s r by auto
  qed
  ultimately show ?thesis using w(1) by (auto simp: lib_inv_def sock_put_def)
qed


end
