(* ===== verification/Handling.thy ===== *)
theory Handling
  imports Outcomes
begin

text \<open>
  The operations that start sockets, and the event handlers, keep the invariant of the theory Outcomes.
\<close>

subsection \<open>Starting\<close>

lemma tasks_init_frame [simp]:
  "g_socks (fold fsock_task_init its w) = g_socks w" "w_heap (fold fsock_task_init its w) = w_heap w"
  by (induction its arbitrary: w) (simp_all add: fsock_task_init_def)

lemma sock_init_outcome:
  assumes w: "lib_inv K H w" "K a = Some Pending" and H: "Sock_sync a \<notin> H"
    and t: "type \<in> {FSOCK_SOCK_BASE, FSOCK_SOCK_BIND, FSOCK_SOCK_IN, FSOCK_SOCK_OUT}" and r: "r = (if type = FSOCK_SOCK_BASE then Base else Part)"
    and R: "\<And>w'. lib_inv (K(a \<mapsto> r)) H w' \<Longrightarrow> g_socks w' = g_socks w \<Longrightarrow> w_heap w' a \<noteq> None \<Longrightarrow> R w'"
  shows "ensures (fsock_sock_init F a type w) R"
proof -
  have "lib_inv (K(a \<mapsto> r)) H (fsock_mutex_init (Sock_sync a) (sock_put a s w))"
    if "sock_wf s" "kids s = {}" "s_owner s = None" "role_ok (s_type s) r" for s
    using lib_inv_mutex_init [OF lib_inv_new [OF w that], of "Sock_sync a"] H r by simp
  moreover have "g_socks (fold fsock_task_init ts (fsock_mutex_init l (sock_put a s w))) = g_socks w"
    "w_heap (fold fsock_task_init ts (fsock_mutex_init l (sock_put a s w))) a = Some s" for s ts l
    by (simp_all add: sock_put_def fsock_mutex_init_def)
  moreover have efd: "calm (sock_efd_init a w)" by (simp add: sock_efd_init_def split: sysret.split)
  ultimately have "ensures (Inr (fold fsock_task_init ts (fsock_mutex_init (Sock_sync a) (sock_put a s w)))) R"
    if "sock_wf s" "kids s = {}" "s_owner s = None" "role_ok (s_type s) r" for s ts
    using R that by simp
  then show ?thesis unfolding fsock_sock_init_def
    by (intro ensures_rbind) (rule calm_any [OF efd], use t r in \<open>simp add: Let_def sock_wf_def kids_def role_ok_def\<close>)
qed

lemma io_init_outcome [outcome]:
  "lib_inv K H w \<Longrightarrow> (\<And>w'. lib_inv K H w' \<Longrightarrow> R w') \<Longrightarrow> ensures (io_init a k h fd w) R"
  unfolding io_init_def
  by (cases k) (rule outcome_special outcome | assumption | simp add: fits_def sock_wf_def Let_def)+

lemma start_connection_outcome [outcome]:
  "lib_inv K H w \<Longrightarrow> no_thr H \<Longrightarrow> (\<And>w'. lib_inv K H w' \<Longrightarrow> R w') \<Longrightarrow> ensures (fsock_thread_start_connection i a w) R"
  unfolding fsock_thread_start_connection_def
  by (rule outcome_special outcome | assumption | simp)+

lemma start_listen_outcome [outcome]:
  "lib_inv K H w \<Longrightarrow> no_thr H \<Longrightarrow> (\<And>w'. lib_inv K H w' \<Longrightarrow> R w') \<Longrightarrow> ensures (fsock_thread_start_listen i a addr port w) R"
  unfolding fsock_thread_start_listen_def
  by (rule outcome_special outcome | assumption | simp)+



subsection \<open>Accepting\<close>

lemma owner_outcome:
  assumes "lib_inv K H w" "w_heap w a = Some s" "\<And>b. lib_inv (learn K b Base) H w \<Longrightarrow> base_known (learn K b Base) b \<Longrightarrow> R b"
  shows "ensures (ptr_deref (s_owner s)) R"
  by (rule deref_outcome) (use lib_inv_learn(2) [OF assms(1,2)] assms(3) in auto)

lemma child_outcome:
  assumes "lib_inv K H w" "w_heap w a = Some s" "\<And>c. lib_inv (learn K c Part) H w \<Longrightarrow> part_known (learn K c Part) c \<Longrightarrow> R c"
  shows "ensures (parr_ptr (s_conns s) i) R" "ensures (parr_ptr (s_binds s) i) R"
  by (rule parr_ptr_outcome; use lib_inv_learn(1) [OF assms(1,2)] assms(3) in \<open>simp add: kids_def parr_ptr_elem\<close>)+

lemma free_part_outcome: "lib_inv K H w \<Longrightarrow> part_known K c \<Longrightarrow> lib_inv K H (sock_free c w)"
  unfolding part_known_def by (elim disjE) (rule lib_inv_sock_free, assumption, assumption, simp)+

lemma accept_insert_outcome:
  assumes "lib_inv M {} w2" "part_known M conn" "base_known M root" "\<And>w'. lib_inv M {} w' \<Longrightarrow> R w'"
  shows "ensures (rbind (sock_upd conn (\<lambda>s. s\<lparr>s_owner := Some root\<rparr>) w2) (\<lambda>w3.
          rbind (fsock_mutex_lock (Sock_sync a) w3) (\<lambda>w4.
          rbind (conns_insert a conn w4) (\<lambda>(indexlocal, w5).
          rbind (fsock_mutex_unlock (Sock_sync a) w5) (\<lambda>w6.
          if indexlocal < 0 then Inr (sock_free conn w6) else
          rbind (fsock_mutex_lock (Sock_sync root) w6) (\<lambda>w7.
          rbind (conns_insert root conn w7) (\<lambda>(index, w8).
          rbind (fsock_mutex_unlock (Sock_sync root) w8) (\<lambda>w9.
          if index < 0 then Inr w9 else
          rbind (fsock_glock_lock w9) (\<lambda>w10.
          let (thr, w11) = f_choose_thr w10 in
          rbind (fsock_glock_unlock w11) (\<lambda>w12.
          rbind (sock_upd conn (\<lambda>s. s\<lparr>s_thr := Some thr, s_fd := fd, s_idx := index, s_idxlocal := indexlocal\<rparr>) w12) (\<lambda>w13.
          fsock_thread_start_connection thr conn w13))))))))))) R"
proof -
  have free: "lib_inv M {} w' \<Longrightarrow> R (sock_free conn w')" for w' using assms(2,4) by (auto intro: free_part_outcome)
  show ?thesis
    by (insert assms) (rule free outcome_special outcome | assumption | simp add: fits_def sock_wf_def Diff_insert_id)+
qed

lemma accept_init_outcome:
  assumes new: "K conn = None" and w1: "lib_inv (K(conn \<mapsto> Pending)) {} w1" "w_heap w1 a = Some s"
    and R: "\<And>w'. lib_inv K {} w' \<Longrightarrow> R w'"
    and g: "\<And>M root w2. lib_inv M {} w2 \<Longrightarrow> part_known M conn \<Longrightarrow> base_known M root \<Longrightarrow>
              (\<And>w'. lib_inv M {} w' \<Longrightarrow> R w') \<Longrightarrow> ensures (g root w2) R"
  shows "ensures (rbind (ptr_deref (s_owner s)) (\<lambda>root.
          rbind (sock_at w1 root) (\<lambda>r.
          rbind (assert_that (s_type r = FSOCK_SOCK_BASE)) (\<lambda>_.
          rbind (fsock_sock_init F conn FSOCK_SOCK_IN w1) (g root))))) R"
proof (rule ensures_rbind, rule owner_outcome [OF w1])
  fix root
  define K' where "K' = learn (K(conn \<mapsto> Pending)) root Base"
  define M where "M = K'(conn \<mapsto> Part)"
  assume "lib_inv (learn (K(conn \<mapsto> Pending)) root Base) {} w1" "base_known (learn (K(conn \<mapsto> Pending)) root Base) root"
  then have k: "lib_inv K' {} w1" "base_known K' root" by (simp_all add: K'_def)
  have conn: "K' conn = Some Pending" by (simp add: K'_def learn_keeps)
  then have M: "part_known M conn" "base_known M root" using k(2) by (auto simp: M_def base_known_def part_known_def)
  have K: "lib_inv M {} w' \<Longrightarrow> R w'" for w'
    by (rule R, erule lib_inv_mono) (use new in \<open>auto simp: M_def K'_def learn_keeps\<close>)
  have "ensures (fsock_sock_init F conn FSOCK_SOCK_IN w1) (\<lambda>w2. ensures (g root w2) R)"
    by (rule sock_init_outcome [OF k(1) conn]) (use g [OF _ M K] in \<open>simp_all add: M_def\<close>)
  then show "ensures (rbind (sock_at w1 root) (\<lambda>r.
          rbind (assert_that (s_type r = FSOCK_SOCK_BASE)) (\<lambda>_.
          rbind (fsock_sock_init F conn FSOCK_SOCK_IN w1) (g root)))) R"
    by (intro ensures_rbind sock_at_outcome [OF k(1)] ensures_assert)
qed

lemma accept_outcome [outcome]:
  assumes w: "lib_inv K {} w" and R: "\<And>w'. lib_inv K {} w' \<Longrightarrow> R w'"
  shows "ensures (fsock_sock_accept_handler F a fd w) R"
proof -
  have conn: "ensures (rbind (ptr_deref (s_owner s)) (\<lambda>root.
          rbind (sock_at w1 root) (\<lambda>r.
          rbind (assert_that (s_type r = FSOCK_SOCK_BASE)) (\<lambda>_.
          rbind (fsock_sock_init F conn FSOCK_SOCK_IN w1) (g root))))) R"
    if "w_heap w a = Some s" "w_heap w1 = w_heap w" "K conn = None" "lib_inv (K(conn \<mapsto> Pending)) {} w1"
      "\<And>M root w2. lib_inv M {} w2 \<Longrightarrow> part_known M conn \<Longrightarrow> base_known M root \<Longrightarrow>
         (\<And>w'. lib_inv M {} w' \<Longrightarrow> R w') \<Longrightarrow> ensures (g root w2) R" for s conn w1 g
    by (rule accept_init_outcome [where a = a]) (use that R in simp_all)
  show ?thesis unfolding fsock_sock_accept_handler_def
    by (rule ensures_if, simp add: R [OF w], rule ensures_rbind, rule sock_at_outcome [OF w], rule malloc_sock_outcome [OF w])
      (simp add: R, simp only: option.case, rule conn, assumption+, rule accept_insert_outcome, assumption+)
qed

subsection \<open>Reading and writing\<close>

lemma let_put_outcome:
  "lib_inv K H w \<Longrightarrow> w_heap w a = Some s \<Longrightarrow> fits K s s' \<Longrightarrow> (\<And>w'. lib_inv K H w' \<Longrightarrow> ensures (f w') R) \<Longrightarrow>
   ensures (let z = sock_put a s' w in f z) R"
  by (simp add: lib_inv_sock_put Let_def)

lemma read_collect_outcome [outcome]:
  "lib_inv K H w \<Longrightarrow> (\<And>q' n w'. lib_inv K H w' \<Longrightarrow> R (q', n, w')) \<Longrightarrow> ensures (read_collect conn frs q cnt w) R"
proof (induction frs arbitrary: q cnt w)
  case (Cons fr frs)
  show ?case unfolding read_collect.simps
    by (rule ensures_rbind, rule sock_upd_outcome [OF Cons.prems(1)])
      (rule Cons.IH outcome | assumption | simp add: fits_def sock_wf_def Cons.prems(2))+
qed simp

lemma efd_signal_outcome [outcome]:
  "lib_inv K H w \<Longrightarrow> (\<And>w'. lib_inv K H w' \<Longrightarrow> R w') \<Longrightarrow> ensures (sock_efd_signal a w) R"
  unfolding sock_efd_signal_def
  by (rule let_put_outcome outcome lib_inv_sock_put | assumption | simp add: lib_inv_sock_put fits_def sock_wf_def)+

lemma read_append_outcome [outcome]:
  "lib_inv K H w \<Longrightarrow> (\<And>w'. lib_inv K H w' \<Longrightarrow> R w') \<Longrightarrow> ensures (read_append a q w) R"
  unfolding read_append_def
  by (rule let_put_outcome outcome lib_inv_sock_put | assumption | simp add: lib_inv_sock_put fits_def sock_wf_def)+

lemma read_deliver_outcome [outcome]:
  "lib_inv K {} w \<Longrightarrow> (\<And>w'. lib_inv K {} w' \<Longrightarrow> R w') \<Longrightarrow> ensures (read_deliver a q cnt w) R"
  unfolding read_deliver_def
  by (rule let_put_outcome outcome lib_inv_sock_put | assumption | simp add: lib_inv_sock_put fits_def sock_wf_def Diff_insert_id)+

lemma marked_or: "(x OR FSOCK_SOCK_ZOMBIE) AND FSOCK_SOCK_ZOMBIE \<noteq> 0"
  by (simp add: FSOCK_SOCK_ZOMBIE_def bit.conj_disj_distrib2)

lemma read_stop_outcome [outcome]:
  "lib_inv K {} w \<Longrightarrow> (\<And>w'. lib_inv K {} w' \<Longrightarrow> R w') \<Longrightarrow> ensures (read_stop conn w) R"
  unfolding read_stop_def
  by (rule outcome | assumption | simp add: fits_def sock_wf_def Diff_insert_id marked_or)+

lemma read_errno_frame [simp]:
  "lib_inv K H (case rd of Inl e \<Rightarrow> set_errno e w | Inr bs \<Rightarrow> w) = lib_inv K H w"
  "w_heap (case rd of Inl e \<Rightarrow> set_errno e w | Inr bs \<Rightarrow> w) = w_heap w"
  by (cases rd; simp)+

lemma read_handler_outcome [outcome]:
  "lib_inv K {} w \<Longrightarrow> (\<And>w'. lib_inv K {} w' \<Longrightarrow> R w') \<Longrightarrow> ensures (fsock_sock_read_handler F conn rd cnt0 w) R"
  unfolding fsock_sock_read_handler_def
  by (rule let_put_outcome outcome_special outcome | assumption | simp add: fits_def sock_wf_def)+

lemma write_merge_outcome [outcome]:
  "lib_inv K {} w \<Longrightarrow> (\<And>w'. lib_inv K {} w' \<Longrightarrow> R w') \<Longrightarrow> ensures (write_merge F conn ol w) R"
  unfolding write_merge_def
  by (rule outcome | assumption | simp add: fits_def sock_wf_def Diff_insert_id)+

lemma write_take_outcome [outcome]:
  "lib_inv K {} w \<Longrightarrow> (\<And>ol w'. lib_inv K {} w' \<Longrightarrow> R (ol, w')) \<Longrightarrow> ensures (write_take F conn w) R"
  unfolding write_take_def
  by (rule let_put_outcome outcome lib_inv_sock_put | assumption | simp add: lib_inv_sock_put fits_def sock_wf_def Diff_insert_id)+

lemma write_account_outcome [outcome]:
  "lib_inv K {} w \<Longrightarrow> (\<And>w'. lib_inv K {} w' \<Longrightarrow> R w') \<Longrightarrow> ensures (write_account a k w) R"
  unfolding write_account_def
  by (rule let_put_outcome outcome lib_inv_sock_put | assumption | simp add: lib_inv_sock_put fits_def sock_wf_def Diff_insert_id)+

lemma write_stop_outcome [outcome]:
  "lib_inv K {} w \<Longrightarrow> (\<And>w'. lib_inv K {} w' \<Longrightarrow> R w') \<Longrightarrow> ensures (write_stop conn w) R"
  unfolding write_stop_def
  by (rule outcome | assumption | simp add: fits_def sock_wf_def Diff_insert_id)+


text \<open>
  What other threads do while a call waits, or writes without its mutex, keeps the invariant too:
  they run the same operations.
\<close>

definition keeps_inv :: "('x world \<Rightarrow> 'x world) \<Rightarrow> bool" where
  "keeps_inv f \<longleftrightarrow> (\<forall>K w. lib_inv K {} w \<longrightarrow> lib_inv K {} (f w))"

lemma keeps_invD: "keeps_inv f \<Longrightarrow> lib_inv K {} w \<Longrightarrow> lib_inv K {} (f w)"
  by (simp add: keeps_inv_def)

definition writev_keeps :: "'x writev \<Rightarrow> bool" where
  "writev_keeps wv \<longleftrightarrow> (\<forall>n iovs. keeps_inv (\<lambda>w. snd (wv n iovs w)))"

lemma writev_keepsD: "writev_keeps wv \<Longrightarrow> wv n iovs w = (r, w') \<Longrightarrow> lib_inv K {} w \<Longrightarrow> lib_inv K {} w'"
  unfolding writev_keeps_def keeps_inv_def by (metis snd_conv)

lemma ensures_fault: "ensures m R \<Longrightarrow> m = Inl f \<Longrightarrow> \<not> lock_fault f"
  by simp

lemma write_inner_keeps:
  "write_inner F wv conn n ol removed w = Some r \<Longrightarrow> writev_keeps wv \<Longrightarrow> lib_inv K {} w \<Longrightarrow>
   ensures r (\<lambda>(e, n, k, w'). lib_inv K {} w')"
proof (induction F wv conn n ol removed w r rule: write_inner.raw_induct [rotated, consumes 1, case_names step])
  case (step g F wv conn n ol removed w r)
  show ?case
  proof (cases "frm_ol_empty F ol")
    case True
    then show ?thesis using step(2,4) by auto
  next
    case False
    obtain v w1 where v: "wv n (frm_ol_iovs F (w_out w) ol 128) w = (v, w1)" by fastforce
    have w1: "lib_inv K {} w1" by (rule writev_keepsD [OF step(3) v step(4)])
    show ?thesis
    proof (cases v)
      case (Inl e)
      have "ensures (write_merge F conn ol (set_errno e w1)) (\<lambda>w'. lib_inv K {} w')"
        by (rule write_merge_outcome [of K]) (simp_all add: w1)
      then have "ensures (rbind (write_merge F conn ol (set_errno e w1)) (\<lambda>w2.
          Inr (if removed = 0 then W_return else W_break, Suc n, removed, w2))) (\<lambda>(e, n, k, w'). lib_inv K {} w')"
        by (cases "write_merge F conn ol (set_errno e w1)") simp_all
      then show ?thesis using step(2) False v Inl w1 by (auto split: if_splits)
    next
      case (Inr nw)
      obtain k links ol1 where k: "frm_ol_written F (w_out w1) ol nw = (k, links, ol1)" by (rule prod_cases3)
      show ?thesis
      proof (cases "nw \<le> 0")
        case True
        then show ?thesis using step(2) False v Inr w1 by auto
      next
        case pos: False
        show ?thesis
        proof (cases "c_int (removed + k)")
          case (Inl f)
          then show ?thesis using step(2) False v \<open>v = Inr nw\<close> pos k ensures_fault [OF calm_c_int Inl] by auto
        next
          case (Inr r1)
          then have "g F wv conn (Suc n) ol1 r1 (w1\<lparr>w_out := links\<rparr>) = Some r"
            using step(2) False v \<open>v = Inr nw\<close> pos k by simp
          then show ?thesis by (rule step(1)) (simp_all add: step(3) w1)
        qed
      qed
    qed
  qed
qed

lemma write_outer_keeps:
  "write_outer F wv conn n removed w = Some r \<Longrightarrow> writev_keeps wv \<Longrightarrow> lib_inv K {} w \<Longrightarrow>
   ensures r (\<lambda>(e, k, w'). lib_inv K {} w')"
proof (induction F wv conn n removed w r rule: write_outer.raw_induct [rotated, consumes 1, case_names step])
  case (step g F wv conn n removed w r)
  have t: "ensures (write_take F conn w) (\<lambda>(ol, w'). lib_inv K {} w')"
    by (rule write_take_outcome [of K]) (simp_all add: step(4))
  show ?case
  proof (cases "write_take F conn w")
    case (Inr p)
    obtain ol w1 where p: "p = (ol, w1)" by fastforce
    have w1: "lib_inv K {} w1" using t Inr p by simp
    show ?thesis
    proof (cases ol)
      case None
      then show ?thesis using step(2) Inr p w1 by auto
    next
      case (Some l)
      show ?thesis
      proof (cases "write_inner F wv conn n l removed w1")
        case None
        then show ?thesis using step(2) Inr p Some by simp
      next
        case (Some i)
        show ?thesis
        proof (cases i)
          case (Inl f)
          then have "\<not> lock_fault f" using write_inner_keeps [OF Some step(3) w1] by simp
          then show ?thesis using step(2) \<open>write_take F conn w = Inr p\<close> p \<open>ol = Some l\<close> Some Inl by auto
        next
          case (Inr q)
          obtain e n2 k2 w2 where q: "q = (e, n2, k2, w2)" by (rule prod_cases4)
          have w2: "lib_inv K {} w2" using write_inner_keeps [OF Some step(3) w1] Inr q by simp
          show ?thesis
          proof (cases "e = W_return \<or> e = W_stop")
            case True
            then show ?thesis using step(2) \<open>write_take F conn w = Inr p\<close> p \<open>ol = Some l\<close> Some Inr q w2 by auto
          next
            case False
            then have "g F wv conn n2 k2 w2 = Some r"
              using step(2) \<open>write_take F conn w = Inr p\<close> p \<open>ol = Some l\<close> Some Inr q by simp
            then show ?thesis by (rule step(1)) (simp_all add: step(3) w2)
          qed
        qed
      qed
    qed
  qed (use step(2) t in auto)
qed

lemma write_handler_outcome [outcome]:
  assumes "lib_inv K {} w" "writev_keeps wv" "\<And>w'. lib_inv K {} w' \<Longrightarrow> R w'"
  shows "ensures (fsock_sock_write_handler F wv conn w) R"
proof -
  have loop: "ensures (case write_outer F wv conn 0 0 w of None \<Rightarrow> Inl Hang | Some (Inl f) \<Rightarrow> Inl f
      | Some (Inr (W_return, removed, w1)) \<Rightarrow> Inr w1
      | Some (Inr (W_stop, removed, w1)) \<Rightarrow> write_stop conn w1
      | Some (Inr (_, removed, w1)) \<Rightarrow>
          rbind (ptr_deref (s_owner s)) (\<lambda>owner. rbind (write_account owner removed w1) (write_stop conn))) R" for s :: "'a sock"
  proof (cases "write_outer F wv conn 0 0 w")
    case (Some r)
    note k = write_outer_keeps [OF Some assms(2,1)]
    show ?thesis
    proof (cases r)
      case (Inr p)
      obtain e n w1 where p: "p = (e, n, w1)" by (rule prod_cases3)
      then have w1: "lib_inv K {} w1" using k Inr by simp
      have st: "ensures (write_stop conn w1) R" by (rule write_stop_outcome [OF w1 assms(3)])
      have acc: "ensures (rbind (ptr_deref (s_owner s)) (\<lambda>owner. rbind (write_account owner n w1) (write_stop conn))) R"
        by (insert w1 assms(3)) (rule outcome | assumption)+
      show ?thesis using Some Inr p w1 st acc assms(3) by (cases e) simp_all
    qed (use Some k in simp)
  qed simp
  show ?thesis unfolding fsock_sock_write_handler_def
    by (insert assms(1,3)) (rule loop ensures_rbind ensures_if ensures_Inr calm_outcome sock_at_outcome ensures_assert | assumption | simp)+
qed


end
