(* ===== verification/Calls.thy ===== *)
theory Calls
  imports Handling
begin

text \<open>
  The workers, the end of a socket and the calls of the public interface keep the invariant of the
  theory Outcomes.
\<close>

subsection \<open>The workers\<close>

lemma sock_task_outcome [outcome]:
  "lib_inv K H w \<Longrightarrow> (\<And>w'. lib_inv K H w' \<Longrightarrow> R w') \<Longrightarrow> ensures (sock_task_routine i a k w) R"
  unfolding sock_task_routine_def
  by (cases k) (simp, (rule outcome | assumption | simp add: fits_def sock_wf_def)+)+

lemma lib_inv_free_task [simp]: "lib_inv K H (free_task d t w) = lib_inv K H w"
  by (simp add: free_task_def Let_def)

lemma thr_task_outcome [outcome]:
  "lib_inv K H w \<Longrightarrow> (\<And>w'. lib_inv K H w' \<Longrightarrow> R w') \<Longrightarrow> ensures (thr_task_routine i t w) R"
  unfolding thr_task_routine_def
  by (rule outcome | assumption | simp split: option.splits thr_task.splits | intro conjI allI impI)+

lemma task_fn_outcome [outcome]:
  "lib_inv K H w \<Longrightarrow> (\<And>w'. lib_inv K H w' \<Longrightarrow> R w') \<Longrightarrow> ensures (task_fn i it w) R"
  unfolding task_fn_def by (cases it) (simp_all, (rule outcome | assumption | blast)+)

lemma async_take_outcome:
  "lib_inv K {} w \<Longrightarrow> (\<And>q w'. lib_inv K {} w' \<Longrightarrow> R (q, w')) \<Longrightarrow> ensures (async_take i w) R"
  unfolding async_take_def
  by (rule outcome | assumption | simp add: Diff_insert_id)+

lemma world_pop_keeps: "world_pop w q = Inr (x, w', q') \<Longrightarrow> lib_inv K H w \<Longrightarrow> lib_inv K H w'"
  by (cases "fsock_queue_pop (w_next w) q") (auto simp: world_pop_def)

lemma calm_world_pop: "calm (world_pop w q)"
  unfolding world_pop_def by (rule ensures_rbind, rule calm_any [OF calm_queue(2)]) (simp split: prod.split)

lemma discard_keeps:
  "discard_with world_pop w q = Some r \<Longrightarrow> lib_inv K H w \<Longrightarrow> ensures r (lib_inv K H)"
proof (induction "world_pop :: 'a world \<Rightarrow> item queue \<Rightarrow> _" w q r rule: discard_with.raw_induct [rotated, consumes 1, case_names step])
  case (step g w q r)
  show ?case
  proof (cases "world_pop w q")
    case (Inr p)
    obtain x w1 q1 where p: "p = (x, w1, q1)" by (rule prod_cases3)
    have w1: "lib_inv K H w1" using world_pop_keeps Inr p step(3) by blast
    show ?thesis
    proof (cases x)
      case None
      then show ?thesis using step(2) Inr p w1 by auto
    next
      case (Some it)
      then have "g world_pop w1 q1 = Some r" using step(2) Inr p by simp
      then show ?thesis by (rule step(1)) (rule w1)
    qed
  qed (use step(2) ensures_fault [OF calm_world_pop [of w q]] in auto)
qed

lemma drain_keeps:
  "drain_with world_pop stop (task_fn i) ds w q = Some r \<Longrightarrow> lib_inv K H w \<Longrightarrow>
   ensures r (\<lambda>(ran, b, w'). lib_inv K H w')"
proof (induction "world_pop :: 'a world \<Rightarrow> item queue \<Rightarrow> _" stop "task_fn i :: item \<Rightarrow> 'a world \<Rightarrow> _" ds w q r
    rule: drain_with.raw_induct [rotated, consumes 1, case_names step])
  case (step g stop ds w q r)
  show ?case
  proof (cases "world_pop w q")
    case (Inr p)
    obtain x w1 q1 where p: "p = (x, w1, q1)" by (rule prod_cases3)
    have w1: "lib_inv K H w1" using world_pop_keeps Inr p step(3) by blast
    show ?thesis
    proof (cases x)
      case None
      then show ?thesis using step(2) Inr p w1 by auto
    next
      case (Some it)
      show ?thesis
      proof (cases "stop it")
        case True
        then show ?thesis using step(2) Inr p Some discard_keeps [of w1 q1 _ K H] w1 by (auto split: option.splits sum.splits)
      next
        case False
        have t: "ensures (task_fn i it w1) (lib_inv K H)" by (rule task_fn_outcome [OF w1])
        then show ?thesis using step(1,2) Inr p Some False by (auto split: sum.splits)
      qed
    qed
  qed (use step(2) ensures_fault [OF calm_world_pop [of w q]] in auto)
qed

lemma async_outcome:
  assumes "lib_inv K {} w" "\<And>ran b w'. lib_inv K {} w' \<Longrightarrow> R (ran, b, w')"
  shows "ensures (async_routine i w) R"
  unfolding async_routine_def
proof (rule ensures_rbind, rule async_take_outcome [OF assms(1)])
  fix q :: "item queue" and w1 :: "'a world" assume w1: "lib_inv K {} w1"
  show "ensures (case (q, w1) of (jobs, w1) \<Rightarrow> case drain_with world_pop (\<lambda>it. it = Stop_task i) (task_fn i) [] w1 jobs of
      None \<Rightarrow> Inl Hang | Some r \<Rightarrow> rbind r (\<lambda>(ran, stop, w2). Inr (ran, stop, if stop then log_eff (Loop_break i) w2 else w2))) R"
  proof (cases "drain_with world_pop (\<lambda>it. it = Stop_task i) (task_fn i) [] w1 q")
    case (Some r)
    show ?thesis using drain_keeps [OF Some w1] Some assms(2) by (cases r) auto
  qed simp
qed



subsection \<open>Termination\<close>

lemma efd_term_outcome [outcome]:
  "lib_inv K H w \<Longrightarrow> (\<And>w'. lib_inv K H w' \<Longrightarrow> R w') \<Longrightarrow> ensures (sock_efd_term a w) R"
  unfolding sock_efd_term_def
  by (rule let_put_outcome outcome lib_inv_sock_put | assumption | simp add: lib_inv_sock_put fits_def sock_wf_def)+

lemma term_rest_outcome [outcome]:
  "lib_inv K H w \<Longrightarrow> (\<And>w'. lib_inv K H w' \<Longrightarrow> R w') \<Longrightarrow> ensures (sock_term_rest a w) R"
  unfolding sock_term_rest_def
  by (rule let_put_outcome outcome lib_inv_sock_put | assumption | simp add: lib_inv_sock_put fits_def sock_wf_def)+

lemma lib_inv_if_log [simp]: "lib_inv K H (if b then log_eff e w else w) = lib_inv K H w"
  by simp

text \<open>What is done for a bind or a connection, ending with its memory given back.\<close>

lemma child_term_outcome:
  assumes w: "lib_inv K H w" "w_heap w a = Some s"
    and f: "\<And>K c. lib_inv K H w \<Longrightarrow> part_known K c \<Longrightarrow> (\<And>w'. lib_inv K H w' \<Longrightarrow> R w') \<Longrightarrow> ensures (f c) R"
    and R: "\<And>w'. lib_inv K H w' \<Longrightarrow> R w'"
  shows "ensures (rbind (parr_ptr (s_conns s) i) f) R" "ensures (rbind (parr_ptr (s_binds s) i) f) R"
  by (rule ensures_rbind, rule child_outcome [OF w], rule f, assumption, assumption, rule R, erule lib_inv_forget)+

lemma sock_term_keeps:
  "(\<forall>K a (w :: 'x world). lib_inv K H w \<longrightarrow> ensures (fsock_sock_term n a w) (lib_inv K H)) \<and>
   (\<forall>K self h it (w :: 'x world). lib_inv K H w \<longrightarrow> ensures (conn_parr_loop n self h it w) (lib_inv K H)) \<and>
   (\<forall>K self it (w :: 'x world). lib_inv K H w \<longrightarrow> ensures (bind_parr_loop n self it w) (lib_inv K H))"
proof (induction n)
  case (Suc n)
  have t: "ensures (fsock_sock_term n a w) R" if "lib_inv K H w" "\<And>w'. lib_inv K H w' \<Longrightarrow> R w'" for K a R and w :: "'x world"
    using Suc.IH that ensures_weaken by blast
  have c: "ensures (conn_parr_loop n self h it w) R"
    if "lib_inv K H w" "\<And>w'. lib_inv K H w' \<Longrightarrow> R w'" for K self h it R and w :: "'x world"
    using Suc.IH that ensures_weaken by blast
  have b: "ensures (bind_parr_loop n self it w) R" if "lib_inv K H w" "\<And>w'. lib_inv K H w' \<Longrightarrow> R w'" for K self it R and w :: "'x world"
    using Suc.IH that ensures_weaken by blast
  have conn: "ensures (rbind (sock_at w conn) (\<lambda>c.
          rbind (if s_type c = FSOCK_SOCK_IN then conns_clear self (s_idx c) w else Inr w) (\<lambda>w1.
          rbind (fsock_sock_term n conn w1) (\<lambda>w2.
          rbind (conns_clear h i (sock_free conn w2)) (\<lambda>w3.
          rbind (sock_at w3 h) (\<lambda>hs3.
          rbind (fsock_parr_next (s_conns hs3) i) (\<lambda>it1.
          conn_parr_loop n self h it1 w3))))))) R"
    if "lib_inv K H w" "part_known K conn" "\<And>w'. lib_inv K H w' \<Longrightarrow> R w'" for K conn self h i R and w :: "'x world"
    by (insert that) (rule t c outcome free_part_outcome | assumption)+
  have bind: "ensures (rbind (sock_at w bnd) (\<lambda>b.
          rbind (fsock_parr_begin (s_conns b)) (\<lambda>it2.
          rbind (conn_parr_loop n self bnd it2 w) (\<lambda>w1.
          rbind (fsock_sock_term n bnd w1) (\<lambda>w2.
          rbind (binds_clear self i (sock_free bnd w2)) (\<lambda>w3.
          rbind (sock_at w3 self) (\<lambda>s3.
          rbind (fsock_parr_next (s_binds s3) i) (\<lambda>it1.
          bind_parr_loop n self it1 w3)))))))) R"
    if "lib_inv K H w" "part_known K bnd" "\<And>w'. lib_inv K H w' \<Longrightarrow> R w'" for K bnd self i R and w :: "'x world"
    by (insert that) (rule t c b outcome free_part_outcome | assumption)+
  have "ensures (fsock_sock_term (Suc n) a w) (lib_inv K H)" if w: "lib_inv K H w" for K a and w :: "'x world"
    unfolding fsock_sock_term.simps by (insert w) (rule t c b outcome | assumption | simp)+
  moreover have "ensures (conn_parr_loop (Suc n) self h it w) (lib_inv K H)" if w: "lib_inv K H w" for K self h it and w :: "'x world"
    unfolding conn_parr_loop.simps
    by (rule ensures_cases(1), rule ensures_cases(2), simp add: w,
        rule ensures_rbind, rule sock_at_outcome [OF w], rule child_term_outcome(1) [OF w], assumption, rule conn)
  moreover have "ensures (bind_parr_loop (Suc n) self it w) (lib_inv K H)" if w: "lib_inv K H w" for K self it and w :: "'x world"
    unfolding bind_parr_loop.simps
    by (rule ensures_cases(1), rule ensures_cases(2), simp add: w,
        rule ensures_rbind, rule sock_at_outcome [OF w], rule child_term_outcome(2) [OF w], assumption, rule bind)
  ultimately show ?case by blast
qed simp

lemma sock_term_outcome [outcome]:
  "lib_inv K H w \<Longrightarrow> (\<And>w'. lib_inv K H w' \<Longrightarrow> R w') \<Longrightarrow> ensures (fsock_sock_term n a w) R"
  using sock_term_keeps ensures_weaken by blast

subsection \<open>Opening\<close>

lemma lib_inv_mutex_init_id: "lib_inv K H w \<Longrightarrow> l \<notin> H \<Longrightarrow> lib_inv K H (fsock_mutex_init l w)"
  using lib_inv_mutex_init [of K H w l] by simp

lemma thread_init_outcome [outcome]:
  "lib_inv K H w \<Longrightarrow> no_thr H \<Longrightarrow> (\<And>w'. lib_inv K H w' \<Longrightarrow> R w') \<Longrightarrow> ensures (fsock_thread_init i w) R"
  unfolding fsock_thread_init_def
  by (rule outcome | assumption | simp add: Let_def lib_inv_mutex_init_id no_thrD)+

lemma thread_join_outcome [outcome]:
  "lib_inv K {} w \<Longrightarrow> \<forall>i. keeps_inv (worker i) \<Longrightarrow> (\<And>w'. lib_inv K {} w' \<Longrightarrow> R w') \<Longrightarrow> ensures (fsock_thread_join worker i w) R"
  unfolding fsock_thread_join_def
  by (rule outcome | assumption | simp add: keeps_invD)+

lemma thread_term_outcome [outcome]:
  "lib_inv K H w \<Longrightarrow> (\<And>w'. lib_inv K H w' \<Longrightarrow> R w') \<Longrightarrow> ensures (fsock_thread_term i w) R"
  unfolding fsock_thread_term_def
  by (rule outcome | assumption | simp)+

lemma lib_inv_no_socks: "lib_inv K H w \<Longrightarrow> lib_inv K H (w\<lparr>g_initialized := b, g_socks := fsock_parr_init k\<rparr>)"
  using lib_inv_socks [of K H "w\<lparr>g_initialized := b\<rparr>" "fsock_parr_init k"]
  by (simp add: parr_elems_def cells_def fsock_parr_init_def once_def)

lemma global_init_outcome [outcome]:
  assumes w: "lib_inv K H w" "no_thr H" and R: "\<And>w'. lib_inv K H w' \<Longrightarrow> R (0, w')"
  shows "ensures (fsock_global_init w) R"
  unfolding fsock_global_init_def fsock_thread_start_def
  by (insert w(2), rule ensures_rbind, rule for_each_outcome [OF _ lib_inv_no_socks [OF w(1)]])
    (rule outcome | assumption | simp add: R)+

lemma global_term_outcome [outcome]:
  assumes "lib_inv K {} w" "\<forall>i. keeps_inv (worker i)" "\<And>w'. lib_inv K {} w' \<Longrightarrow> R w'"
  shows "ensures (fsock_global_term worker w) R"
  unfolding fsock_global_term_def
  by (insert assms) (rule outcome for_each_outcome [where K = K and H = "{}"] | assumption | simp)+

text \<open>A new base socket goes into the table before it is initialised, both under the global lock.\<close>

lemma lib_inv_open:
  assumes w: "lib_inv K H w" "K a = Some Pending" and p: "fsock_parr_insert al (g_socks w) a = Inr (j, p)"
    and s: "sock_wf s" "kids s = {}" "s_owner s = None" "s_type s = FSOCK_SOCK_BASE"
  shows "lib_inv (K(a \<mapsto> Base)) H (sock_put a s (w\<lparr>g_socks := p\<rparr>))"
proof -
  obtain L where L: "knows K L" "mem_ok L w" using w(1) by (auto simp: lib_inv_def)
  have a: "L a = Pending" using knowsD [OF L(1) w(2)] by simp
  have k: "knows (K(a \<mapsto> Base)) (L(a := Base))" using L(1) by (intro knows_upd) simp_all
  have "a < w_allocs w" using L(2) a by (rule mem_ok_born) simp
  then have m: "mem_ok (L(a := Base)) (sock_put a s w)"
    using mem_ok_relabel(2) [OF L(2), of a "w_allocs w" s Base] a s by (simp add: role_ok_def)
  have a0: "a \<notin> parr_elems (g_socks w)" by (rule mem_ok_unused(2) [OF L(2)]) (simp add: a)
  have tab: "\<forall>b \<in> parr_elems (g_socks w). L b = Base \<and> w_heap w b \<noteq> None" using L(2) by (simp add: mem_ok_def)
  have p2: "parr_elems p \<subseteq> insert a (parr_elems (g_socks w))" by (rule parr_insert_elems(1) [OF p])
  have "(L(a := Base)) b = Base \<and> w_heap (sock_put a s w) b \<noteq> None" if "b \<in> parr_elems p" for b
    using tab p2 that by (cases "b = a") (auto simp: sock_put_def)
  moreover have "once (cells p)" by (rule parr_insert_elems(3) [OF p _ a0]) (use L(2) in \<open>simp add: mem_ok_def\<close>)
  ultimately have "mem_ok (L(a := Base)) (sock_put a s w\<lparr>g_socks := p\<rparr>)"
    using m by (simp add: mem_ok_def)
  moreover have e: "sock_put a s (w\<lparr>g_socks := p\<rparr>) = sock_put a s w\<lparr>g_socks := p\<rparr>" by (simp add: sock_put_def)
  ultimately have "mem_ok (L(a := Base)) (sock_put a s (w\<lparr>g_socks := p\<rparr>))" by simp
  then show ?thesis using w(1) k unfolding lib_inv_def by (auto simp: sock_put_def)
qed

lemma sock_init_new:
  assumes "\<And>s. sock_wf s \<Longrightarrow> kids s = {} \<Longrightarrow> s_owner s = None \<Longrightarrow> s_type s = type \<Longrightarrow>
      R (fold fsock_task_init (sock_tasks a) (fsock_mutex_init (Sock_sync a) (sock_put a s w)))"
    and t: "type \<in> {FSOCK_SOCK_BASE, FSOCK_SOCK_BIND, FSOCK_SOCK_IN, FSOCK_SOCK_OUT}"
  shows "ensures (fsock_sock_init F a type w) R"
proof -
  have efd: "calm (sock_efd_init a w)" by (simp add: sock_efd_init_def split: sysret.split)
  show ?thesis unfolding fsock_sock_init_def Let_def
    by (rule ensures_rbind, rule calm_any [OF efd], rule ensures_Inr, rule assms(1))
      (use t in \<open>simp_all add: sock_wf_def kids_def\<close>)
qed

lemma socket_init_outcome:
  assumes w: "lib_inv K H w" "K a = Some Pending" "Sock_sync a \<notin> H" and p: "fsock_parr_insert al (g_socks w) a = Inr (j, p)"
    and R: "\<And>w'. lib_inv (K(a \<mapsto> Base)) H w' \<Longrightarrow> R w'"
  shows "ensures (fsock_sock_init F a FSOCK_SOCK_BASE (w\<lparr>g_socks := p\<rparr>)) R"
  by (rule sock_init_new) (use R lib_inv_mutex_init_id [OF lib_inv_open [OF w(1,2) p] w(3)] in simp_all)

lemma lib_inv_not_inserted:
  assumes w: "lib_inv K H w" "K a = Some Pending" and p: "fsock_parr_insert al (g_socks w) a = Inr (j, p)" and j: "j < 0"
  shows "lib_inv K H (sock_free a (w\<lparr>g_socks := p\<rparr>))"
proof -
  obtain L where L: "knows K L" "mem_ok L w" using w(1) by (auto simp: lib_inv_def)
  have "L a = Pending" using knowsD [OF L(1) w(2)] by simp
  then have "a \<notin> parr_elems (g_socks w)" by (intro mem_ok_unused(2) [OF L(2)]) simp
  then have "lib_inv K H (w\<lparr>g_socks := p\<rparr>)"
    using lib_inv_socks [OF w(1) parr_insert_elems(2) [OF p j]] parr_insert_elems(3) [OF p] by blast
  then show ?thesis by (rule lib_inv_sock_free [of K H _ a Pending]) (simp_all add: w(2))
qed

lemma socket_rest_outcome:
  assumes w: "lib_inv K {} w1" and a: "K sock = Some Pending" and M: "M = K(sock \<mapsto> Base)"
    and R: "\<And>rc w'. lib_inv K {} w' \<Longrightarrow> R (rc, w')" "\<And>rc w'. lib_inv M {} w' \<Longrightarrow> R (rc, w')"
  shows "ensures (rbind (fsock_glock_lock w1) (\<lambda>w2.
          rbind (if \<not> g_initialized w2 then fsock_global_init w2 else Inr (0, w2)) (\<lambda>(rc, w3).
          if rc \<noteq> 0 then rbind (fsock_glock_unlock w3) (\<lambda>w4. Inr (-1, w4)) else
          rbind (fsock_parr_insert (o_realloc (w_env w3)) (g_socks w3) sock) (\<lambda>(index, p).
          let w4 = w3\<lparr>g_socks := p\<rparr> in
          if index < 0 then
            rbind (fsock_glock_unlock (sock_free sock w4)) (\<lambda>w5. Inr (-1, set_errno ENOMEM w5))
          else
            rbind (fsock_sock_init F sock FSOCK_SOCK_BASE w4) (\<lambda>w5.
            rbind (sock_upd sock (\<lambda>s. s\<lparr>s_idx := index\<rparr>) w5) (\<lambda>w6.
            rbind (fsock_glock_unlock w6) (\<lambda>w7. Inr (index, w7)))))))) R"
proof -
  have glob: "ensures (if \<not> g_initialized w2 then fsock_global_init w2 else Inr (0, w2)) S"
    if "lib_inv K {Glock} w2" "\<And>rc w'. lib_inv K {Glock} w' \<Longrightarrow> S (rc, w')" for w2 and S :: "int \<times> 'a world \<Rightarrow> bool"
    using global_init_outcome [of K "{Glock}" w2 S] that by simp
  have errno: "lib_inv K {} w' \<Longrightarrow> R (rc, set_errno e w')" for rc e w' by (rule R(1)) simp
  show ?thesis
    by (insert w a) (rule R errno glob socket_init_outcome [of K _ _ sock, folded M] lib_inv_not_inserted outcome
      | assumption | simp add: fits_def sock_wf_def)+
qed

lemma socket_outcome:
  assumes w: "lib_inv K {} w" and R: "\<And>rc w'. lib_inv K {} w' \<Longrightarrow> R (rc, w')"
  shows "ensures (fsock_socket F w) R"
  unfolding fsock_socket_def
  by (rule malloc_sock_outcome [OF w], simp add: R, simp only: option.case, erule socket_rest_outcome [OF _ _ refl])
    (simp, (rule R, rule lib_inv_forget_new, simp only: fun_upd_upd, assumption)+)

subsection \<open>Closing\<close>

lemma lib_inv_close:
  assumes w: "lib_inv K H w" and a: "parr_read (g_socks w) s = Inr (Elem a)" and p: "fsock_parr_clear al (g_socks w) s = Inr (rc, p)"
  shows "lib_inv (K(a \<mapsto> Leaving)) H (w\<lparr>g_socks := p\<rparr>)" "K a = None \<or> K a = Some Base"
proof -
  obtain L where L: "knows K L" "mem_ok L w" using w by (auto simp: lib_inv_def)
  define M where "M = L(a := Leaving)"
  have tab: "\<forall>b \<in> parr_elems (g_socks w). L b = Base \<and> w_heap w b \<noteq> None" "once (cells (g_socks w))" using L(2) by (simp_all add: mem_ok_def)
  have La: "L a = Base" using tab(1) parr_read_elem [OF a] by simp
  then have "K a = Some q \<Longrightarrow> q = Base" for q using knowsD [OF L(1), of a q] by (auto simp: becomes_def)
  then show Ka: "K a = None \<or> K a = Some Base" by (cases "K a") auto
  have Ma: "M a = Leaving" and Mo: "b \<noteq> a \<Longrightarrow> M b = L b" for b by (simp_all add: M_def)
  have part: "is_part (L b) \<Longrightarrow> is_part (M b)" and lost: "M b = Lost \<Longrightarrow> L b = Lost" and base: "L b = Base \<or> L b = Leaving \<Longrightarrow> M b = Base \<or> M b = Leaving"
    and un: "L b = Unborn \<Longrightarrow> M b = Unborn" for b using La Ma Mo by (cases "b = a"; simp)+
  have ro: "role_ok t (L b) \<Longrightarrow> role_ok t (M b)" for t b using part [of b] base [of b] by (auto simp: role_ok_def split: if_splits)
  have "sock_wf t \<and> role_ok (s_type t) (M b) \<and> (M b = Lost \<longrightarrow> marked t) \<and> (\<forall>c \<in> kids t. is_part (M c)) \<and>
      (\<forall>o'. s_owner t = Some o' \<longrightarrow> M o' = Base \<or> M o' = Leaving)" if "w_heap w b = Some t" for b t
    using mem_ok_heap [OF L(2) that] by (simp add: ro part base lost)
  moreover have "M b = Base \<and> w_heap w b \<noteq> None" if "b \<in> parr_elems p" for b
  proof -
    have "b \<in> parr_elems (g_socks w)" "b \<noteq> a" using parr_clear_elems(1) [OF p] parr_clear_elems(3) [OF p tab(2) a] that by auto
    then show ?thesis using tab(1) Mo by simp
  qed
  moreover have "once (cells p)" by (rule parr_clear_elems(2) [OF p tab(2)])
  moreover have "\<forall>b \<ge> w_allocs w. M b = Unborn" using L(2) un by (simp add: mem_ok_def)
  ultimately have "mem_ok M (w\<lparr>g_socks := p\<rparr>)" by (simp add: mem_ok_def)
  moreover have "knows (K(a \<mapsto> Leaving)) M"
    unfolding M_def using L(1) by (rule knows_upd) simp
  ultimately show "lib_inv (K(a \<mapsto> Leaving)) H (w\<lparr>g_socks := p\<rparr>)" using w by (auto simp: lib_inv_def)
qed

lemma lib_inv_forget_left:
  assumes "lib_inv (K(a \<mapsto> Leaving)) H w" "K a = None \<or> K a = Some Base"
  shows "lib_inv K H w"
proof -
  have "knows K L" if k: "knows (K(a \<mapsto> Leaving)) L" for L
  proof -
    have l: "L a = Leaving" using knowsD [OF k, of a Leaving] by simp
    have "b \<noteq> a \<Longrightarrow> K b = Some q \<Longrightarrow> q \<noteq> Unborn \<and> becomes q (L b)" for b q
      using knowsD [OF k, of b q] by simp
    then show ?thesis using l assms(2) unfolding knows_def by (metis becomes_simps(1) option.distinct(1) option.inject role.distinct(3))
  qed
  then show ?thesis using assms(1) by (auto simp: lib_inv_def)
qed

lemma close_term_outcome:
  assumes w: "lib_inv K {} w2" and a: "K sock = Some Leaving" and k: "\<forall>i. keeps_inv (worker i)" and R: "\<And>w'. lib_inv K {} w' \<Longrightarrow> R (ret0, w')"
  shows "ensures (rbind (fsock_sock_term n sock w2) (\<lambda>w3.
          rbind (if z then fsock_global_term worker (sock_free sock w3) else Inr (sock_free sock w3)) (\<lambda>w4.
          Inr (ret0, w4)))) R"
proof -
  have free: "lib_inv K {} w' \<Longrightarrow> lib_inv K {} (sock_free sock w')" for w' by (rule lib_inv_sock_free [of K _ _ sock Leaving]) (simp_all add: a)
  show ?thesis by (insert w k) (rule outcome R free | assumption)+
qed

lemma close_outcome:
  assumes w: "lib_inv K {} w" and k: "\<forall>i. keeps_inv (worker i)" and R: "\<And>rc w'. lib_inv K {} w' \<Longrightarrow> R (rc, w')"
  shows "ensures (fsock_close n worker ret0 s w) R"
proof -
  have rest: "ensures (rbind (fsock_parr_clear (o_realloc (w_env w1)) (g_socks w1) s) (\<lambda>(rc, p).
          rbind (assert_that (rc = 0)) (\<lambda>_.
          rbind (fsock_parr_size p) (\<lambda>sz.
          rbind (fsock_glock_unlock (w1\<lparr>g_socks := p\<rparr>)) (\<lambda>w2.
          rbind (fsock_sock_term n sock w2) (\<lambda>w3.
          rbind (if sz = 0 then fsock_global_term worker (sock_free sock w3) else Inr (sock_free sock w3)) (\<lambda>w4.
          Inr (ret0, w4)))))))) R"
    if w1: "lib_inv K {Glock} w1" "parr_read (g_socks w1) s = Inr (Elem sock)" for w1 sock
  proof (rule ensures_rbind, rule parr_clear_outcome, clarify)
    fix rc p
    assume p: "fsock_parr_clear (o_realloc (w_env w1)) (g_socks w1) s = Inr (rc, p)"
    note c = lib_inv_close [OF w1 p]
    define M where "M = K(sock \<mapsto> Leaving)"
    have M: "lib_inv M {Glock} (w1\<lparr>g_socks := p\<rparr>)" "M sock = Some Leaving" using c(1) by (simp_all add: M_def)
    have fin: "lib_inv M {} w' \<Longrightarrow> R (rc, w')" for rc w' by (rule R, rule lib_inv_forget_left [of K sock, OF _ c(2)]) (simp add: M_def)
    have unl: "ensures (fsock_glock_unlock (w1\<lparr>g_socks := p\<rparr>)) S" if "\<And>w'. lib_inv M {} w' \<Longrightarrow> S w'" for S
      by (rule glock_outcome(2) [OF M(1)]) (use that in simp_all)
    show "ensures (rbind (assert_that (rc = 0)) (\<lambda>_.
          rbind (fsock_parr_size p) (\<lambda>sz.
          rbind (fsock_glock_unlock (w1\<lparr>g_socks := p\<rparr>)) (\<lambda>w2.
          rbind (fsock_sock_term n sock w2) (\<lambda>w3.
          rbind (if sz = 0 then fsock_global_term worker (sock_free sock w3) else Inr (sock_free sock w3)) (\<lambda>w4.
          Inr (ret0, w4))))))) R"
      by (rule ensures_rbind, rule ensures_assert, rule ensures_rbind, rule calm_outcome, rule ensures_rbind, rule unl) (erule close_term_outcome [of M _ sock, OF _ M(2)], rule k, erule fin)
  qed
  show ?thesis unfolding fsock_close_def
    by (insert w) (rule R rest outcome | assumption | intro conjI allI impI | simp split: cell.split)+
qed

subsection \<open>Binding and connecting\<close>

lemma slot_outcome:
  assumes w: "lib_inv K H w"
    and R: "\<And>c M. lib_inv M H w \<Longrightarrow> (\<And>b q. K b = Some q \<Longrightarrow> M b = Some q) \<Longrightarrow> \<forall>a. cell_owner c = Some a \<longrightarrow> base_known M a \<Longrightarrow> R c"
  shows "ensures (parr_read (g_socks w) s) R"
proof (rule parr_read_outcome)
  fix c assume c: "parr_read (g_socks w) s = Inr c"
  show "R c"
  proof (cases "cell_owner c")
    case (Some a)
    then have "c = Elem a" by (simp add: cell_owner_def split: cell.splits)
    then have "a \<in> parr_elems (g_socks w)" using parr_read_elem [of "g_socks w" s a] c by simp
    then show ?thesis using R [of "learn K a Base" c] lib_inv_learn(3) [OF w] Some by (auto simp: learn_keeps base_known_def)
  qed (use R [OF w] in simp)
qed

text \<open>What \<open>fsock_bind\<close> and \<open>fsock_connect\<close> begin with.\<close>

lemma part_new_outcome:
  assumes w: "lib_inv K {} w" and t: "type = FSOCK_SOCK_BIND \<or> type = FSOCK_SOCK_OUT" and R: "\<And>rc w'. lib_inv K {} w' \<Longrightarrow> R (rc, w')"
    and g: "\<And>M p thr c w5. lib_inv M {} w5 \<Longrightarrow> part_known M p \<Longrightarrow> \<forall>a. cell_owner c = Some a \<longrightarrow> base_known M a \<Longrightarrow> thr < 4 \<Longrightarrow>
              (\<And>rc w'. lib_inv M {} w' \<Longrightarrow> R (rc, w')) \<Longrightarrow> ensures (g p thr c w5) R"
  shows "ensures (case c_malloc w of
        (None, w1) \<Rightarrow> Inr (-1, set_errno ENOMEM w1)
      | (Some p, w1) \<Rightarrow>
          rbind (fsock_glock_lock w1) (\<lambda>w2.
          let (thr, w3) = f_choose_thr w2 in
          rbind (fsock_glock_unlock w3) (\<lambda>w4.
          rbind (fsock_sock_init F p type w4) (\<lambda>w5.
          rbind (parr_read (g_socks w5) s) (\<lambda>c. g p thr c w5))))) R"
proof -
  have start: "ensures (rbind (fsock_sock_init F p type w4) (\<lambda>w5. rbind (parr_read (g_socks w5) s) (\<lambda>c. g p thr c w5))) R"
    if p: "K p = None" and w4: "lib_inv (K(p \<mapsto> Pending)) {} w4" and thr: "thr < 4" for p w4 thr
  proof (rule ensures_rbind, rule sock_init_outcome [OF w4, where r = Part])
    fix w5 :: "'a world" assume w5: "lib_inv (K(p \<mapsto> Pending, p \<mapsto> Part)) {} w5"
    show "ensures (rbind (parr_read (g_socks w5) s) (\<lambda>c. g p thr c w5)) R"
    proof (rule ensures_rbind, rule slot_outcome [OF w5], rule g)
      fix M rc and w' :: "'a world" assume M: "\<And>b q. (K(p \<mapsto> Pending, p \<mapsto> Part)) b = Some q \<Longrightarrow> M b = Some q" and w': "lib_inv M {} w'"
      show "R (rc, w')" by (rule R, rule lib_inv_mono [OF w'], rule M) (use p in auto)
    qed (use thr in \<open>auto simp: part_known_def\<close>)
  qed (use t in auto)
  have mid: "ensures (rbind (fsock_glock_lock w1) (\<lambda>w2.
          let (thr, w3) = f_choose_thr w2 in
          rbind (fsock_glock_unlock w3) (\<lambda>w4. h thr w4))) R"
    if w1: "lib_inv M {} w1" and h: "\<And>thr w4. thr < 4 \<Longrightarrow> lib_inv M {} w4 \<Longrightarrow> ensures (h thr w4) R" for M w1 h
    by (rule ensures_rbind, rule glock_outcome(1) [OF w1], simp, subst Let_def, rule choose_outcome, assumption,
        rule ensures_rbind, rule glock_outcome(2), assumption, simp, rule h, assumption, simp)
  show ?thesis
    by (rule malloc_sock_outcome [OF w], simp add: R, simp only: option.case, rule mid, assumption, rule start)
qed

lemma bind_outcome:
  assumes w: "lib_inv K {} w" and R: "\<And>rc w'. lib_inv K {} w' \<Longrightarrow> R (rc, w')"
  shows "ensures (fsock_bind F server s addr port w) R"
  unfolding fsock_bind_def
proof (rule part_new_outcome [OF w], simp, erule R)
  fix M and bnd thr :: nat and c and w5 :: "'a world"
  assume a: "lib_inv M {} w5" "part_known M bnd" "\<forall>a. cell_owner c = Some a \<longrightarrow> base_known M a" "thr < 4"
    "\<And>rc w'. lib_inv M {} w' \<Longrightarrow> R (rc, w')"
  show "ensures (rbind (sock_upd bnd (\<lambda>b. b\<lparr>s_owner := cell_owner c, s_thr := Some thr\<rparr>) w5) (\<lambda>w6.
          let fd = server addr port in
          if fd < 0 then Inr (-1, w6) else
          rbind (cell_ptr c) (\<lambda>sock.
          rbind (binds_insert sock bnd w6) (\<lambda>(index, w7).
          rbind (assert_that (\<not> index < 0)) (\<lambda>_.
          rbind (sock_upd bnd (\<lambda>b. b\<lparr>s_idx := index, s_fd := fd\<rparr>) w7) (\<lambda>w8.
          rbind (fsock_thread_start_listen thr bnd addr port w8) (\<lambda>w9.
          Inr (index, w9)))))))) R"
    by (insert a) (rule outcome | assumption | simp add: fits_def sock_wf_def)+
qed

lemma connect_outcome:
  assumes w: "lib_inv K {} w" and R: "\<And>rc w'. lib_inv K {} w' \<Longrightarrow> R (rc, w')"
  shows "ensures (fsock_connect F client s addr port w) R"
  unfolding fsock_connect_def
proof (rule part_new_outcome [OF w], simp, erule R)
  fix M and conn thr :: nat and c and w5 :: "'a world"
  assume a: "lib_inv M {} w5" "part_known M conn" "\<forall>a. cell_owner c = Some a \<longrightarrow> base_known M a" "thr < 4"
    "\<And>rc w'. lib_inv M {} w' \<Longrightarrow> R (rc, w')"
  show "ensures (rbind (sock_upd conn (\<lambda>b. b\<lparr>s_owner := cell_owner c, s_thr := Some thr\<rparr>) w5) (\<lambda>w6.
          let fd = client addr port in
          if fd < 0 then Inr (-1, w6) else
          rbind (cell_ptr c) (\<lambda>sock.
          rbind (fsock_mutex_lock (Sock_sync sock) w6) (\<lambda>w7.
          rbind (conns_insert sock conn w7) (\<lambda>(index, w8).
          rbind (fsock_mutex_unlock (Sock_sync sock) w8) (\<lambda>w9.
          rbind (assert_that (\<not> index < 0)) (\<lambda>_.
          rbind (sock_upd conn (\<lambda>b. b\<lparr>s_idx := index, s_fd := fd\<rparr>) w9) (\<lambda>w10.
          rbind (fsock_thread_start_connection thr conn w10) (\<lambda>w11.
          Inr (index, w11)))))))))) R"
    by (insert a) (rule outcome | assumption | simp add: fits_def sock_wf_def)+
qed

subsection \<open>Receiving\<close>

definition wait_keeps :: "('x world \<Rightarrow> int \<times> 'x world) \<Rightarrow> bool" where
  "wait_keeps wait \<longleftrightarrow> keeps_inv (\<lambda>w. snd (wait w))"

lemma efd_wait_outcome [outcome]:
  assumes "lib_inv K {} w" "wait_keeps wait" "\<And>rc w'. lib_inv K {} w' \<Longrightarrow> R (rc, w')"
  shows "ensures (sock_efd_wait a wait w) R"
proof -
  have "R (wait w)" using assms(3) [of "snd (wait w)" "fst (wait w)"] keeps_invD [OF assms(2) [unfolded wait_keeps_def] assms(1)] by simp
  then show ?thesis unfolding sock_efd_wait_def
    by (intro ensures_rbind sock_at_outcome [OF assms(1)]) (simp add: assms(1,3))
qed

lemma efd_unsignal_outcome [outcome]:
  "lib_inv K H w \<Longrightarrow> (\<And>w'. lib_inv K H w' \<Longrightarrow> R w') \<Longrightarrow> ensures (sock_efd_unsignal a w) R"
  unfolding sock_efd_unsignal_def
  by (rule outcome lib_inv_sock_put | assumption | simp add: lib_inv_sock_put fits_def sock_wf_def)+

lemma get_event_pop_outcome:
  "lib_inv K {Sock_sync a} w \<Longrightarrow> (\<And>it w'. lib_inv K {} w' \<Longrightarrow> R (it, w')) \<Longrightarrow> ensures (get_event_pop a w) R"
  unfolding get_event_pop_def
  by (rule let_put_outcome outcome lib_inv_sock_put | assumption | simp add: lib_inv_sock_put fits_def sock_wf_def)+

lemma lock_heap_outcome:
  "lib_inv K H w \<Longrightarrow> l \<notin> H \<Longrightarrow> (\<And>w'. lib_inv K (insert l H) w' \<Longrightarrow> w_heap w' = w_heap w \<Longrightarrow> R w') \<Longrightarrow> ensures (fsock_mutex_lock l w) R"
  by (auto simp: fsock_mutex_lock_def lib_inv_def)

lemma get_event_outcome:
  assumes "lib_inv K {} w" "wait_keeps wait" "\<And>it w'. lib_inv K {} w' \<Longrightarrow> R (it, w')"
  shows "ensures (fsock_get_event wait s flags w) R"
  unfolding fsock_get_event_def
  by (insert assms) (rule lock_heap_outcome outcome get_event_pop_outcome lib_inv_sock_put | assumption | simp add: fits_def sock_wf_def)+

lemma event_destroy_outcome:
  assumes "lib_inv K H w" "\<And>w'. lib_inv K H w' \<Longrightarrow> R w'"
  shows "ensures (fsock_event_destroy refs e w) R"
  using assms unfolding fsock_event_destroy_def
  by (simp add: Let_def split: option.splits event.splits)

subsection \<open>Sending\<close>

lemma cond_wait_outcome [outcome]:
  assumes w: "lib_inv K {Sock_sync a} w" and k: "keeps_inv others" and R: "\<And>w'. lib_inv K {Sock_sync a} w' \<Longrightarrow> R w'"
  shows "ensures (cond_wait others a w) R"
  unfolding cond_wait_def Let_def
  by (rule ensures_rbind, rule unlock_outcome [OF w], simp, rule lock_outcome [of K "{}"], rule keeps_invD [OF k]) (simp_all add: R)

lemma send_wait_outcome [outcome]:
  assumes "lib_inv K {} w" "keeps_inv others" "\<And>w'. lib_inv K {} w' \<Longrightarrow> R w'"
  shows "ensures (send_wait others True a w) R"
  unfolding send_wait_def lock_if_def unlock_if_def if_True
  by (insert assms) (rule outcome | assumption | simp add: fits_def sock_wf_def)+

lemma send_enqueue_outcome [outcome]:
  "lib_inv K {} w \<Longrightarrow> (\<And>w'. lib_inv K {} w' \<Longrightarrow> R w') \<Longrightarrow> ensures (send_enqueue F conn li w) R"
  unfolding send_enqueue_def
  by (rule let_put_outcome outcome lib_inv_sock_put | assumption | simp add: lib_inv_sock_put fits_def sock_wf_def)+

lemma send_account_outcome [outcome]:
  "lib_inv K {} w \<Longrightarrow> (\<And>w'. lib_inv K {} w' \<Longrightarrow> R w') \<Longrightarrow> ensures (send_account True a w) R"
  unfolding send_account_def lock_if_def unlock_if_def if_True
  by (rule let_put_outcome outcome lib_inv_sock_put | assumption | simp add: lib_inv_sock_put fits_def sock_wf_def)+

lemma send_outcome:
  assumes w: "lib_inv K {} w" and flags: "flags AND FSOCK_SND_UNSAFE = 0" and k: "keeps_inv others"
    and R: "\<And>rc w'. lib_inv K {} w' \<Longrightarrow> R (rc, w')"
  shows "ensures (fsock_send F others ret0 s c fr flags w) R"
  unfolding fsock_send_def Let_def flags simp_thms
  by (insert w k R) (rule outcome_special outcome | assumption | simp)+

text \<open>
  \<open>fsock_send_all\<close> holds the mutex of the socket while it sends to each connection, and each call looks the socket up
  again. As long as the number still leads to it, the mutex that is given back while waiting is the one that is held.
\<close>

definition holding :: "(nat \<Rightarrow> role option) \<Rightarrow> int \<Rightarrow> nat \<Rightarrow> 'x world \<Rightarrow> bool" where
  "holding K s a w \<longleftrightarrow> lib_inv K {Sock_sync a} w \<and> parr_ptr (g_socks w) s = Inr a"

definition keeps_number :: "int \<Rightarrow> ('x world \<Rightarrow> 'x world) \<Rightarrow> bool" where
  "keeps_number s others \<longleftrightarrow> (\<forall>w. parr_ptr (g_socks (others w)) s = parr_ptr (g_socks w) s)"

lemma ensures_both: "ensures m P \<Longrightarrow> (\<And>x. m = Inr x \<Longrightarrow> Q x) \<Longrightarrow> ensures m (\<lambda>x. P x \<and> Q x)"
  by (cases m) simp_all

lemmas socks_parts = fault_iff sock_upd_def sock_put_def fsock_mutex_lock_def fsock_mutex_unlock_def log_eff_def

lemma send_wait_unsafe:
  assumes w: "holding K s a w" and o: "keeps_inv others" "keeps_number s others" and R: "\<And>w'. holding K s a w' \<Longrightarrow> R w'"
  shows "ensures (send_wait others False a w) R"
proof -
  have inv: "lib_inv K {Sock_sync a} w" using w by (simp add: holding_def)
  have "ensures (send_wait others False a w) (lib_inv K {Sock_sync a})"
    unfolding send_wait_def lock_if_def unlock_if_def if_False
    by (insert inv o(1)) (rule outcome | assumption | simp add: fits_def sock_wf_def)+
  moreover have "send_wait others False a w = Inr w' \<Longrightarrow> parr_ptr (g_socks w') s = parr_ptr (g_socks w) s" for w'
    using o(2) by (auto simp: send_wait_def lock_if_def unlock_if_def cond_wait_def keeps_number_def socks_parts Let_def split: if_splits)
  ultimately show ?thesis
    by (rule ensures_weaken [OF ensures_both]) (use w R in \<open>auto simp: holding_def\<close>)
qed

lemma thread_task_socks: "fsock_thread_schedule_task i it w = Inr w' \<Longrightarrow> g_socks w' = g_socks w"
  by (auto simp: fsock_thread_schedule_task_def thread_push_def thread_wake_def thread_put_def socks_parts split: if_splits)

lemma send_enqueue_unsafe:
  assumes w: "holding K s a w" and c: "conn \<noteq> a" and R: "\<And>w'. holding K s a w' \<Longrightarrow> R w'"
  shows "ensures (send_enqueue F conn li w) R"
proof -
  have inv: "lib_inv K {Sock_sync a} w" "no_thr {Sock_sync a}" "Sock_sync conn \<notin> {Sock_sync a}"
    using w c by (simp_all add: holding_def no_thr_def)
  have "ensures (send_enqueue F conn li w) (lib_inv K {Sock_sync a})"
    unfolding send_enqueue_def
    by (insert inv) (rule let_put_outcome outcome lib_inv_sock_put | assumption | simp add: lib_inv_sock_put fits_def sock_wf_def Diff_insert_id)+
  moreover have "send_enqueue F conn li w = Inr w' \<Longrightarrow> g_socks w' = g_socks w" for w'
    by (auto simp: send_enqueue_def socks_parts Let_def case_prod_beta split: if_splits dest!: thread_task_socks)
  ultimately show ?thesis
    by (rule ensures_weaken [OF ensures_both]) (use w R in \<open>auto simp: holding_def\<close>)
qed

lemma send_account_unsafe:
  assumes w: "holding K s a w" and R: "\<And>w'. holding K s a w' \<Longrightarrow> R w'"
  shows "ensures (send_account False a w) R"
proof -
  have inv: "lib_inv K {Sock_sync a} w" using w by (simp add: holding_def)
  have "ensures (send_account False a w) (lib_inv K {Sock_sync a})"
    unfolding send_account_def lock_if_def unlock_if_def if_False
    by (insert inv) (rule let_put_outcome outcome lib_inv_sock_put | assumption | simp add: lib_inv_sock_put fits_def sock_wf_def)+
  moreover have "send_account False a w = Inr w' \<Longrightarrow> g_socks w' = g_socks w" for w'
    by (auto simp: send_account_def lock_if_def unlock_if_def socks_parts Let_def)
  ultimately show ?thesis
    by (rule ensures_weaken [OF ensures_both]) (use w R in \<open>auto simp: holding_def\<close>)
qed

lemma holding_frame [simp]:
  "holding K s a (set_errno e w) = holding K s a w" "holding K s a (w\<lparr>w_oframe := f\<rparr>) = holding K s a w"
  by (simp_all add: holding_def) (simp add: set_errno_def)

lemma holding_malloc:
  "holding K s a w \<Longrightarrow> (\<And>p w1. holding K s a w1 \<Longrightarrow> ensures (f p w1) R) \<Longrightarrow> ensures (case c_malloc w of (p, w1) \<Rightarrow> f p w1) R"
  by (auto simp: c_malloc_def Let_def holding_def lib_inv_allocs)

lemma holding_other:
  assumes "holding K s a w" "part_known K c"
  shows "c \<noteq> a"
proof -
  obtain L where L: "knows K L" "mem_ok L w" using assms(1) by (auto simp: holding_def lib_inv_def)
  have "a \<in> parr_elems (g_socks w)" using assms(1) by (auto simp: holding_def parr_ptr_elem)
  then have "L a = Base" using L(2) by (simp add: mem_ok_def)
  then show ?thesis using known_roles(2) [OF L(1) assms(2)] by auto
qed

lemma send_unsafe:
  assumes w: "holding K s a w" and o: "keeps_inv others" "keeps_number s others" and flags: "flags AND FSOCK_SND_UNSAFE \<noteq> 0"
    and R: "\<And>rc w'. holding K s a w' \<Longrightarrow> R (rc, w')"
  shows "ensures (fsock_send F others ret0 s c fr flags w) R"
proof -
  have inv: "lib_inv K {Sock_sync a} w" and a: "parr_ptr (g_socks w) s = Inr a" using w by (simp_all add: holding_def)
  have eq: "(flags AND FSOCK_SND_UNSAFE = 0) = False" using flags by simp
  have rest: "ensures (rbind (send_wait others False a w) (\<lambda>w1.
        case c_malloc w1 of
          (None, w2) \<Rightarrow> Inr (-1, set_errno ENOMEM w2)
        | (Some li, w2) \<Rightarrow>
            rbind (send_enqueue F conn li (w2\<lparr>w_oframe := (w_oframe w2)(li := the fr)\<rparr>)) (\<lambda>w3.
            rbind (send_account False a w3) (\<lambda>w4.
            Inr (ret0, w4))))) R"
    if M: "holding M s a w" "part_known M conn" "\<And>rc w'. holding M s a w' \<Longrightarrow> R (rc, w')" for M conn
    by (insert M o holding_other [OF M(1,2)])
      (rule ensures_rbind send_wait_unsafe holding_malloc send_enqueue_unsafe send_account_unsafe ensures_cases ensures_Inr | assumption | simp)+
  have conn: "ensures (parr_ptr (s_conns so) c) S"
    if "w_heap w a = Some so" "\<And>M conn. holding M s a w \<Longrightarrow> part_known M conn \<Longrightarrow> (\<And>rc w'. holding M s a w' \<Longrightarrow> R (rc, w')) \<Longrightarrow> S conn" for so S
    by (rule child_outcome(1) [OF inv that(1)], rule that(2)) (use a R in \<open>auto simp: holding_def dest: lib_inv_forget\<close>)
  have early: "R (rc, w)" "R (rc, set_errno e w)" for rc e using R w by simp_all
  show ?thesis unfolding fsock_send_def Let_def eq a rbind_Inr
    by (insert inv) (rule ensures_rbind sock_at_outcome ensures_assert conn ensures_if rest ensures_Inr early | assumption)+
qed

lemma unsafe_or: "(x OR FSOCK_SND_UNSAFE) AND FSOCK_SND_UNSAFE \<noteq> 0"
  by (simp add: FSOCK_SND_UNSAFE_def bit.conj_disj_distrib2)

text \<open>
  When the number may lead to another socket meanwhile, or an application passes \<open>FSOCK_SND_UNSAFE\<close> itself, it is not known
  that the mutex is held that is given back while waiting. What the calls that return keep is described without that.
\<close>

definition returns :: "fault + 'a \<Rightarrow> ('a \<Rightarrow> bool) \<Rightarrow> bool" where
  "returns m R = (case m of Inl f \<Rightarrow> True | Inr x \<Rightarrow> R x)"

named_theorems returning \<open>what an operation that returns keeps\<close>

lemma returns_simps [simp]: "returns (Inl f) R" "returns (Inr x) R = R x"
  by (simp_all add: returns_def)

lemma ensures_returns: "ensures m R \<Longrightarrow> returns m R"
  by (cases m) simp_all

lemma returns_rbind [returning]: "returns m (\<lambda>x. returns (f x) R) \<Longrightarrow> returns (rbind m f) R"
  by (cases m) simp_all

lemma returns_cases [returning]:
  "(b \<Longrightarrow> returns m R) \<Longrightarrow> (\<not> b \<Longrightarrow> returns n R) \<Longrightarrow> returns (if b then m else n) R"
  "(\<And>a b. x = (a, b) \<Longrightarrow> returns (f a b) R) \<Longrightarrow> returns (case x of (a, b) \<Rightarrow> f a b) R"
  "R y \<Longrightarrow> returns (Inr y) R"
  by (simp_all split: prod.splits)

lemma returnsD: "returns m R \<Longrightarrow> m = Inr x \<Longrightarrow> R x"
  by simp

lemma mutex_returns [returning]:
  "lib_inv K H w \<Longrightarrow> (\<And>w'. l \<notin> H \<Longrightarrow> lib_inv K (insert l H) w' \<Longrightarrow> R w') \<Longrightarrow> returns (fsock_mutex_lock l w) R"
  "lib_inv K H w \<Longrightarrow> (\<And>w'. l \<in> H \<Longrightarrow> lib_inv K (H - {l}) w' \<Longrightarrow> R w') \<Longrightarrow> returns (fsock_mutex_unlock l w) R"
  by (auto simp: fsock_mutex_lock_def fsock_mutex_unlock_def lib_inv_def)

lemma cond_wait_returns [returning]:
  assumes w: "lib_inv K H w" and H: "H \<subseteq> {l}" and k: "keeps_inv others" and R: "\<And>w'. lib_inv K H w' \<Longrightarrow> R w'"
  shows "returns (cond_wait others a w) R"
  unfolding cond_wait_def Let_def
proof (rule returns_rbind, rule mutex_returns(2) [OF w])
  fix w1 :: "'a world" assume a: "Sock_sync a \<in> H" and w1: "lib_inv K (H - {Sock_sync a}) w1"
  have e: "H = {Sock_sync a}" using a H by auto
  then have "lib_inv K {} (others (log_eff (Cond_wait a) w1))" using w1 by (intro keeps_invD [OF k]) simp
  then show "returns (fsock_mutex_lock (Sock_sync a) (others (log_eff (Cond_wait a) w1))) R"
    by (rule mutex_returns(1)) (simp add: R e)
qed

lemma send_wait_returns [returning]:
  assumes "lib_inv K H w" "H \<subseteq> {l}" "keeps_inv others" "\<And>w'. lib_inv K H w' \<Longrightarrow> R w'"
  shows "returns (send_wait others False a w) R"
  unfolding send_wait_def lock_if_def unlock_if_def if_False
  by (insert assms(1,3,4)) (rule returning sock_at_outcome [THEN ensures_returns] sock_upd_outcome [THEN ensures_returns]
      cond_wait_returns [OF _ assms(2)] | assumption | simp add: fits_def sock_wf_def)+

lemma send_enqueue_returns [returning]:
  assumes "lib_inv K H w" "no_thr H" "\<And>w'. lib_inv K H w' \<Longrightarrow> R w'"
  shows "returns (send_enqueue F conn li w) R"
proof (cases "Sock_sync conn \<in> H")
  case True
  then show ?thesis using assms(1) by (simp add: send_enqueue_def fsock_mutex_lock_def lib_inv_def)
next
  case False
  show ?thesis unfolding send_enqueue_def
    by (insert assms False, rule ensures_returns)
      (rule let_put_outcome outcome lib_inv_sock_put | assumption | simp add: lib_inv_sock_put fits_def sock_wf_def Diff_insert_id)+
qed

lemma send_account_returns [returning]:
  assumes "lib_inv K H w" "\<And>w'. lib_inv K H w' \<Longrightarrow> R w'"
  shows "returns (send_account False a w) R"
  unfolding send_account_def lock_if_def unlock_if_def if_False
  by (insert assms, rule ensures_returns)
    (rule let_put_outcome outcome lib_inv_sock_put | assumption | simp add: lib_inv_sock_put fits_def sock_wf_def)+

lemma returns_special:
  assumes "lib_inv K H w" "\<And>w1. lib_inv K H w1 \<Longrightarrow> returns (f None w1) R" "\<And>a w1. lib_inv K H w1 \<Longrightarrow> returns (f (Some a) w1) R"
  shows "returns (case c_malloc w of (p, w1) \<Rightarrow> f p w1) R"
  using assms by (auto simp: c_malloc_def Let_def lib_inv_allocs)

lemma send_returns:
  assumes w: "lib_inv K H w" and H: "H \<subseteq> {Sock_sync l}" "flags AND FSOCK_SND_UNSAFE = 0 \<longrightarrow> H = {}" and k: "keeps_inv others"
    and R: "\<And>rc w'. lib_inv K H w' \<Longrightarrow> R (rc, w')"
  shows "returns (fsock_send F others ret0 s c fr flags w) R"
proof (cases "flags AND FSOCK_SND_UNSAFE = 0")
  case True
  show ?thesis by (rule ensures_returns, rule send_outcome [OF _ True k]) (use w H True R in simp_all)
next
  case False
  have H': "no_thr H" using H(1) by (auto simp: no_thr_def)
  have eq: "(flags AND FSOCK_SND_UNSAFE = 0) = False" using False by simp
  show ?thesis unfolding fsock_send_def Let_def eq
    by (insert w H' k R) (rule returns_special returning send_wait_returns [OF _ H(1)] calm_outcome [THEN ensures_returns]
        parr_ptr_outcome [THEN ensures_returns] sock_at_outcome [THEN ensures_returns] ensures_assert [THEN ensures_returns]
      | assumption | simp)+
qed

lemma snd_unsafe_nonzero: "FSOCK_SND_UNSAFE \<noteq> 0"
  by (simp add: FSOCK_SND_UNSAFE_def)

lemma calm_sock_at: "calm (sock_at w a)"
  by (simp add: sock_at_def split: option.split)

lemma calm_conn_type: "calm (fsock_conn_type a c w)"
  unfolding fsock_conn_type_def
  by (rule ensures_rbind, rule calm_any [OF calm_sock_at], rule ensures_rbind, rule calm_any [OF calm_ptr],
      rule ensures_rbind, rule calm_any [OF calm_sock_at]) simp

lemma calm_wants: "calm (send_all_wants a index dflags w)"
  unfolding send_all_wants_def
  by (rule outcome calm_any [OF calm_conn_type] | simp)+

lemma send_all_loop_keeps:
  "send_all_loop F others ret0 s a h fr dflags sndflags it rc w = Some r \<Longrightarrow> keeps_inv others \<Longrightarrow> lib_inv K {Sock_sync l} w \<Longrightarrow>
   returns r (\<lambda>(rc, w'). lib_inv K {Sock_sync l} w')"
proof (induction F others ret0 s a h fr dflags sndflags it rc w r
    rule: send_all_loop.raw_induct [rotated, consumes 1, case_names step])
  case (step g F others ret0 s a h fr dflags sndflags it rc w r)
  obtain op index where it: "it = (op, index)" by fastforce
  show ?case
  proof (cases op)
    case None
    then show ?thesis using step(2,4) it by auto
  next
    case (Some p)
    let ?send = "fsock_send F others (ret0 index) s index fr (sndflags OR FSOCK_SND_UNSAFE) w"
    let ?m = "rbind (send_all_wants a index dflags w) (\<lambda>b.
       if b then rbind ?send (\<lambda>(rc1, w1). Inr (rc1, rc1 \<noteq> 0 \<and> sndflags AND FSOCK_STOP_ONERR \<noteq> 0, w1))
       else Inr (rc, False, w))"
    have s: "returns ?send (\<lambda>(rc, w'). lib_inv K {Sock_sync l} w')"
      by (rule send_returns [OF step(4) subset_refl _ step(3)]) (simp_all add: snd_unsafe_nonzero)
    have m: "returns ?m (\<lambda>(rc, q, w'). lib_inv K {Sock_sync l} w')"
      by (rule returns_rbind, rule ensures_returns [OF calm_any [OF calm_wants]]) (use s step(4) in \<open>cases ?send; auto\<close>)
    show ?thesis
    proof (cases ?m)
      case (Inr x)
      obtain rc1 q w1 where x: "x = (rc1, q, w1)" by (rule prod_cases3)
      have w1: "lib_inv K {Sock_sync l} w1" using m Inr x by simp
      show ?thesis
      proof (cases q)
        case False
        show ?thesis
        proof (cases "rbind (sock_at w1 h) (\<lambda>hs. fsock_parr_next (s_conns hs) index)")
          case (Inr it1)
          then have "g F others ret0 s a h fr dflags sndflags it1 rc1 w1 = Some r"
            using step(2) it Some \<open>?m = Inr x\<close> x False by simp
          then show ?thesis by (rule step(1)) (simp_all add: step(3) w1)
        qed (use step(2) it Some Inr x False in auto)
      qed (use step(2) it Some Inr x w1 in auto)
    qed (use step(2) it Some in auto)
  qed
qed

lemma send_all_returns:
  assumes w: "lib_inv K {} w" and k: "keeps_inv others" and R: "\<And>rc w'. lib_inv K {} w' \<Longrightarrow> R (rc, w')"
  shows "returns (fsock_send_all F others ret0 s h fr dflags sndflags w) R"
proof -
  have loop: "returns (case send_all_loop F others ret0 s a h fr dflags sndflags it 0 w1 of
       None \<Rightarrow> Inl Hang
     | Some r \<Rightarrow> rbind r (\<lambda>(rc, w2). rbind (fsock_mutex_unlock (Sock_sync a) w2) (\<lambda>w3. Inr (rc, w3)))) R"
    if w1: "lib_inv K {Sock_sync a} w1" for a it w1
  proof (cases "send_all_loop F others ret0 s a h fr dflags sndflags it 0 w1")
    case (Some r)
    note keeps = send_all_loop_keeps [OF Some k w1]
    show ?thesis
    proof (cases r)
      case (Inr p)
      obtain rc w2 where p: "p = (rc, w2)" by fastforce
      have w2: "lib_inv K {Sock_sync a} w2" using keeps Inr p by simp
      have "returns (rbind (fsock_mutex_unlock (Sock_sync a) w2) (\<lambda>w3. Inr (rc, w3))) R"
        by (rule returns_rbind, rule mutex_returns(2) [OF w2]) (simp add: R)
      then show ?thesis using Some Inr p by simp
    qed (use Some in simp)
  qed simp
  show ?thesis unfolding fsock_send_all_def
    by (insert w) (rule returns_rbind loop mutex_returns calm_outcome [THEN ensures_returns] parr_ptr_outcome [THEN ensures_returns]
        sock_at_outcome [THEN ensures_returns] | assumption | simp)+
qed

lemma sendc_returns:
  assumes w: "lib_inv K {} w" and k: "keeps_inv others" and R: "\<And>rc w'. lib_inv K {} w' \<Longrightarrow> R (rc, w')"
  shows "returns (fsock_sendc F others ret0 s type b c fr dflags sndflags w) R"
  unfolding fsock_sendc_def
  by (insert w k) (rule R returning send_all_returns send_returns [where H = "{}"] calm_outcome [THEN ensures_returns]
      parr_read_outcome [THEN ensures_returns] parr_ptr_outcome [THEN ensures_returns] cell_outcome [THEN ensures_returns]
      sock_at_outcome [THEN ensures_returns] ensures_assert [THEN ensures_returns] | assumption | simp)+

lemma send_all_loop_safe:
  "send_all_loop F others ret0 s a h fr dflags sndflags it rc w = Some r \<Longrightarrow> keeps_inv others \<Longrightarrow> keeps_number s others \<Longrightarrow> holding K s a w \<Longrightarrow>
   ensures r (\<lambda>(rc, w'). holding K s a w')"
proof (induction F others ret0 s a h fr dflags sndflags it rc w r
    rule: send_all_loop.raw_induct [rotated, consumes 1, case_names step])
  case (step g F others ret0 s a h fr dflags sndflags it rc w r)
  obtain op index where it: "it = (op, index)" by fastforce
  show ?case
  proof (cases op)
    case None
    then show ?thesis using step(2,5) it by auto
  next
    case (Some p)
    let ?send = "fsock_send F others (ret0 index) s index fr (sndflags OR FSOCK_SND_UNSAFE) w"
    let ?m = "rbind (send_all_wants a index dflags w) (\<lambda>b.
       if b then rbind ?send (\<lambda>(rc1, w1). Inr (rc1, rc1 \<noteq> 0 \<and> sndflags AND FSOCK_STOP_ONERR \<noteq> 0, w1))
       else Inr (rc, False, w))"
    have s: "ensures ?send (\<lambda>(rc, w'). holding K s a w')"
      by (rule send_unsafe [OF step(5,3,4) unsafe_or]) simp
    have m: "ensures ?m (\<lambda>(rc, q, w'). holding K s a w')"
      by (rule ensures_rbind, rule calm_any [OF calm_wants]) (use s step(5) in \<open>cases ?send; auto\<close>)
    show ?thesis
    proof (cases ?m)
      case (Inl f)
      then show ?thesis using step(2) it Some ensures_fault [OF m Inl] by auto
    next
      case (Inr x)
      obtain rc1 q w1 where x: "x = (rc1, q, w1)" by (rule prod_cases3)
      have w1: "holding K s a w1" using m Inr x by simp
      have n: "calm (rbind (sock_at w1 h) (\<lambda>hs. fsock_parr_next (s_conns hs) index))"
        by (rule ensures_rbind, rule calm_any [OF calm_sock_at], rule calm_next)
      show ?thesis
      proof (cases q)
        case False
        show ?thesis
        proof (cases "rbind (sock_at w1 h) (\<lambda>hs. fsock_parr_next (s_conns hs) index)")
          case (Inl f)
          then show ?thesis using step(2) it Some \<open>?m = Inr x\<close> x False ensures_fault [OF n Inl] by auto
        next
          case (Inr it1)
          then have "g F others ret0 s a h fr dflags sndflags it1 rc1 w1 = Some r"
            using step(2) it Some \<open>?m = Inr x\<close> x False by simp
          then show ?thesis by (rule step(1)) (simp_all add: step(3,4) w1)
        qed
      qed (use step(2) it Some Inr x w1 in auto)
    qed
  qed
qed

lemma send_all_safe:
  assumes w: "lib_inv K {} w" and o: "keeps_inv others" "keeps_number s others" and R: "\<And>rc w'. lib_inv K {} w' \<Longrightarrow> R (rc, w')"
  shows "ensures (fsock_send_all F others ret0 s h fr dflags sndflags w) R"
proof -
  have loop: "ensures (case send_all_loop F others ret0 s a h fr dflags sndflags it 0 w1 of
       None \<Rightarrow> Inl Hang
     | Some r \<Rightarrow> rbind r (\<lambda>(rc, w2). rbind (fsock_mutex_unlock (Sock_sync a) w2) (\<lambda>w3. Inr (rc, w3)))) R"
    if w1: "holding K s a w1" for a it w1
  proof (cases "send_all_loop F others ret0 s a h fr dflags sndflags it 0 w1")
    case (Some r)
    have "ensures r (\<lambda>(rc, w2). ensures (fsock_mutex_unlock (Sock_sync a) w2) (\<lambda>w3. R (rc, w3)))"
      by (rule ensures_weaken [OF send_all_loop_safe [OF Some o w1]])
        (auto simp: holding_def intro!: unlock_outcome [of K "{Sock_sync a}"] R)
    then have "ensures (rbind r (\<lambda>(rc, w2). rbind (fsock_mutex_unlock (Sock_sync a) w2) (\<lambda>w3. Inr (rc, w3)))) R"
      by (intro ensures_rbind) (erule ensures_weaken, auto intro: ensures_rbind)
    then show ?thesis using Some by simp
  qed simp
  show ?thesis unfolding fsock_send_all_def
  proof (rule ensures_rbind, rule parr_ptr_outcome)
    fix a assume a: "parr_ptr (g_socks w) s = Inr a"
    have "ensures (fsock_mutex_lock (Sock_sync a) w) (holding K s a)"
      using w a by (auto simp: fsock_mutex_lock_def holding_def lib_inv_def)
    then show "ensures (rbind (fsock_mutex_lock (Sock_sync a) w) (\<lambda>w1. rbind (sock_at w1 h) (\<lambda>hs. rbind (fsock_parr_begin (s_conns hs)) (\<lambda>it.
        case send_all_loop F others ret0 s a h fr dflags sndflags it 0 w1 of None \<Rightarrow> Inl Hang
        | Some r \<Rightarrow> rbind r (\<lambda>(rc, w2). rbind (fsock_mutex_unlock (Sock_sync a) w2) (\<lambda>w3. Inr (rc, w3))))))) R"
      by (intro ensures_rbind [of "fsock_mutex_lock (Sock_sync a) w"], elim ensures_weaken)
        (rule ensures_rbind, rule calm_any [OF calm_sock_at], rule ensures_rbind, rule calm_any [OF calm_begin], erule loop)
  qed
qed

lemma sendc_outcome:
  assumes w: "lib_inv K {} w" and k: "keeps_inv others" "keeps_number s others" and flags: "sndflags AND FSOCK_SND_UNSAFE = 0"
    and R: "\<And>rc w'. lib_inv K {} w' \<Longrightarrow> R (rc, w')"
  shows "ensures (fsock_sendc F others ret0 s type b c fr dflags sndflags w) R"
  unfolding fsock_sendc_def
  by (insert w k flags) (rule R send_outcome send_all_safe outcome | assumption | simp)+

end
