(* ===== verification/Invariants.thy ===== *)
theory Invariants
  imports Calls Example
begin

text \<open>
  The calls of the public interface, the handlers and the workers' routine as a state machine,
  and what holds in all its reachable states.
\<close>

subsection \<open>The library as a state machine\<close>

text \<open>
  The steps are the calls of \<open>fsock.h\<close>, the handlers libev calls and the workers' routine, each
  run to its normal end. Where a call waits, or writes without its mutex, any number of steps of
  the other threads happens meanwhile. A call that ends in a fault is no step.
\<close>

inductive lib_step :: "'x framer \<Rightarrow> 'x world \<Rightarrow> 'x world \<Rightarrow> bool"
  and lib_steps :: "'x framer \<Rightarrow> 'x world \<Rightarrow> 'x world \<Rightarrow> bool" for F :: "'x framer" where
  step_socket: "fsock_socket F w = Inr (rc, w') \<Longrightarrow> lib_step F w w'"
| step_close: "(\<And>i w1. lib_steps F w1 (worker i w1)) \<Longrightarrow> fsock_close n worker ret0 s w = Inr (rc, w') \<Longrightarrow> lib_step F w w'"
| step_bind: "fsock_bind F server s addr port w = Inr (rc, w') \<Longrightarrow> lib_step F w w'"
| step_connect: "fsock_connect F client s addr port w = Inr (rc, w') \<Longrightarrow> lib_step F w w'"
| step_get_event: "(\<And>w1. lib_steps F w1 (snd (wait w1))) \<Longrightarrow> fsock_get_event wait s flags w = Inr (it, w') \<Longrightarrow> lib_step F w w'"
| step_destroy: "fsock_event_destroy refs e w = Inr w' \<Longrightarrow> lib_step F w w'"
| step_send: "(\<And>w1. lib_steps F w1 (others w1)) \<Longrightarrow> fsock_send F others ret0 s c fr flags w = Inr (rc, w') \<Longrightarrow> lib_step F w w'"
| step_sendc: "(\<And>w1. lib_steps F w1 (others w1)) \<Longrightarrow>
    fsock_sendc F others ret1 s type b c fr dflags sndflags w = Inr (rc, w') \<Longrightarrow> lib_step F w w'"
| step_accept: "fsock_sock_accept_handler F a fd w = Inr w' \<Longrightarrow> lib_step F w w'"
| step_read: "fsock_sock_read_handler F a rd cnt0 w = Inr w' \<Longrightarrow> lib_step F w w'"
| step_write: "(\<And>k iovs w1. lib_steps F w1 (snd (wv k iovs w1))) \<Longrightarrow> fsock_sock_write_handler F wv a w = Inr w' \<Longrightarrow> lib_step F w w'"
| step_async: "async_routine i w = Inr (ts, b, w') \<Longrightarrow> lib_step F w w'"
| steps_none: "lib_steps F w w"
| steps_more: "lib_steps F w w1 \<Longrightarrow> lib_step F w1 w2 \<Longrightarrow> lib_steps F w w2"

text \<open>The memory when the program starts: static storage, and nothing else.\<close>

definition lib_start :: "'x world \<Rightarrow> bool" where
  "lib_start w \<longleftrightarrow> w_held w = {} \<and> w_heap w = (\<lambda>_. None) \<and> w_events w = (\<lambda>_. None) \<and>
     w_tasks w = (\<lambda>_. None) \<and> w_tdata w = (\<lambda>_. None) \<and> \<not> g_initialized w \<and> thr_last_idx w = 0 \<and>
     pa_elems (g_socks w) = None \<and> length (w_threads w) = 4 \<and> (\<forall>t \<in> set (w_threads w). \<not> t_loop t)"

definition lib_reachable :: "'x framer \<Rightarrow> 'x world \<Rightarrow> bool" where
  "lib_reachable F w \<longleftrightarrow> (\<exists>w0. lib_start w0 \<and> lib_steps F w0 w)"

lemma lib_start_inv:
  assumes "lib_start w"
  shows "lib_inv Map.empty {} w"
proof -
  have "mem_ok (\<lambda>_. Unborn) w"
    using assms by (simp add: lib_start_def mem_ok_def parr_elems_def cells_def once_def)
  then show ?thesis using assms by (auto simp: lib_start_def lib_inv_def knows_def)
qed

lemma lib_steps_inv:
  "lib_step F w w' \<Longrightarrow> \<forall>K. lib_inv K {} w \<longrightarrow> lib_inv K {} w'"
  "lib_steps F w w' \<Longrightarrow> \<forall>K. lib_inv K {} w \<longrightarrow> lib_inv K {} w'"
proof (induction rule: lib_step_lib_steps.inducts)
  case (step_socket w rc w')
  show ?case using ensuresD [OF socket_outcome [where R = "\<lambda>(rc, w'). lib_inv _ {} w'"] step_socket] by simp
next
  case (step_close worker n ret0 s w rc w')
  have "\<forall>i. keeps_inv (worker i)" using step_close(2) by (simp add: keeps_inv_def)
  then show ?case using ensuresD [OF close_outcome [where R = "\<lambda>(rc, w'). lib_inv _ {} w'"] step_close(3)] by simp
next
  case (step_bind server s addr port w rc w')
  show ?case using ensuresD [OF bind_outcome [where R = "\<lambda>(rc, w'). lib_inv _ {} w'"] step_bind] by simp
next
  case (step_connect client s addr port w rc w')
  show ?case using ensuresD [OF connect_outcome [where R = "\<lambda>(rc, w'). lib_inv _ {} w'"] step_connect] by simp
next
  case (step_get_event wait s flags w it w')
  have "wait_keeps wait" using step_get_event(2) by (simp add: keeps_inv_def wait_keeps_def)
  then show ?case using ensuresD [OF get_event_outcome [where R = "\<lambda>(it, w'). lib_inv _ {} w'"] step_get_event(3)] by simp
next
  case (step_destroy refs e w w')
  show ?case using ensuresD [OF event_destroy_outcome [where R = "lib_inv _ {}"] step_destroy] by simp
next
  case (step_send others ret0 s c fr flags w rc w')
  have "keeps_inv others" using step_send(2) by (simp add: keeps_inv_def)
  then show ?case
    using returnsD [OF send_returns [where R = "\<lambda>(rc, w'). lib_inv _ {} w'" and H = "{}"] step_send(3)] by simp
next
  case (step_sendc others ret1 s type b c fr dflags sndflags w rc w')
  have "keeps_inv others" using step_sendc(2) by (simp add: keeps_inv_def)
  then show ?case using returnsD [OF sendc_returns [where R = "\<lambda>(rc, w'). lib_inv _ {} w'"] step_sendc(3)] by simp
next
  case (step_accept a fd w w')
  show ?case using ensuresD [OF accept_outcome [where R = "lib_inv _ {}"] step_accept] by simp
next
  case (step_read a rd cnt0 w w')
  show ?case using ensuresD [OF read_handler_outcome [where R = "lib_inv _ {}"] step_read] by simp
next
  case (step_write wv a w w')
  have "writev_keeps wv" using step_write(2) by (simp add: keeps_inv_def writev_keeps_def)
  then show ?case using ensuresD [OF write_handler_outcome [where R = "lib_inv _ {}"] step_write(3)] by simp
next
  case (step_async i w ts b w')
  show ?case using ensuresD [OF async_outcome [where R = "\<lambda>(ts, b, w'). lib_inv _ {} w'"] step_async] by simp
qed simp_all

lemma lib_reachable_inv: "lib_reachable F w \<Longrightarrow> lib_inv Map.empty {} w"
  unfolding lib_reachable_def using lib_start_inv lib_steps_inv(2) by blast

text \<open>The number of an open socket leads to a base socket.\<close>

lemma open_socket_base:
  assumes "lib_inv K H w" "parr_ptr (g_socks w) s = Inr a"
  shows "\<exists>k. w_heap w a = Some k \<and> s_type k = FSOCK_SOCK_BASE"
proof -
  obtain L where L: "mem_ok L w" using assms(1) by (auto simp: lib_inv_def)
  have "a \<in> parr_elems (g_socks w)" by (rule parr_ptr_elem [OF assms(2)])
  then obtain k where k: "w_heap w a = Some k" "L a = Base" using L by (auto simp: mem_ok_def)
  then show ?thesis using mem_ok_heap(2) [OF L k(1)] by (auto simp: role_ok_def split: if_splits)
qed

text \<open>A connection found to be lost stays so, which its role remembers.\<close>

lemma lib_inv_lost:
  assumes w: "lib_inv Map.empty H w" and s: "w_heap w c = Some s" "marked s" "s_type s \<noteq> FSOCK_SOCK_BASE"
  shows "lib_inv [c \<mapsto> Lost] H w"
proof -
  obtain L where L: "mem_ok L w" using w by (auto simp: lib_inv_def)
  define M where "M = L(c := Lost)"
  have part: "is_part (L c)" using mem_ok_heap(2) [OF L s(1)] s(3) by (simp add: role_ok_def)
  have role: "is_part (L b) \<Longrightarrow> is_part (M b)" "L b = Base \<Longrightarrow> M b = Base" "L b = Leaving \<Longrightarrow> M b = Leaving"
      "L b = Unborn \<Longrightarrow> M b = Unborn" "M b = Lost \<Longrightarrow> L b = Lost \<or> b = c" for b
    using part by (auto simp: M_def is_part_def)
  have ro: "role_ok t (L b) \<Longrightarrow> role_ok t (M b)" for t b using role(1,2,3) [of b] by (auto simp: role_ok_def split: if_splits)
  have "sock_wf t \<and> role_ok (s_type t) (M b) \<and> (M b = Lost \<longrightarrow> marked t) \<and> (\<forall>d \<in> kids t. is_part (M d)) \<and>
      (\<forall>o'. s_owner t = Some o' \<longrightarrow> M o' = Base \<or> M o' = Leaving)" if "w_heap w b = Some t" for b t
  proof -
    have "M b = Lost \<Longrightarrow> marked t" using role(5) [of b] mem_ok_heap(3) [OF L that] s that by (cases "b = c") auto
    then show ?thesis using mem_ok_heap [OF L that] role ro by blast
  qed
  then have "mem_ok M w" using L role by (simp add: mem_ok_def)
  moreover have "knows [c \<mapsto> Lost] M" by (simp add: knows_def M_def)
  ultimately show ?thesis using w by (auto simp: lib_inv_def)
qed

lemma lib_inv_lostD: "lib_inv [c \<mapsto> Lost] H w \<Longrightarrow> w_heap w c = Some s \<Longrightarrow> marked s"
  using knowsD [of "[c \<mapsto> Lost]" _ c Lost] by (auto simp: lib_inv_def dest: mem_ok_heap(3))

lemma steps_keep_inv: "(\<And>w. lib_steps F w (f w)) \<Longrightarrow> keeps_inv f"
  unfolding keeps_inv_def using lib_steps_inv(2) by blast

subsection \<open>What always holds\<close>

text \<open>A start to run the witnesses from: the first socket is opened in it.\<close>

definition example_start :: "unit world" where
  "example_start = example_world\<lparr>w_heap := \<lambda>_. None, w_threads := replicate 4 \<lparr>t_loop = False, t_jobs = \<lparr>q_head = Null, q_tail = Null\<rparr>\<rparr>,
     g_initialized := False, g_socks := fsock_parr_init 0, w_allocs := 0\<rparr>"

lemma example_start_ok: "lib_start example_start"
  by (simp add: lib_start_def example_start_def example_world_def fsock_parr_init_def)

lemma example_first_socket:
  "case fsock_socket example_framer example_start of Inl f \<Rightarrow> False | Inr (rc, w) \<Rightarrow> rc = 0 \<and> w_heap w 0 \<noteq> None"
  by code_simp

lemma example_reachable:
  "\<exists>w s. lib_reachable example_framer w \<and> w_heap w 0 = Some s"
proof -
  obtain w s where w: "fsock_socket example_framer example_start = Inr (0, w)" "w_heap w 0 = Some s"
    using example_first_socket by (auto split: sum.splits)
  have "lib_steps example_framer example_start w"
    by (rule steps_more [OF steps_none step_socket [OF w(1)]])
  then show ?thesis using example_start_ok w(2) by (auto simp: lib_reachable_def)
qed

text \<open>
  C9: Whatever calls of the public interface and whatever handlers have run, with every path
  through them that returns, errors included, and with other threads stepping in wherever a call
  gives its mutex back: no mutex is left locked, there are four workers, and the number of the
  worker that is taken next is the number of one.
\<close>

lemma no_mutex_left_locked:
  assumes "lib_reachable F w"
  shows "w_held w = {} \<and> length (w_threads w) = 4 \<and> 0 \<le> thr_last_idx w \<and> thr_last_idx w < 4"
  using lib_reachable_inv [OF assms] by (simp add: lib_inv_def)

lemma no_mutex_left_locked_witness:
  "\<exists>w :: unit world. w_held w = {} \<and> length (w_threads w) = 4 \<and> 0 \<le> thr_last_idx w \<and> thr_last_idx w < 4 \<and> w_heap w 0 \<noteq> None"
  using example_reachable no_mutex_left_locked by blast

text \<open>
  C12: The fields of every socket stay in their types: its type is one of the four, the thread it
  is given to is one of the four workers, \<open>reading\<close> and \<open>writing\<close> are stopped, idle or running,
  the want flags are flags and the high water marks are what they were set to.
\<close>

lemma sockets_well_formed:
  assumes "lib_reachable F w" and "w_heap w a = Some s"
  shows "sock_wf s"
  by (rule lib_inv_wf [OF lib_reachable_inv [OF assms(1)] assms(2)])

lemma sockets_well_formed_witness: "\<exists>w s. w_heap (w :: unit world) 0 = Some s \<and> sock_wf s"
  using example_reachable sockets_well_formed by blast

text \<open>A socket for which a connection has been made and refused: the memory of the connection is not given back.\<close>

definition example_refused :: "(int \<times> unit world \<Rightarrow> fault + 'a) \<Rightarrow> fault + 'a" where
  "example_refused f = rbind (fsock_socket example_framer example_start) (\<lambda>(rc, w). rbind (fsock_connect example_framer (\<lambda>_ _. -1) 0 ''h'' 1 w) f)"

lemma example_refused_runs:
  "example_refused (\<lambda>(rc, w). rbind (parr_ptr (g_socks w) 0) (\<lambda>a. rbind (sock_at w 0) (\<lambda>k. rbind (sock_at w 1) (\<lambda>s.
     assert_that (a = 0 \<and> s_owner s = Some 0))))) = Inr ()"
  by code_simp

lemma example_refused:
  "\<exists>w k s. lib_reachable example_framer w \<and> parr_ptr (g_socks w) 0 = Inr 0 \<and> w_heap w 0 = Some k \<and> w_heap w 1 = Some s \<and> s_owner s = Some 0"
proof -
  have heap: "sock_at v a = Inr s \<longleftrightarrow> w_heap v a = Some s" for v :: "unit world" and a s
    by (auto simp: sock_at_def split: option.splits)
  obtain rc0 w0 rc w k s where w: "fsock_socket example_framer example_start = Inr (rc0, w0)"
      "fsock_connect example_framer (\<lambda>_ _. -1) 0 ''h'' 1 w0 = Inr (rc, w)"
      "parr_ptr (g_socks w) 0 = Inr 0" "w_heap w 0 = Some k" "w_heap w 1 = Some s" "s_owner s = Some 0"
    using example_refused_runs by (auto simp: example_refused_def fault_iff heap)
  have "lib_steps example_framer example_start w"
    by (rule steps_more [OF steps_more [OF steps_none step_socket [OF w(1)]] step_connect [OF w(2)]])
  then show ?thesis using example_start_ok w by (auto simp: lib_reachable_def)
qed

text \<open>
  C1: The number of an open socket always leads to a living base socket, whatever has been opened, closed, bound, connected
  and accepted before, and another number leads to another socket. So a call that is given the number of an open
  socket uses no freed memory to find it, and its assertion on the socket's type cannot fail.
\<close>

lemma open_sockets_alive:
  assumes "lib_reachable F w" and "parr_ptr (g_socks w) s = Inr a"
  shows "(\<exists>k. w_heap w a = Some k \<and> s_type k = FSOCK_SOCK_BASE) \<and> (\<forall>s'. parr_ptr (g_socks w) s' = Inr a \<longrightarrow> s' = s)"
proof -
  obtain L where L: "mem_ok L w" using lib_reachable_inv [OF assms(1)] by (auto simp: lib_inv_def)
  have "s' = s" if "parr_ptr (g_socks w) s' = Inr a" for s'
    using L parr_read_once [OF parr_ptr_read [OF assms(2)] parr_ptr_read [OF that]] by (simp add: mem_ok_def)
  then show ?thesis using open_socket_base [OF lib_reachable_inv [OF assms(1)] assms(2)] by blast
qed

lemma open_sockets_alive_witness:
  "\<exists>w :: unit world. parr_ptr (g_socks w) 0 = Inr 0 \<and> (\<exists>k. w_heap w 0 = Some k \<and> s_type k = FSOCK_SOCK_BASE) \<and>
     (\<forall>s'. parr_ptr (g_socks w) s' = Inr 0 \<longrightarrow> s' = 0)"
  using example_refused open_sockets_alive by blast

text \<open>
  C3: The sockets form two levels: the owner of a socket is never anything but a base socket, and what a socket holds as
  a bind or a connection is never a base socket, as long as they are alive. An address that is still to
  be allocated is named nowhere.
\<close>

lemma sockets_form_two_levels:
  assumes "lib_reachable F w" and "w_heap w a = Some s"
  shows "(\<forall>b k. s_owner s = Some b \<longrightarrow> w_heap w b = Some k \<longrightarrow> s_type k = FSOCK_SOCK_BASE) \<and>
    (\<forall>c k. c \<in> parr_elems (s_conns s) \<union> parr_elems (s_binds s) \<longrightarrow> w_heap w c = Some k \<longrightarrow> s_type k \<noteq> FSOCK_SOCK_BASE) \<and>
    (\<forall>n \<ge> w_allocs w. w_heap w n = None \<and> n \<notin> parr_elems (g_socks w) \<and> s_owner s \<noteq> Some n \<and>
       n \<notin> parr_elems (s_conns s) \<union> parr_elems (s_binds s))"
proof (intro conjI allI impI)
  obtain L where L: "mem_ok L w" using lib_reachable_inv [OF assms(1)] by (auto simp: lib_inv_def)
  fix b k assume b: "s_owner s = Some b" "w_heap w b = Some k"
  then have "L b = Base \<or> L b = Leaving" "role_ok (s_type k) (L b)"
    using mem_ok_heap(5) [OF L assms(2) b(1)] mem_ok_heap(2) [OF L b(2)] by blast+
  then show "s_type k = FSOCK_SOCK_BASE" by (auto simp: role_ok_def split: if_splits)
next
  obtain L where L: "mem_ok L w" using lib_reachable_inv [OF assms(1)] by (auto simp: lib_inv_def)
  fix c k assume c: "c \<in> parr_elems (s_conns s) \<union> parr_elems (s_binds s)" "w_heap w c = Some k"
  have "is_part (L c)" using mem_ok_heap(4) [OF L assms(2), of c] c(1) by (simp add: kids_def)
  moreover have "role_ok (s_type k) (L c)" by (rule mem_ok_heap(2) [OF L c(2)])
  ultimately show "s_type k \<noteq> FSOCK_SOCK_BASE" by (auto simp: role_ok_def split: if_splits)
next
  obtain L where L: "mem_ok L w" using lib_reachable_inv [OF assms(1)] by (auto simp: lib_inv_def)
  fix n assume "w_allocs w \<le> n"
  then have n: "L n = Unborn" using L by (simp add: mem_ok_def)
  note u = mem_ok_unused [OF L, of n, OF disjI1 [OF n]]
  show "w_heap w n = None" "n \<notin> parr_elems (g_socks w)" using u by blast+
  show "s_owner s \<noteq> Some n" "n \<notin> parr_elems (s_conns s) \<union> parr_elems (s_binds s)" using u(3) [OF assms(2)] by (auto simp: kids_def)
qed

lemma sockets_form_two_levels_witness:
  "\<exists>w k s. w_heap (w :: unit world) 0 = Some k \<and> w_heap w 1 = Some s \<and> s_owner s = Some 0 \<and> s_type k = FSOCK_SOCK_BASE"
  using example_refused sockets_form_two_levels by blast

definition lock_safe :: "fault + 'a \<Rightarrow> bool" where
  "lock_safe m \<longleftrightarrow> m \<noteq> Inl Deadlock \<and> m \<noteq> Inl BadUnlock"

lemma ensures_lock_safe: "ensures m R \<Longrightarrow> lock_safe m"
  by (auto simp: lock_safe_def lock_fault_def ensures_def)

text \<open>
  C2: From every reachable state, and whatever the other threads do while a call waits, no call of the public
  interface, no handler and no worker locks a mutex that it holds or gives back one that it does not hold. \<open>fsock_send\<close> and
  \<open>fsock_sendc\<close> are called without the internal flag \<open>FSOCK_SND_UNSAFE\<close>, and \<open>fsock_sendc\<close>, which looks the socket up
  again for each connection, while no other thread makes the number of the socket lead elsewhere.
\<close>

lemma mutexes_used_rightly:
  assumes r: "lib_reachable F w" and others: "\<And>w1. lib_steps F w1 (others w1)" and wait: "\<And>w1. lib_steps F w1 (snd (wait w1))"
    and wv: "\<And>k iovs w1. lib_steps F w1 (snd (wv k iovs w1))" and worker: "\<And>i w1. lib_steps F w1 (worker i w1)"
    and flags: "flags AND FSOCK_SND_UNSAFE = 0"
  shows "lock_safe (fsock_socket F w) \<and> lock_safe (fsock_close n worker ret0 s w) \<and>
    lock_safe (fsock_bind F server s addr port w) \<and> lock_safe (fsock_connect F client s addr port w) \<and>
    lock_safe (fsock_get_event wait s gflags w) \<and> lock_safe (fsock_send F others ret0 s c fr flags w) \<and>
    lock_safe (fsock_sock_accept_handler F a fd w) \<and> lock_safe (fsock_sock_read_handler F a rd cnt0 w) \<and>
    lock_safe (fsock_sock_write_handler F wv a w) \<and> lock_safe (async_routine i w) \<and> lock_safe (fsock_event_destroy refs e w) \<and>
    (keeps_number s others \<longrightarrow> lock_safe (fsock_sendc F others ret1 s type b c fr dflags flags w))"
proof -
  have k: "keeps_inv others" "\<forall>i. keeps_inv (worker i)" "wait_keeps wait" "writev_keeps wv"
    unfolding wait_keeps_def writev_keeps_def by (blast intro: steps_keep_inv others wait wv worker)+
  note inv = lib_reachable_inv [OF r]
  have any: "\<And>K w x. lib_inv K {} w \<Longrightarrow> (\<lambda>_. True) (x, w)" by simp
  show ?thesis
    by (intro conjI impI ensures_lock_safe [where R = "\<lambda>_. True"] event_destroy_outcome [OF inv] sendc_outcome [OF inv k(1) _ flags] socket_outcome [OF inv] close_outcome [OF inv k(2)] bind_outcome [OF inv]
        connect_outcome [OF inv] get_event_outcome [OF inv k(3)] send_outcome [OF inv flags k(1)] accept_outcome [OF inv]
        read_handler_outcome [OF inv] write_handler_outcome [OF inv k(4)] async_outcome [OF inv] TrueI)
qed

lemma mutexes_used_rightly_witness:
  "\<exists>w k. w_heap (w :: unit world) 0 = Some k \<and> parr_ptr (g_socks w) 0 = Inr 0 \<and>
     lock_safe (fsock_send example_framer (\<lambda>w. w) 0 0 0 (Some 7) 0 w) \<and>
     lock_safe (fsock_close 5 (\<lambda>i w. w) 0 0 w) \<and> lock_safe (fsock_get_event (\<lambda>w. (0, w)) 0 0 w) \<and>
     lock_safe (fsock_sendc example_framer (\<lambda>w. w) (\<lambda>_. 0) 0 FSOCK_SND_ALL 0 0 (Some 7) 0 0 w)"
proof -
  obtain w k where w: "lib_reachable example_framer w" "w_heap w 0 = Some k" "parr_ptr (g_socks w) 0 = Inr 0"
    using example_refused by blast
  show ?thesis
    using mutexes_used_rightly [OF w(1), where others = "\<lambda>w. w" and wait = "\<lambda>w. (0, w)" and wv = "\<lambda>k iovs w. (Inl EAGAIN, w)"
        and worker = "\<lambda>i w. w" and flags = 0 and n = 5 and gflags = 0 and s = 0 and c = 0 and fr = "Some 7" and ?ret0.0 = 0
        and server = "\<lambda>_ _. 0" and client = "\<lambda>_ _. 0" and addr = "[]" and port = 0 and a = 0 and fd = 0 and rd = "Inl EAGAIN"
        and ?cnt0.0 = 0 and i = 0 and ?ret1.0 = "\<lambda>_. 0" and type = FSOCK_SND_ALL and b = 0 and dflags = 0] w(2,3)
    by (auto simp: steps_none keeps_number_def)
qed

end
