(* ===== verification/Connections.thy ===== *)
theory Connections
  imports Sending Invariants
begin

unbundle bit_operations_syntax

text \<open>
  Which connection a frame is sent to, and what becomes of a connection whose peer has closed it.
\<close>

text \<open>
  C20: \<open>fsock_sendc\<close> for connection \<open>c\<close> of bind \<open>b\<close>, which \<open>fsock.h\<close> describes as sending to that connection, reaches another
  peer: it passes \<open>idxlocal\<close>, which counts the connections of the bind, to \<open>fsock_send\<close>, which takes it for a number of the
  socket. When the connection with that number of the socket is another one, the frame goes on its list and its
  thread is told to write, and the connection that was named stays as it was.
\<close>

theorem sendc_reaches_another_peer:
  assumes s: "parr_ptr (g_socks w) s = Inr a" and a: "w_heap w a = Some so" "s_type so = FSOCK_SOCK_BASE"
    and bnd: "parr_ptr (s_binds so) b = Inr bnd" "b < pa_last (s_binds so)" "w_heap w bnd = Some bs"
    and conn: "parr_ptr (s_conns bs) c = Inr conn" "c < pa_last (s_conns bs)" "w_heap w conn = Some cs" "s_idxlocal cs = c" "conn \<noteq> a"
    and other: "parr_ptr (s_conns so) c = Inr p" "p \<noteq> conn" "p \<noteq> a" and ok: "queues_ok w Q" and ready: "send_ready w p ps t"
    and alive: "s_flags ps AND FSOCK_SOCK_ZOMBIE = 0" and room: "s_writing so \<noteq> FSOCK_SOCK_STOP_OP"
    and mem: "o_malloc (w_env w) (w_allocs w)" and sz: "- INT_MAX - 1 \<le> s_sndqsz so" "s_sndqsz so < INT_MAX"
    and lock: "flags AND FSOCK_SND_UNSAFE = 0 \<longrightarrow> Sock_sync a \<notin> w_held w"
  shows "\<exists>w' ps'. fsock_sendc F others ret0 s FSOCK_SND_BINDCONN b c (Some fr) dflags flags w = Inr (ret0 c, w') \<and>
    w_heap w' p = Some ps' \<and> s_ol ps' = snd (frm_ol_insert F (w_out w) (s_ol ps) (w_allocs w)) \<and> w_oframe w' (w_allocs w) = fr \<and>
    queues_ok w' (if s_writing ps = 0 then Q(Jobs t := Q (Jobs t) @ [Sock_task p START_WRITE]) else Q) \<and>
    w_heap w' conn = Some cs"
proof -
  have "fsock_sendc F others ret0 s FSOCK_SND_BINDCONN b c (Some fr) dflags flags w = fsock_send F others (ret0 c) s c (Some fr) flags w"
    using parr_ptr_read [OF s] a(1) bnd conn
    by (simp add: fsock_sendc_def FSOCK_SND_ALL_def FSOCK_SND_BIND_def FSOCK_SND_BINDCONN_def cell_ptr_def sock_at_def)
  then show ?thesis
    using send_ok [OF s a other(3) [symmetric] other(1) ok ready alive room mem sz lock, of F others "ret0 c" fr] other(2,3) conn(3,5)
    by (auto simp: sent_conn_def)
qed

text \<open>
  A socket 0 with two connections, 1 and 2, where 2 was accepted by its bind 3: there it has
  number 0, and the socket knows it by number 1.
\<close>

definition example_bind_world :: "unit world" where
  "example_bind_world = example_world\<lparr>w_allocs := 4, w_heap :=
     [0 \<mapsto> example_base\<lparr>s_conns := \<lparr>pa_elems = Some ([Elem 1, Elem 2] @ replicate 8 Uninit), pa_last = 2, pa_capacity = 10, pa_increment = 10\<rparr>,
         s_binds := example_parr 3\<rparr>,
      1 \<mapsto> example_conn, 2 \<mapsto> (example_sock FSOCK_SOCK_IN)\<lparr>s_owner := Some 0, s_thr := Some 1, s_idx := 1, s_idxlocal := 0\<rparr>,
      3 \<mapsto> (example_sock FSOCK_SOCK_BIND)\<lparr>s_conns := example_parr 2\<rparr>]\<rparr>"

lemma example_bind:
  "parr_ptr (g_socks example_bind_world) 0 = Inr 0" "parr_ptr (s_binds (the (w_heap example_bind_world 0))) 0 = Inr 3"
  "parr_ptr (s_conns (the (w_heap example_bind_world 3))) 0 = Inr 2" "pa_last (s_binds (the (w_heap example_bind_world 0))) = 1"
  "pa_last (s_conns (the (w_heap example_bind_world 3))) = 1" "s_idxlocal (the (w_heap example_bind_world 2)) = 0"
  by code_simp+

lemma example_bind_objects:
  "w_heap example_bind_world 0 = Some (the (w_heap example_bind_world 0))" "w_heap example_bind_world 3 = Some (the (w_heap example_bind_world 3))"
  "w_heap example_bind_world 2 = Some (the (w_heap example_bind_world 2))"
  by (simp_all add: example_bind_world_def)

lemma example_bind_queues: "queues_ok example_bind_world (\<lambda>_. [])"
  by (auto simp: queues_ok_def queue_family_def queue_hdr_def example_bind_world_def example_world_def example_base_def example_conn_def
      example_sock_def split: queue_id.split)

lemma example_bind_ready:
  "send_ready example_bind_world 1 example_conn 0" "parr_ptr (s_conns (the (w_heap example_bind_world 0))) 0 = Inr 1"
  "s_type (the (w_heap example_bind_world 0)) = FSOCK_SOCK_BASE" "s_writing (the (w_heap example_bind_world 0)) = 0"
  "s_sndqsz (the (w_heap example_bind_world 0)) = 0" "w_allocs example_bind_world = 4" "w_held example_bind_world = {}"
  "o_malloc (w_env example_bind_world) 4" "w_out example_bind_world = w_out example_world"
  by (simp_all add: example_bind_world_def send_ready_def item_isinqueue_def fsock_queue_item_isinqueue_def example_conn_def example_sock_def
      parr_ptr_def parr_read_def example_base_def)

theorem sendc_reaches_another_peer_witness:
  "\<exists>w' s'. fsock_sendc example_framer id (\<lambda>_. 0) 0 FSOCK_SND_BINDCONN 0 0 (Some 77) 0 0 example_bind_world = Inr (0, w') \<and>
     w_heap w' 1 = Some s' \<and> ol_first (s_ol s') = Some 4 \<and> w_oframe w' 4 = 77 \<and> w_heap w' 2 = w_heap example_bind_world 2"
proof -
  have f: "s_flags example_conn AND FSOCK_SOCK_ZOMBIE = 0" by (simp add: example_conn_def example_sock_def)
  note e = example_bind and o = example_bind_objects and r = example_bind_ready
  show ?thesis
    using sendc_reaches_another_peer [OF e(1) o(1) r(3) e(2) _ o(2) e(3) _ o(3) e(6) _ r(2) _ _ example_bind_queues r(1) f,
        of 0 example_framer id "\<lambda>_. 0" 77 0] e(4,5) r o(3)
    by (force simp: FSOCK_SOCK_STOP_OP_def INT_MAX_def example_framer_def)
qed

text \<open>
  C21: When the peer closes a connection, in any reachable state, the read handler stops both watchers of it and marks it, and
  the owner gets no event. From then on, whatever calls and handlers run, as long as the connection is not freed every
  \<open>fsock_send\<close> that finds it among the connections of its socket is refused with \<open>EINVAL\<close>.
\<close>

theorem lost_connection_refuses_frames:
  assumes reach: "lib_reachable F w" and s: "w_heap w conn = Some s" "s_type s \<noteq> FSOCK_SOCK_BASE"
    and io: "s_rio s = Some r" "io_fd r = s_fd s" and mem: "o_malloc (w_env w) (w_allocs w)" and live: "s_flags s AND FSOCK_SOCK_ZOMBIE = 0"
  shows "\<exists>w'. fsock_sock_read_handler F conn (Inr []) cnt0 w = Inr w' \<and>
    w_log w' = w_log w @ [Io_stop conn Rio, Io_stop conn Wio] \<and> w_held w' = w_held w \<and>
    w_heap w' = (w_heap w)(conn \<mapsto> s\<lparr>s_flags := s_flags s OR FSOCK_SOCK_ZOMBIE\<rparr>) \<and>
    (\<forall>w2 k a so c others ret0 fr flags. lib_steps F w' w2 \<longrightarrow> w_heap w2 conn \<noteq> None \<longrightarrow>
       parr_ptr (g_socks w2) k = Inr a \<longrightarrow> w_heap w2 a = Some so \<longrightarrow> parr_ptr (s_conns so) c = Inr conn \<longrightarrow>
       fsock_send F others ret0 k c (Some fr) flags w2 = Inr (-1, set_errno EINVAL w2))"
proof -
  let ?s = "s\<lparr>s_flags := s_flags s OR FSOCK_SOCK_ZOMBIE\<rparr>"
  let ?w = "w\<lparr>w_allocs := Suc (w_allocs w), w_log := w_log w @ [Io_stop conn Rio, Io_stop conn Wio], w_heap := (w_heap w)(conn \<mapsto> ?s)\<rparr>"
  note inv = lib_reachable_inv [OF reach]
  have held: "w_held w = {}" using inv by (simp add: lib_inv_def)
  have run: "fsock_sock_read_handler F conn (Inr []) cnt0 w = Inr ?w"
    using s io mem live held
    by (simp add: fsock_sock_read_handler_def sock_at_def io_fd_of_def c_malloc_ok read_stop_def log_eff_def
        fsock_mutex_lock_def fsock_mutex_unlock_def lock_exists_def sock_upd_def sock_put_def)
  have "lib_inv Map.empty {} ?w" using ensuresD [OF read_handler_outcome [OF inv, where R = "lib_inv Map.empty {}"] run] by simp
  then have lost: "lib_inv [conn \<mapsto> Lost] {} ?w" by (rule lib_inv_lost [where s = ?s]) (use s(2) in \<open>simp_all add: FSOCK_SOCK_ZOMBIE_def\<close>)
  have "fsock_send F others ret0 k c (Some fr) flags w2 = Inr (-1, set_errno EINVAL w2)"
    if w2: "lib_steps F ?w w2" "w_heap w2 conn \<noteq> None" "parr_ptr (g_socks w2) k = Inr a" "w_heap w2 a = Some so" "parr_ptr (s_conns so) c = Inr conn"
    for w2 k a so c others ret0 fr flags
  proof -
    have inv2: "lib_inv [conn \<mapsto> Lost] {} w2" using lib_steps_inv(2) [OF w2(1)] lost by blast
    obtain cs where cs: "w_heap w2 conn = Some cs" using w2(2) by blast
    have "s_type so = FSOCK_SOCK_BASE" using open_socket_base [OF inv2 w2(3)] w2(4) by auto
    then show ?thesis using w2(3-5) cs lib_inv_lostD [OF inv2 cs] by (simp add: fsock_send_def sock_at_def)
  qed
  then show ?thesis by (intro exI [of _ ?w] conjI allI impI run) simp_all
qed

text \<open>
  A connection that was made by \<open>fsock_connect\<close> and started by its thread. The run is evaluated with the congruence that
  leaves the rest of a body alone until the part before it has a value.
\<close>

lemma rbind_weak: "m = n \<Longrightarrow> rbind m f = rbind n f"
  by simp

lemmas run_defs = example_start_def example_world_def example_env_def fsock_socket_def c_malloc_def fsock_glock_lock_def fsock_glock_unlock_def
  fsock_mutex_lock_def fsock_mutex_unlock_def fsock_mutex_init_def lock_exists_def fsock_global_init_def fsock_thread_init_def thread_at_def
  thread_put_def fsock_thread_start_def fsock_sock_init_def sock_efd_init_def fsock_task_init_def sock_tasks_def sock_put_def sock_upd_def sock_at_def
  fsock_parr_init_def fsock_parr_insert_def fsock_parr_realloc_def parr_resize_def parr_write_def parr_read_def fsock_queue_item_init_def assert_that_def log_eff_def
  c_int_def INT_MAX_def parr_find_slot.simps parr_allocsz_def fsock_connect_def conns_insert_def cell_ptr_def cell_owner_def f_choose_thr_def
  fsock_thread_start_connection_def fsock_thread_schedule_task_def thread_push_def fsock_queue_push_def thread_wake_def fsock_queue_init_def ptr_deref_def async_routine_def async_take_def
  world_pop_def fsock_queue_pop_def task_fn_def thr_task_routine_def io_init_def free_task_def parr_ptr_def

definition example_connected :: "(unit world \<Rightarrow> fault + 'a) \<Rightarrow> fault + 'a" where
  "example_connected f = rbind (fsock_socket example_framer example_start) (\<lambda>(rc, w).
     rbind (fsock_connect example_framer (\<lambda>_ _. 5) 0 ''h'' 1 w) (\<lambda>(rc, w). rbind (async_routine 0 w) (\<lambda>(ts, b, w). f w)))"

lemma example_connected_runs:
  "example_connected (\<lambda>w. rbind (parr_ptr (g_socks w) 0) (\<lambda>a. rbind (sock_at w 0) (\<lambda>k. rbind (parr_ptr (s_conns k) 0) (\<lambda>c. rbind (sock_at w 1) (\<lambda>s.
     assert_that (a = 0 \<and> c = 1 \<and> s_type s = FSOCK_SOCK_OUT \<and> s_rio s = Some \<lparr>io_fd = 5, io_cb = Read_handler\<rparr> \<and> s_fd s = 5 \<and> s_flags s = 0 \<and>
       o_malloc (w_env w) (w_allocs w))))))) = Inr ()"
  unfolding example_connected_def by (simp cong: rbind_weak add: run_defs Let_def drain_with.simps)

lemma example_connected:
  "\<exists>w k s. lib_reachable example_framer w \<and> parr_ptr (g_socks w) 0 = Inr 0 \<and> w_heap w 0 = Some k \<and> parr_ptr (s_conns k) 0 = Inr 1 \<and>
     w_heap w 1 = Some s \<and> s_type s \<noteq> FSOCK_SOCK_BASE \<and> s_rio s = Some \<lparr>io_fd = 5, io_cb = Read_handler\<rparr> \<and> s_fd s = 5 \<and> s_flags s = 0 \<and>
     o_malloc (w_env w) (w_allocs w)"
proof -
  have heap: "sock_at v a = Inr s \<longleftrightarrow> w_heap v a = Some s" for v :: "unit world" and a s
    by (auto simp: sock_at_def split: option.splits)
  obtain rc0 w0 rc w1 ts b w k s where w: "fsock_socket example_framer example_start = Inr (rc0, w0)"
      "fsock_connect example_framer (\<lambda>_ _. 5) 0 ''h'' 1 w0 = Inr (rc, w1)" "async_routine 0 w1 = Inr (ts, b, w)"
      "parr_ptr (g_socks w) 0 = Inr 0" "w_heap w 0 = Some k" "parr_ptr (s_conns k) 0 = Inr 1" "w_heap w 1 = Some s"
      "s_type s = FSOCK_SOCK_OUT" "s_rio s = Some \<lparr>io_fd = 5, io_cb = Read_handler\<rparr>" "s_fd s = 5" "s_flags s = 0" "o_malloc (w_env w) (w_allocs w)"
    using example_connected_runs by (auto simp: example_connected_def fault_iff heap)
  have "lib_steps example_framer example_start w"
    by (rule steps_more [OF steps_more [OF steps_more [OF steps_none step_socket [OF w(1)]] step_connect [OF w(2)]] step_async [OF w(3)]])
  then show ?thesis using example_start_ok w(4-) by (intro exI [of _ w] exI [of _ k] exI [of _ s]) (auto simp: lib_reachable_def)
qed

theorem lost_connection_refuses_frames_witness:
  "\<exists>w w'. lib_reachable example_framer w \<and> fsock_sock_read_handler example_framer 1 (Inr []) 0 w = Inr w' \<and>
    w_log w' = w_log w @ [Io_stop 1 Rio, Io_stop 1 Wio] \<and>
    fsock_send example_framer id 0 0 0 (Some 77) 0 w' = Inr (-1, set_errno EINVAL w')"
proof -
  obtain w k s where w: "lib_reachable example_framer w" "parr_ptr (g_socks w) 0 = Inr 0" "w_heap w 0 = Some k" "parr_ptr (s_conns k) 0 = Inr 1"
      "w_heap w 1 = Some s" "s_type s \<noteq> FSOCK_SOCK_BASE" "s_rio s = Some \<lparr>io_fd = 5, io_cb = Read_handler\<rparr>" "s_fd s = 5" "s_flags s = 0"
      "o_malloc (w_env w) (w_allocs w)"
    using example_connected by blast
  obtain w' where w': "fsock_sock_read_handler example_framer 1 (Inr []) 0 w = Inr w'" "w_log w' = w_log w @ [Io_stop 1 Rio, Io_stop 1 Wio]"
      "w_heap w' = (w_heap w)(1 \<mapsto> s\<lparr>s_flags := s_flags s OR FSOCK_SOCK_ZOMBIE\<rparr>)"
      "\<And>w2 k a so c others ret0 fr flags. lib_steps example_framer w' w2 \<Longrightarrow> w_heap w2 1 \<noteq> None \<Longrightarrow>
         parr_ptr (g_socks w2) k = Inr a \<Longrightarrow> w_heap w2 a = Some so \<Longrightarrow> parr_ptr (s_conns so) c = Inr 1 \<Longrightarrow>
         fsock_send example_framer others ret0 k c (Some fr) flags w2 = Inr (-1, set_errno EINVAL w2)"
    using lost_connection_refuses_frames [OF w(1,5,6,7) _ w(10), of 0] w(8,9) by auto
  have "g_socks w' = g_socks w" using w'(1) w(5,7-10) by (auto simp: fsock_sock_read_handler_def read_stop_def sock_at_def io_fd_of_def c_malloc_ok socks_parts split: if_splits)
  then show ?thesis
    using w' w(1-4) w'(4) [OF steps_none, of 0 0 k 0 id 0 77 0] by auto
qed

end
