(* ===== verification/Slots.thy ===== *)
theory Slots
  imports Parr
begin

text \<open>
  The pointer array as the code that tears it down uses it: a table from slot numbers to elements,
  given by the list of its occupied slots in order. The locale \<open>slot_table\<close> states what such a
  table promises, and proves what a loop relies on that clears every slot it visits. It is
  interpreted on the arrays of at most \<open>increment\<close> slots, which is where the promises hold: the
  theory Parr shows what clearing does beyond.
\<close>

subsection \<open>The contract\<close>

definition slots_sorted :: "(nat \<times> 'a) list \<Rightarrow> bool" where
  "slots_sorted L \<longleftrightarrow> sorted (map fst L) \<and> distinct (map fst L)"

definition without :: "nat \<Rightarrow> (nat \<times> 'a) list \<Rightarrow> (nat \<times> 'a) list" where
  "without i L = filter (\<lambda>x. fst x \<noteq> i) L"

locale slot_table =
  fixes rep :: "'p \<Rightarrow> (nat \<times> 'a) list \<Rightarrow> bool"
    and begin_at :: "'p \<Rightarrow> fault + ('a option \<times> int)"
    and next_at :: "'p \<Rightarrow> int \<Rightarrow> fault + ('a option \<times> int)"
    and clear_at :: "'p \<Rightarrow> int \<Rightarrow> fault + (int \<times> 'p)"
    and size_at :: "'p \<Rightarrow> fault + int"
  assumes rep_sorted: "rep p L \<Longrightarrow> slots_sorted L"
    and rep_begin: "rep p L \<Longrightarrow> \<exists>d. begin_at p = Inr (first_live L d)"
    and rep_next: "rep p L \<Longrightarrow> \<exists>d. next_at p (int i) = Inr (first_live (filter (\<lambda>x. i < fst x) L) d)"
    and rep_clear: "rep p L \<Longrightarrow> (i, e) \<in> set L \<Longrightarrow> \<exists>q. clear_at p (int i) = Inr (0, q) \<and> rep q (without i L)"
    and rep_size: "rep p L \<Longrightarrow> size_at p = Inr (int (length L))"
begin

text \<open>Clearing the slot an iteration is at, and going on from there.\<close>

lemma clear_first:
  assumes "rep p ((i, e) # L)"
  obtains q d where "clear_at p (int i) = Inr (0, q)" "rep q L" "next_at q (int i) = Inr (first_live L d)"
proof -
  have "slots_sorted ((i, e) # L)" by (rule rep_sorted [OF assms])
  then have later: "i < fst x" if "x \<in> set L" for x
    using that by (force simp: slots_sorted_def le_less)
  then have "without i ((i, e) # L) = L" by (force simp: without_def intro!: filter_True)
  then obtain q where q: "clear_at p (int i) = Inr (0, q)" "rep q L"
    using rep_clear [OF assms, of i e] by auto
  moreover have "filter (\<lambda>x. i < fst x) L = L" using later by (simp add: filter_True)
  then obtain d where "next_at q (int i) = Inr (first_live L d)"
    using rep_next [OF q(2), of i] by auto
  ultimately show ?thesis by (rule that)
qed

end

subsection \<open>Arrays of at most \<open>increment\<close> slots\<close>

definition small_slots :: "'a option list \<Rightarrow> 'a parr \<Rightarrow> bool" where
  "small_slots ss p \<longleftrightarrow>
     parr_rep ss p \<and> int (length ss) \<le> pa_increment p \<and> 2 * pa_increment p \<le> INT_MAX \<and>
     (pa_capacity p = 0 \<or> pa_capacity p = pa_increment p \<or> pa_capacity p = 2 * pa_increment p)"

definition small_table :: "'a parr \<Rightarrow> (nat \<times> 'a) list \<Rightarrow> bool" where
  "small_table p L \<longleftrightarrow> (\<exists>ss. small_slots ss p \<and> L = live_from 0 ss)"

lemma live_from_alt:
  "live_from k ss = map (\<lambda>j. (j, the (ss ! j))) (filter (\<lambda>j. ss ! j \<noteq> None) [k..<length ss])"
  unfolding live_from_def List.map_filter_def by (auto intro!: map_cong)

lemma map_fst_live_from: "map fst (live_from k ss) = filter (\<lambda>j. ss ! j \<noteq> None) [k..<length ss]"
  by (simp add: live_from_alt comp_def)

lemma live_from_sorted: "slots_sorted (live_from k ss)"
  by (simp add: slots_sorted_def map_fst_live_from sorted_wrt_filter)

lemma set_live_from: "(i, e) \<in> set (live_from 0 ss) \<longleftrightarrow> i < length ss \<and> ss ! i = Some e"
  by (auto simp: live_from_alt)

lemma live_from_later: "filter (\<lambda>x. i < fst x) (live_from 0 ss) = live_from (Suc i) ss"
proof -
  have "filter (\<lambda>j. i < j) [0..<n] = [Suc i..<n]" for n
    by (induction n) (auto simp: le_less_Suc_eq less_Suc_eq_le)
  then have "filter (\<lambda>j. i < j \<and> ss ! j \<noteq> None) [0..<length ss] = filter (\<lambda>j. ss ! j \<noteq> None) [Suc i..<length ss]"
    by (metis (no_types, lifting) filter_cong filter_filter)
  then show ?thesis by (simp add: live_from_alt filter_map comp_def conj_commute)
qed

lemma live_from_update: "live_from 0 (ss[i := None]) = without i (live_from 0 ss)"
proof -
  have nth: "ss[i := None] ! j = (if j = i then None else ss ! j)" if "j < length ss" for j
    using that by (cases "i < length ss") (auto simp: nth_list_update)
  have "filter (\<lambda>j. ss[i := None] ! j \<noteq> None) [0..<length ss] = filter (\<lambda>j. j \<noteq> i \<and> ss ! j \<noteq> None) [0..<length ss]"
    by (rule filter_cong) (auto simp: nth)
  then have "live_from 0 (ss[i := None]) = map (\<lambda>j. (j, the (ss[i := None] ! j))) (filter (\<lambda>j. j \<noteq> i \<and> ss ! j \<noteq> None) [0..<length ss])"
    by (simp add: live_from_alt)
  also have "\<dots> = map (\<lambda>j. (j, the (ss ! j))) (filter (\<lambda>j. j \<noteq> i \<and> ss ! j \<noteq> None) [0..<length ss])"
    by (rule map_cong) auto
  finally show ?thesis by (simp add: live_from_alt without_def filter_map comp_def conj_commute)
qed

lemma live_from_none: "live_from 0 ss = [] \<longleftrightarrow> (\<forall>j < length ss. ss ! j = None)"
  by (auto simp: live_from_alt filter_empty_conv)

text \<open>Giving back a block that \<open>last\<close> does not need, and looking again.\<close>

lemma parr_shrink_step:
  assumes rep: "parr_rep ss p" and cap: "2 * pa_increment p \<le> pa_capacity p" "pa_capacity p \<le> INT_MAX"
    and fits: "int (length ss) \<le> pa_capacity p - pa_increment p"
    and alloc: "alloc (parr_allocsz (pa_capacity p - pa_increment p))"
  shows "\<exists>q. parr_shrink_loop alloc p = parr_shrink_loop alloc q \<and> parr_rep ss q \<and>
    pa_increment q = pa_increment p \<and> pa_capacity q = pa_capacity p - pa_increment p"
proof -
  let ?c = "pa_capacity p - pa_increment p"
  have inc: "0 < pa_increment p" using rep by (simp add: parr_rep_def)
  define q where "q = p\<lparr>pa_capacity := ?c, pa_elems := Some (take (nat ?c) (parr_block p))\<rparr>"
  have "pa_elems p \<noteq> None" using rep cap inc by (auto simp: parr_rep_def)
  then have re: "fsock_parr_realloc alloc p (- pa_increment p) = Inr (OK, q)"
    using parr_realloc_shrink [OF rep _ inc _ cap(2), of alloc] alloc cap inc by (simp add: q_def)
  have "parr_rep ss q" using rep inc fits cap by (auto simp: parr_rep_def q_def parr_block_def min_def)
  moreover have "parr_shrink_loop alloc p = parr_shrink_loop alloc q"
    using cap inc fits re
    by (subst parr_shrink_loop.simps) (simp add: parr_can_shrink_rep [OF rep])
  ultimately show ?thesis by (intro exI [of _ q]) (simp add: q_def)
qed

lemma shrink_small:
  assumes "small_slots ss p" "pa_capacity p = pa_increment p"
  shows "\<exists>q. parr_shrink_loop alloc p = Some (Inr (0, q)) \<and> small_table q (live_from 0 ss)"
proof (cases "live_from 0 ss = []")
  case True
  then have "parr_shrink_loop alloc p = Some (Inr (0, fsock_parr_init (pa_increment p)))"
    using assms by (intro parr_shrink_resets [of ss]) (auto simp: live_from_none small_slots_def)
  moreover have "small_slots [] (fsock_parr_init (pa_increment p))"
    using assms by (auto simp: small_slots_def parr_rep_def fsock_parr_init_def parr_block_def)
  ultimately show ?thesis using True by (auto simp: small_table_def intro!: exI [of _ "[]"])
next
  case False
  then have "parr_shrink_loop alloc p = Some (Inr (0, p))"
    using assms by (intro parr_shrink_stops [of ss]) (auto simp: live_from_none small_slots_def)
  then show ?thesis using assms by (auto simp: small_table_def)
qed

lemma small_clear:
  assumes p: "small_table p L" and e: "(i, e) \<in> set L" and alloc: "\<And>z. alloc z"
  shows "\<exists>q. fsock_parr_clear alloc p (int i) = Inr (0, q) \<and> small_table q (without i L)"
proof -
  obtain ss where ss: "small_slots ss p" "L = live_from 0 ss" using p by (auto simp: small_table_def)
  have i: "i < length ss" using e by (simp add: ss(2) set_live_from)
  have rep: "parr_rep ss p" using ss(1) by (simp add: small_slots_def)
  let ?p1 = "p\<lparr>pa_elems := Some ((parr_block p)[i := Empty])\<rparr>"
  have cap: "pa_capacity p \<noteq> 0" using i rep by (auto simp: parr_rep_def)
  have small1: "small_slots (ss[i := None]) ?p1"
    using parr_rep_clear [OF rep i] ss(1) by (auto simp: small_slots_def)
  have "\<exists>q. parr_shrink_loop alloc ?p1 = Some (Inr (0, q)) \<and> small_table q (live_from 0 (ss[i := None]))"
  proof (cases "pa_capacity p = pa_increment p")
    case True
    then show ?thesis using shrink_small [OF small1] by simp
  next
    case False
    then have "pa_capacity ?p1 = 2 * pa_increment ?p1" using ss(1) cap by (auto simp: small_slots_def)
    then obtain q where q: "parr_shrink_loop alloc ?p1 = parr_shrink_loop alloc q" "parr_rep (ss[i := None]) q"
        "pa_increment q = pa_increment p" "pa_capacity q = pa_increment q"
      using parr_shrink_step [of "ss[i := None]" ?p1 alloc] small1 alloc by (auto simp: small_slots_def)
    then have "small_slots (ss[i := None]) q" using small1 by (simp add: small_slots_def)
    from shrink_small [OF this q(4)] show ?thesis by (simp add: q(1))
  qed
  then show ?thesis by (auto simp: parr_clear_unfold [OF rep i] ss(2) live_from_update)
qed

lemma small_next:
  assumes "small_table p L"
  shows "\<exists>d. fsock_parr_next p (int i) = Inr (first_live (filter (\<lambda>x. i < fst x) L) d)"
proof -
  obtain ss where ss: "parr_rep ss p" "L = live_from 0 ss" using assms by (auto simp: small_table_def small_slots_def)
  show ?thesis
  proof (cases "i < length ss")
    case True
    then show ?thesis using parr_next_rep [OF ss(1) True] by (auto simp: ss(2) live_from_later)
  next
    case False
    then have "fsock_parr_next p (int i) = Inr (None, int i)"
      by (simp add: fsock_parr_next_def parr_rep_last [OF ss(1)] parr_next_loop.simps [of p "int i + 1"])
    then show ?thesis using False by (simp add: ss(2) live_from_later)
  qed
qed

interpretation small: slot_table small_table fsock_parr_begin fsock_parr_next "fsock_parr_clear (\<lambda>_. True)" fsock_parr_size
proof
  fix p :: "'a parr" and L and i :: nat and e
  show "small_table p L \<Longrightarrow> slots_sorted L" by (auto simp: small_table_def live_from_sorted)
  show "small_table p L \<Longrightarrow> \<exists>d. fsock_parr_begin p = Inr (first_live L d)"
    by (auto simp: small_table_def small_slots_def dest: parr_begin_rep)
  show "small_table p L \<Longrightarrow> \<exists>d. fsock_parr_next p (int i) = Inr (first_live (filter (\<lambda>x. i < fst x) L) d)"
    by (rule small_next)
  show "small_table p L \<Longrightarrow> (i, e) \<in> set L \<Longrightarrow> \<exists>q. fsock_parr_clear (\<lambda>_. True) p (int i) = Inr (0, q) \<and> small_table q (without i L)"
    by (rule small_clear) simp_all
  show "small_table p L \<Longrightarrow> fsock_parr_size p = Inr (int (length L))"
    by (auto simp: small_table_def small_slots_def dest: parr_size_rep)
qed

lemma small_term: "small_table p [] \<Longrightarrow> fsock_parr_term p = Inr ()"
  by (simp add: fsock_parr_term_def small.rep_size)

lemma small_ptr:
  assumes "small_table p L" "(i, e) \<in> set L"
  shows "parr_read p (int i) = Inr (Elem e)" "int i < pa_last p"
proof -
  obtain ss where ss: "parr_rep ss p" "L = live_from 0 ss" using assms by (auto simp: small_table_def small_slots_def)
  then have "i < length ss" "ss ! i = Some e" using assms(2) by (auto simp: set_live_from)
  then show "parr_read p (int i) = Inr (Elem e)" "int i < pa_last p"
    by (simp_all add: parr_read_nth [OF ss(1)] parr_rep_last [OF ss(1)])
qed

lemma small_init: "small_table (fsock_parr_init 10) []"
  by (auto simp: small_table_def small_slots_def parr_rep_def fsock_parr_init_def parr_block_def INT_MAX_def intro!: exI [of _ "[]"])

text \<open>Up to ten elements, inserted one after the other, make such a table.\<close>

lemma small_dense:
  assumes d: "parr_dense xs p" and inc: "pa_increment p = 10" and n: "length xs \<le> 10"
  shows "small_table p (zip [0..<length xs] xs)"
proof -
  have "int (length xs) div 10 = 0 \<or> int (length xs) div 10 = 1"
    using n by (cases "length xs = 10") (auto simp: div_pos_pos_trivial)
  then have "small_slots (map Some xs) p"
    using d inc n by (auto simp: parr_dense_def small_slots_def INT_MAX_def)
  then show ?thesis by (auto simp: small_table_def live_from_all)
qed

end
