(* ===== verification/Teardown.thy ===== *)
theory Teardown
  imports Global Slots Example
begin

text \<open>
  What \<open>fsock_close\<close> takes down: a base socket, its binds, and the connections of both, in the
  order \<open>fsock_sock_term\<close> visits them. The arrays are used through the table of the theory
  Slots, so the theorems here hold for sockets whose arrays have at most ten slots.
\<close>

subsection \<open>Worlds after some frees\<close>

text \<open>Taking sockets down changes the heap and adds to the log, and nothing else.\<close>

definition relog :: "(nat \<Rightarrow> 'x sock option) \<Rightarrow> effect list \<Rightarrow> 'x world \<Rightarrow> 'x world" where
  "relog h es w = w\<lparr>w_heap := h, w_log := w_log w @ es\<rparr>"

lemma relog_fields [simp]:
  "w_heap (relog h es w) = h" "w_log (relog h es w) = w_log w @ es" "w_held (relog h es w) = w_held w"
  "w_next (relog h es w) = w_next w" "w_env (relog h es w) = w_env w" "w_threads (relog h es w) = w_threads w"
  "g_socks (relog h es w) = g_socks w" "g_initialized (relog h es w) = g_initialized w"
  by (simp_all add: relog_def)

lemma relog_relog [simp]: "relog h2 es2 (relog h es w) = relog h2 (es @ es2) w"
  by (simp add: relog_def)

lemma relog_normal:
  "sock_put a s w = relog ((w_heap w)(a := Some s)) [] w"
  "log_eff e w = relog (w_heap w) [e] w"
  "sock_free a w = relog ((w_heap w)(a := None)) [Free a] w"
  by (simp_all add: relog_def sock_put_def log_eff_def sock_free_def)

lemma sock_at_relog [simp]: "sock_at (relog h es w) a = (case h a of None \<Rightarrow> Inl UseAfterFree | Some s \<Rightarrow> Inr s)"
  by (simp add: sock_at_def)

lemma lock_exists_relog [simp]: "lock_exists (Sock_sync a) (relog h es w) \<longleftrightarrow> h a \<noteq> None"
  by (simp add: lock_exists_def)

lemma item_isinqueue_relog [simp]: "item_isinqueue it (relog h es w) = item_isinqueue it w"
  by (simp add: item_isinqueue_def)

subsection \<open>One socket without binds and connections\<close>

text \<open>A socket nothing is waiting for: its mutex is free and none of its tasks is queued.\<close>

definition idle :: "'x world \<Rightarrow> nat \<Rightarrow> bool" where
  "idle w a \<longleftrightarrow> Sock_sync a \<notin> w_held w \<and> (\<forall>it \<in> set (sock_tasks a). \<not> item_isinqueue it w)"

lemma idle_relog [simp]: "idle (relog h es w) a = idle w a"
  by (simp add: idle_def)

lemma tasks_term_ok: "\<forall>it \<in> set its. \<not> item_isinqueue it w \<Longrightarrow> tasks_term its w = Inr ()"
  by (induction its) (auto simp: fsock_task_term_def)

definition term_log :: "nat \<Rightarrow> 'x sock \<Rightarrow> effect list" where
  "term_log a s = (if s_fd s = -1 then [] else [Close_fd (s_fd s)]) @
     (if s_efd s < 0 then [] else [Close_fd (s_efd s)]) @ [Parser_term a, Out_list_term a]"

lemma sock_term_head:
  assumes "w_heap w a = Some s" "small_table (s_binds s) B"
  obtains d where "fsock_sock_term (Suc n) a w =
    rbind (bind_parr_loop n a (first_live B d) (relog ((w_heap w)(a \<mapsto> s\<lparr>s_efd := -1\<rparr>)) (term_log a s) w)) (\<lambda>w4.
    rbind (sock_at w4 a) (\<lambda>s4.
    rbind (fsock_parr_begin (s_conns s4)) (\<lambda>it2.
    rbind (conn_parr_loop n a a it2 w4) (sock_term_rest a))))"
proof -
  obtain d where "fsock_parr_begin (s_binds s) = Inr (first_live B d)" using small.rep_begin [OF assms(2)] by blast
  then show ?thesis
    using assms(1) by (intro that [of d]) (simp add: sock_efd_term_def relog_normal term_log_def sock_at_def)
qed

declare fsock_sock_term.simps [simp del] conn_parr_loop.simps [simp del] bind_parr_loop.simps [simp del]

lemma loops_end [simp]:
  "conn_parr_loop (Suc n) self h (None, i) w = Inr w" "bind_parr_loop (Suc n) self (None, i) w = Inr w"
  by (simp_all add: conn_parr_loop.simps bind_parr_loop.simps)

lemma sock_term_rest_ok:
  assumes "w_heap w a = Some s" "small_table (s_binds s) []" "small_table (s_conns s) []" "idle w a"
  shows "sock_term_rest a w = Inr (relog ((w_heap w)(a \<mapsto> s\<lparr>s_events := fsock_queue_term\<rparr>)) [] w)"
  using assms by (simp add: sock_term_rest_def sock_at_def small_term relog_normal fsock_mutex_term_def idle_def tasks_term_ok)

lemma sock_term_leaf:
  assumes s: "w_heap w a = Some s" "small_table (s_binds s) []" "small_table (s_conns s) []" "idle w a"
  shows "fsock_sock_term (Suc (Suc n)) a w =
    Inr (relog ((w_heap w)(a \<mapsto> s\<lparr>s_efd := -1, s_events := fsock_queue_term\<rparr>)) (term_log a s) w)"
proof -
  obtain d where "fsock_parr_begin (s_conns s) = Inr (first_live [] d)" using small.rep_begin [OF s(3)] by blast
  then show ?thesis
    using assms by (rule_tac sock_term_head [OF s(1,2), of "Suc n"]) (simp add: sock_term_rest_ok)
qed

subsection \<open>A row of connections\<close>

definition leaf :: "'x world \<Rightarrow> nat \<Rightarrow> bool" where
  "leaf w c \<longleftrightarrow> idle w c \<and>
     (\<exists>s. w_heap w c = Some s \<and> small_table (s_binds s) [] \<and> small_table (s_conns s) [])"

lemma leaf_relog: "leaf w c \<Longrightarrow> h c = w_heap w c \<Longrightarrow> leaf (relog h es w) c"
  by (simp add: leaf_def)

lemma leaf_later: "leaf w c \<Longrightarrow> w1 = relog h es w \<Longrightarrow> w_heap w1 c = w_heap w c \<Longrightarrow> leaf w1 c"
  by (simp add: leaf_relog)

text \<open>What closing and freeing a socket leaves in the log.\<close>

definition gone_log :: "(nat \<Rightarrow> 'x sock option) \<Rightarrow> nat \<Rightarrow> effect list" where
  "gone_log h c = term_log c (the (h c)) @ [Free c]"

lemma gone_log_cong: "h c = h' c \<Longrightarrow> gone_log h c = gone_log h' c"
  by (simp add: gone_log_def)

text \<open>One round of the loop over connections: the first is taken down and its slot is cleared.\<close>

definition retire :: "nat \<Rightarrow> nat \<Rightarrow> nat \<Rightarrow> nat \<Rightarrow> (nat option \<times> int \<Rightarrow> 'x world \<Rightarrow> fault + 'x world) \<Rightarrow> 'x world \<Rightarrow> fault + 'x world" where
  "retire n h i c K w =
     rbind (fsock_sock_term n c w) (\<lambda>w2.
     rbind (conns_clear h (int i) (sock_free c w2)) (\<lambda>w3.
     rbind (sock_at w3 h) (\<lambda>hs3.
     rbind (fsock_parr_next (s_conns hs3) (int i)) (\<lambda>it1. K it1 w3))))"

lemma conn_loop_step:
  assumes "w_heap w h = Some hs" "parr_read (s_conns hs) (int i) = Inr (Elem c)" "w_heap w c = Some cs"
  shows "conn_parr_loop (Suc n) self h (Some c, int i) w =
    rbind (if s_type cs = FSOCK_SOCK_IN then conns_clear self (s_idx cs) w else Inr w)
      (retire n h i c (conn_parr_loop n self h))"
proof -
  have "sock_at w h = Inr hs" "sock_at w c = Inr cs" using assms by (simp_all add: sock_at_def)
  then show ?thesis
    using assms(2) by (simp add: conn_parr_loop.simps parr_ptr_def retire_def [abs_def])
qed

lemma retire_step:
  assumes c: "leaf w c" "c \<noteq> h"
    and h: "w_heap w h = Some hs" "o_realloc (w_env w) = (\<lambda>_. True)"
    and q: "fsock_parr_clear (\<lambda>_. True) (s_conns hs) (int i) = Inr (rc, q)" "fsock_parr_next q (int i) = Inr it"
  shows "retire (Suc (Suc n)) h i c K w =
     K it (relog ((w_heap w)(c := None, h \<mapsto> hs\<lparr>s_conns := q\<rparr>)) (gone_log (w_heap w) c) w)"
proof -
  obtain cs where cs: "w_heap w c = Some cs" "small_table (s_binds cs) []" "small_table (s_conns cs) []" "idle w c"
    using c(1) by (auto simp: leaf_def)
  show ?thesis
    using c(2) h q by (simp add: retire_def sock_term_leaf [OF cs] conns_clear_def relog_normal cs(1) gone_log_def sock_at_def)
qed

lemma retire_ok:
  assumes c: "leaf w c" "c \<noteq> h"
    and h: "w_heap w h = Some hs" "small_table (s_conns hs) ((i, c) # L)"
    and env: "o_realloc (w_env w) = (\<lambda>_. True)"
  obtains p d where "small_table p L"
    "retire (Suc (Suc n)) h i c K w =
     K (first_live L d) (relog ((w_heap w)(c := None, h \<mapsto> hs\<lparr>s_conns := p\<rparr>)) (gone_log (w_heap w) c) w)"
proof -
  obtain q d where q: "fsock_parr_clear (\<lambda>_. True) (s_conns hs) (int i) = Inr (0, q)" "small_table q L"
      "fsock_parr_next q (int i) = Inr (first_live L d)"
    by (rule small.clear_first [OF h(2)])
  show ?thesis by (rule that [OF q(2) retire_step [OF c h(1) env q(1,3)]])
qed

lemma relog_same: "w_heap w = h \<Longrightarrow> relog h [] w = w"
  by (auto simp: relog_def)

text \<open>The heap after the sockets \<open>cs\<close> were freed.\<close>

definition freed :: "nat list \<Rightarrow> (nat \<Rightarrow> 'x sock option) \<Rightarrow> nat \<Rightarrow> 'x sock option" where
  "freed cs h = (\<lambda>x. if x \<in> set cs then None else h x)"

lemma freed_simps [simp]:
  "freed [] h = h" "x \<in> set cs \<Longrightarrow> freed cs h x = None" "x \<notin> set cs \<Longrightarrow> freed cs h x = h x"
  by (auto simp: freed_def)

lemma freed_step:
  "c \<notin> set cs \<Longrightarrow> h \<noteq> c \<Longrightarrow> h \<notin> set cs \<Longrightarrow>
    (freed cs (H(c := None, h := v)))(h := v') = (freed (c # cs) H)(h := v')"
  by (auto simp: freed_def)

lemma gone_logs_freed:
  "\<forall>c \<in> set cs. h c = h' c \<Longrightarrow> concat (map (gone_log h) cs) = concat (map (gone_log h') cs)"
  by (induction cs) (auto dest: gone_log_cong)

text \<open>The connections a base socket made: its own loop over its own array.\<close>

lemma out_loop:
  assumes "w_heap w a = Some s" "small_table (s_conns s) L" "distinct (map snd L)" "length L + 2 \<le> n"
    and "\<forall>c \<in> snd ` set L. c \<noteq> a \<and> leaf w c \<and> s_type (the (w_heap w c)) \<noteq> FSOCK_SOCK_IN"
    and "o_realloc (w_env w) = (\<lambda>_. True)"
  shows "\<exists>p. small_table p [] \<and> conn_parr_loop n a a (first_live L d) w =
    Inr (relog ((freed (map snd L) (w_heap w))(a \<mapsto> s\<lparr>s_conns := p\<rparr>)) (concat (map (gone_log (w_heap w)) (map snd L))) w)"
  using assms
proof (induction L arbitrary: w s n d)
  case Nil
  then have "relog ((w_heap w)(a \<mapsto> s\<lparr>s_conns := s_conns s\<rparr>)) [] w = w"
    by (intro relog_same) (simp add: fun_upd_idem)
  then show ?case using Nil by (cases n) (auto simp del: fun_upd_apply intro!: exI [of _ "s_conns s"])
next
  case (Cons ic L)
  obtain i c where ic: "ic = (i, c)" by (cases ic)
  obtain m where m: "n = Suc (Suc (Suc m))" using Cons.prems(4) by (cases n; cases "n - 1"; cases "n - 2") auto
  obtain cs where cs: "w_heap w c = Some cs" "s_type cs \<noteq> FSOCK_SOCK_IN" "leaf w c" "c \<noteq> a"
    using Cons.prems(5) by (force simp: ic leaf_def)
  note tab = Cons.prems(2) [unfolded ic]
  have slot: "parr_read (s_conns s) (int i) = Inr (Elem c)" using small_ptr(1) [OF tab] by simp
  obtain p d1 where p: "small_table p L" "retire (Suc (Suc m)) a i c (conn_parr_loop (Suc (Suc m)) a a) w =
     conn_parr_loop (Suc (Suc m)) a a (first_live L d1) (relog ((w_heap w)(c := None, a \<mapsto> s\<lparr>s_conns := p\<rparr>)) (gone_log (w_heap w) c) w)"
    by (rule retire_ok [OF cs(3,4) Cons.prems(1) tab Cons.prems(6)])
  define w1 where "w1 = relog ((w_heap w)(c := None, a \<mapsto> s\<lparr>s_conns := p\<rparr>)) (gone_log (w_heap w) c) w"
  have other: "w_heap w1 x = w_heap w x" if "x \<in> snd ` set L" for x
    using that Cons.prems(3,5) by (auto simp: w1_def ic image_iff)
  have run: "conn_parr_loop n a a (first_live (ic # L) d) w = conn_parr_loop (Suc (Suc m)) a a (first_live L d1) w1"
    using conn_loop_step [OF Cons.prems(1) slot cs(1)] cs(2) p(2) by (simp add: ic m w1_def)
  have later: "\<forall>x \<in> snd ` set L. x \<noteq> a \<and> leaf w1 x \<and> s_type (the (w_heap w1 x)) \<noteq> FSOCK_SOCK_IN"
    using Cons.prems(5) leaf_later [OF _ w1_def other] other by (simp add: ic)
  have "w_heap w1 a = Some (s\<lparr>s_conns := p\<rparr>)" "small_table (s_conns (s\<lparr>s_conns := p\<rparr>)) L" "distinct (map snd L)"
      "length L + 2 \<le> Suc (Suc m)" "o_realloc (w_env w1) = (\<lambda>_. True)"
    using cs p(1) Cons.prems(3,4,6) by (simp_all add: w1_def m ic)
  from Cons.IH [OF this(1-4) later this(5), of d1]
  obtain q where q: "small_table q []" "conn_parr_loop (Suc (Suc m)) a a (first_live L d1) w1 =
      Inr (relog ((freed (map snd L) (w_heap w1))(a \<mapsto> s\<lparr>s_conns := p\<rparr>\<lparr>s_conns := q\<rparr>)) (concat (map (gone_log (w_heap w1)) (map snd L))) w1)"
    by blast
  have "concat (map (gone_log (w_heap w1)) (map snd L)) = concat (map (gone_log (w_heap w)) (map snd L))"
    using other by (intro gone_logs_freed) auto
  moreover have "(freed (map snd L) (w_heap w1))(a \<mapsto> s\<lparr>s_conns := q\<rparr>) = (freed (c # map snd L) (w_heap w))(a \<mapsto> s\<lparr>s_conns := q\<rparr>)"
    using Cons.prems(3,5) by (auto simp: w1_def freed_def fun_eq_iff)
  ultimately show ?case using q(1) run q(2) by (intro exI [of _ q]) (simp add: ic w1_def del: fun_upd_apply)
qed

text \<open>
  The connections a bind accepted: each is also in the array of the base socket, at its \<open>idx\<close>,
  and is cleared there first.
\<close>

definition accepted_in :: "'x world \<Rightarrow> (nat \<times> nat) list \<Rightarrow> nat \<Rightarrow> bool" where
  "accepted_in w M c \<longleftrightarrow> leaf w c \<and> s_type (the (w_heap w c)) = FSOCK_SOCK_IN \<and>
     (\<exists>j. s_idx (the (w_heap w c)) = int j \<and> (j, c) \<in> set M)"

definition but :: "nat list \<Rightarrow> (nat \<times> nat) list \<Rightarrow> (nat \<times> nat) list" where
  "but cs M = filter (\<lambda>x. snd x \<notin> set cs) M"

lemma but_but [simp]: "but cs (but ds M) = but (ds @ cs) M"
  by (auto simp: but_def intro!: filter_cong)

lemma but_Nil [simp]: "but [] M = M"
  by (simp add: but_def)

lemma without_slot:
  assumes "small_table p M" "distinct (map snd M)" "(j, c) \<in> set M"
  shows "without j M = but [c] M"
proof -
  have "slots_sorted M" by (rule small.rep_sorted [OF assms(1)])
  then have "distinct (map fst M)" by (simp add: slots_sorted_def)
  then show ?thesis unfolding without_def but_def
    using assms(2,3) eq_key_imp_eq_value [of M j] inj_onD [of snd "set M"]
    by (intro filter_cong refl) (force simp: distinct_map)
qed

lemma base_clear:
  assumes "w_heap w a = Some s" "small_table (s_conns s) M" "distinct (map snd M)" "accepted_in w M c"
    and "o_realloc (w_env w) = (\<lambda>_. True)" "w_heap w c = Some cs"
  obtains q where "small_table q (but [c] M)"
    "conns_clear a (s_idx cs) w = Inr (relog ((w_heap w)(a \<mapsto> s\<lparr>s_conns := q\<rparr>)) [] w)"
proof -
  obtain j where j: "s_idx cs = int j" "(j, c) \<in> set M" using assms(4,6) by (auto simp: accepted_in_def)
  obtain q where "fsock_parr_clear (\<lambda>_. True) (s_conns s) (int j) = Inr (0, q)" "small_table q (without j M)"
    using small.rep_clear [OF assms(2) j(2)] by blast
  then show ?thesis
    using assms(1,5) j(1) by (intro that [of q]) (simp_all add: conns_clear_def sock_at_def relog_normal without_slot [OF assms(2,3) j(2)])
qed

lemma accepted_later:
  assumes "accepted_in w M c'" "c' \<noteq> c" "w_heap w1 c' = w_heap w c'" "w1 = relog h es w"
  shows "accepted_in w1 (but [c] M) c'"
  using assms leaf_relog [of w c' h es] by (auto simp: accepted_in_def but_def)

lemma in_loop:
  assumes "w_heap w a = Some s" "w_heap w b = Some bs" "a \<noteq> b"
    and "small_table (s_conns bs) L" "distinct (map snd L)" "length L + 2 \<le> n"
    and "small_table (s_conns s) M" "distinct (map snd M)"
    and "\<forall>c \<in> snd ` set L. c \<noteq> a \<and> c \<noteq> b \<and> accepted_in w M c"
    and "o_realloc (w_env w) = (\<lambda>_. True)"
  shows "\<exists>p q. small_table p [] \<and> small_table q (but (map snd L) M) \<and>
    conn_parr_loop n a b (first_live L d) w =
    Inr (relog ((freed (map snd L) (w_heap w))(a \<mapsto> s\<lparr>s_conns := q\<rparr>, b \<mapsto> bs\<lparr>s_conns := p\<rparr>))
      (concat (map (gone_log (w_heap w)) (map snd L))) w)"
  using assms
proof (induction L arbitrary: w s bs M n d)
  case Nil
  then have "relog ((w_heap w)(a \<mapsto> s\<lparr>s_conns := s_conns s\<rparr>, b \<mapsto> bs\<lparr>s_conns := s_conns bs\<rparr>)) [] w = w"
    by (intro relog_same) (simp add: fun_upd_idem)
  then show ?case using Nil
    by (cases n; rule_tac x = "s_conns bs" in exI; rule_tac x = "s_conns s" in exI) (simp_all del: fun_upd_apply)
next
  case (Cons ic L)
  obtain i c where ic: "ic = (i, c)" by (cases ic)
  obtain m where m: "n = Suc (Suc (Suc m))" using Cons.prems(6) by (cases n; cases "n - 1"; cases "n - 2") auto
  have acc: "accepted_in w M c" "c \<noteq> a" "c \<noteq> b" using Cons.prems(9) by (auto simp: ic)
  then obtain cs where cs: "w_heap w c = Some cs" "s_type cs = FSOCK_SOCK_IN" "leaf w c"
    by (auto simp: accepted_in_def leaf_def)
  note tab = Cons.prems(4) [unfolded ic]
  have slot: "parr_read (s_conns bs) (int i) = Inr (Elem c)" using small_ptr(1) [OF tab] by simp
  obtain q where q: "small_table q (but [c] M)"
      "conns_clear a (s_idx cs) w = Inr (relog ((w_heap w)(a \<mapsto> s\<lparr>s_conns := q\<rparr>)) [] w)"
    by (rule base_clear [OF Cons.prems(1,7,8) acc(1) Cons.prems(10) cs(1)])
  let ?wa = "relog ((w_heap w)(a \<mapsto> s\<lparr>s_conns := q\<rparr>)) [] w"
  have la: "leaf ?wa c" using cs(3) acc(2) by (intro leaf_relog) auto
  have ba: "w_heap ?wa b = Some bs" "o_realloc (w_env ?wa) = (\<lambda>_. True)" using Cons.prems(2,3,10) by auto
  obtain p d1 where p: "small_table p L" "retire (Suc (Suc m)) b i c (conn_parr_loop (Suc (Suc m)) a b) ?wa =
     conn_parr_loop (Suc (Suc m)) a b (first_live L d1) (relog ((w_heap ?wa)(c := None, b \<mapsto> bs\<lparr>s_conns := p\<rparr>)) (gone_log (w_heap ?wa) c) ?wa)"
    by (rule retire_ok [OF la acc(3) ba(1) tab ba(2)])
  define w1 where "w1 = relog ((w_heap w)(a \<mapsto> s\<lparr>s_conns := q\<rparr>, c := None, b \<mapsto> bs\<lparr>s_conns := p\<rparr>)) (gone_log (w_heap w) c) w"
  have gl: "gone_log (w_heap ?wa) c = gone_log (w_heap w) c" using acc(2) by (intro gone_log_cong) simp
  have run: "conn_parr_loop n a b (first_live (ic # L) d) w = conn_parr_loop (Suc (Suc m)) a b (first_live L d1) w1"
    using conn_loop_step [OF Cons.prems(2) slot cs(1)] cs(2) p(2) q(2) gl by (simp add: ic m w1_def)
  have other: "w_heap w1 x = w_heap w x" if "x \<in> snd ` set L" for x
    using that Cons.prems(5,9) by (auto simp: w1_def ic image_iff)
  have ab: "w_heap w1 a = Some (s\<lparr>s_conns := q\<rparr>)" "w_heap w1 b = Some (bs\<lparr>s_conns := p\<rparr>)"
    using acc Cons.prems(3) by (auto simp: w1_def)
  have later: "\<forall>x \<in> snd ` set L. x \<noteq> a \<and> x \<noteq> b \<and> accepted_in w1 (but [c] M) x"
  proof
    fix x assume x: "x \<in> snd ` set L"
    then have "x \<noteq> a" "x \<noteq> b" "x \<noteq> c" "accepted_in w M x" using Cons.prems(5,9) by (auto simp: ic)
    with accepted_later [OF _ _ other [OF x] w1_def] show "x \<noteq> a \<and> x \<noteq> b \<and> accepted_in w1 (but [c] M) x" by blast
  qed
  have M: "distinct (map snd (but [c] M))" using Cons.prems(8) by (simp add: but_def distinct_map_filter)
  have "small_table (s_conns (bs\<lparr>s_conns := p\<rparr>)) L" "distinct (map snd L)" "length L + 2 \<le> Suc (Suc m)"
      "small_table (s_conns (s\<lparr>s_conns := q\<rparr>)) (but [c] M)" "o_realloc (w_env w1) = (\<lambda>_. True)"
    using p(1) q(1) Cons.prems(5,6,10) by (simp_all add: w1_def m ic)
  from Cons.IH [OF ab Cons.prems(3) this(1-4) M later this(5), of d1]
  obtain p2 q2 where IH: "small_table p2 []" "small_table q2 (but (map snd L) (but [c] M))"
      "conn_parr_loop (Suc (Suc m)) a b (first_live L d1) w1 =
        Inr (relog ((freed (map snd L) (w_heap w1))(a \<mapsto> s\<lparr>s_conns := q\<rparr>\<lparr>s_conns := q2\<rparr>, b \<mapsto> bs\<lparr>s_conns := p\<rparr>\<lparr>s_conns := p2\<rparr>))
        (concat (map (gone_log (w_heap w1)) (map snd L))) w1)"
    by blast
  have "concat (map (gone_log (w_heap w1)) (map snd L)) = concat (map (gone_log (w_heap w)) (map snd L))"
    using other by (intro gone_logs_freed) auto
  moreover have "(freed (map snd L) (w_heap w1))(a \<mapsto> s\<lparr>s_conns := q2\<rparr>, b \<mapsto> bs\<lparr>s_conns := p2\<rparr>) =
      (freed (c # map snd L) (w_heap w))(a \<mapsto> s\<lparr>s_conns := q2\<rparr>, b \<mapsto> bs\<lparr>s_conns := p2\<rparr>)"
    by (auto simp: w1_def freed_def fun_eq_iff)
  ultimately show ?case using IH run by (intro exI [of _ p2] exI [of _ q2]) (simp add: ic w1_def del: fun_upd_apply)
qed

subsection \<open>A row of binds\<close>

text \<open>
  The binds of a socket: for each the slot, the address, and the slots and addresses of the connections
  it accepted. \<open>members\<close> lists the sockets in the order they go.
\<close>

type_synonym bind_row = "(nat \<times> nat \<times> (nat \<times> nat) list) list"

definition bind_slots :: "bind_row \<Rightarrow> (nat \<times> nat) list" where
  "bind_slots T = map (\<lambda>(i, b, L). (i, b)) T"

definition members :: "bind_row \<Rightarrow> nat list" where
  "members T = concat (map (\<lambda>(i, b, L). map snd L @ [b]) T)"

lemma bind_row_simps [simp]:
  "bind_slots [] = []" "bind_slots ((i, b, L) # T) = (i, b) # bind_slots T"
  "members [] = []" "members ((i, b, L) # T) = map snd L @ b # members T"
  by (simp_all add: bind_slots_def members_def)

lemma members_row: "(i, b, L) \<in> set T \<Longrightarrow> b \<in> set (members T) \<and> snd ` set L \<subseteq> set (members T)"
  by (force simp: members_def)

definition bind_ok :: "'x world \<Rightarrow> (nat \<times> nat) list \<Rightarrow> nat \<Rightarrow> (nat \<times> nat) list \<Rightarrow> bool" where
  "bind_ok w M b L \<longleftrightarrow> idle w b \<and> b \<notin> snd ` set M \<and>
     (\<exists>bs. w_heap w b = Some bs \<and> small_table (s_binds bs) [] \<and> small_table (s_conns bs) L) \<and>
     (\<forall>c \<in> snd ` set L. accepted_in w M c)"

lemma bind_loop_step:
  assumes a: "w_heap w a = Some s" "small_table (s_binds s) ((i, b) # BL)" "small_table (s_conns s) M" "distinct (map snd M)"
    and b: "bind_ok w M b L" "distinct (a # b # map snd L)" "length L + 2 \<le> m"
    and env: "o_realloc (w_env w) = (\<lambda>_. True)"
  shows "\<exists>p q d1. small_table p BL \<and> small_table q (but (map snd L @ [b]) M) \<and>
    bind_parr_loop (Suc m) a (first_live ((i, b) # BL) d) w = bind_parr_loop m a (first_live BL d1)
     (relog ((freed (map snd L @ [b]) (w_heap w))(a \<mapsto> s\<lparr>s_conns := q, s_binds := p\<rparr>))
       (concat (map (gone_log (w_heap w)) (map snd L @ [b]))) w)"
proof -
  obtain bs where bs: "w_heap w b = Some bs" "small_table (s_binds bs) []" "small_table (s_conns bs) L" "idle w b"
    using b(1) by (auto simp: bind_ok_def)
  obtain d2 where d2: "fsock_parr_begin (s_conns bs) = Inr (first_live L d2)" using small.rep_begin [OF bs(3)] by blast
  have acc: "\<forall>c \<in> snd ` set L. c \<noteq> a \<and> c \<noteq> b \<and> accepted_in w M c" using b(1,2) by (auto simp: bind_ok_def)
  have ab: "a \<noteq> b" "distinct (map snd L)" "a \<notin> snd ` set L" "b \<notin> snd ` set L" using b(2) by auto
  obtain p q where run: "small_table p []" "small_table q (but (map snd L) M)" "conn_parr_loop m a b (first_live L d2) w =
      Inr (relog ((freed (map snd L) (w_heap w))(a \<mapsto> s\<lparr>s_conns := q\<rparr>, b \<mapsto> bs\<lparr>s_conns := p\<rparr>))
        (concat (map (gone_log (w_heap w)) (map snd L))) w)"
    using in_loop [OF a(1) bs(1) ab(1) bs(3) ab(2) b(3) a(3,4) acc env, of d2] by blast
  define w1 where "w1 = relog ((freed (map snd L) (w_heap w))(a \<mapsto> s\<lparr>s_conns := q\<rparr>, b \<mapsto> bs\<lparr>s_conns := p\<rparr>))
        (concat (map (gone_log (w_heap w)) (map snd L))) w"
  obtain k where k: "m = Suc (Suc k)" using b(3) by (cases m; cases "m - 1") auto
  have "w_heap w1 b = Some (bs\<lparr>s_conns := p\<rparr>)" "idle w1 b" using bs(4) by (simp_all add: w1_def)
  then have leaf: "fsock_sock_term m b w1 = Inr (relog ((w_heap w1)(b \<mapsto> bs\<lparr>s_conns := p\<rparr>\<lparr>s_efd := -1, s_events := fsock_queue_term\<rparr>))
      (term_log b (bs\<lparr>s_conns := p\<rparr>)) w1)"
    unfolding k using run(1) bs(2) by (intro sock_term_leaf) simp_all
  obtain r d1 where r: "fsock_parr_clear (\<lambda>_. True) (s_binds s) (int i) = Inr (0, r)" "small_table r BL"
      "fsock_parr_next r (int i) = Inr (first_live BL d1)"
    by (rule small.clear_first [OF a(2)])
  define w2 where "w2 = relog ((freed (map snd L @ [b]) (w_heap w))(a \<mapsto> s\<lparr>s_conns := q, s_binds := r\<rparr>))
       (concat (map (gone_log (w_heap w)) (map snd L @ [b]))) w"
  have at: "sock_at w a = Inr s" "sock_at w b = Inr bs" using a(1) bs(1) by (simp_all add: sock_at_def)
  have last: "(freed (map snd L) (w_heap w))(b := None, a \<mapsto> v) = (freed (map snd L @ [b]) (w_heap w))(a \<mapsto> v)"
      "gone_log (w_heap w) b = term_log b (bs\<lparr>s_conns := p\<rparr>) @ [Free b]" for v
    by (auto simp: freed_def gone_log_def term_log_def bs(1))
  have "bind_parr_loop (Suc m) a (first_live ((i, b) # BL) d) w = bind_parr_loop m a (first_live BL d1) w2"
    using at small_ptr [OF a(2), of i b] d2 run(3) [folded w1_def] leaf r(1,3) ab(1,2) env last
    by (simp add: bind_parr_loop.simps parr_ptr_def binds_clear_def relog_normal w1_def w2_def fun_upd_same fun_upd_other del: fun_upd_apply)
  moreover have "but (map snd L) M = but (map snd L @ [b]) M"
    using b(1) by (auto simp: but_def bind_ok_def intro!: filter_cong)
  ultimately show ?thesis using r(2) run(2) unfolding w2_def by metis
qed

lemma bind_ok_later:
  assumes "bind_ok w M b L" "w1 = relog h es w" "w_heap w1 b = w_heap w b"
    and "\<forall>c \<in> snd ` set L. w_heap w1 c = w_heap w c \<and> c \<notin> set cs"
  shows "bind_ok w1 (but cs M) b L"
proof -
  have "accepted_in w1 (but cs M) c" if c: "c \<in> snd ` set L" for c
  proof -
    have "accepted_in w M c" "w_heap w1 c = w_heap w c" "c \<notin> set cs" using assms(1,4) c by (auto simp: bind_ok_def)
    then show ?thesis using leaf_later [OF _ assms(2)] by (auto simp: accepted_in_def but_def)
  qed
  then show ?thesis using assms(1-3) by (auto simp: bind_ok_def but_def)
qed

lemma bind_loop:
  assumes "w_heap w a = Some s" "small_table (s_binds s) (bind_slots T)" "small_table (s_conns s) M" "distinct (map snd M)"
    and "\<forall>(i, b, L) \<in> set T. bind_ok w M b L \<and> length T + length L + 2 \<le> n" "distinct (a # members T)" "0 < n"
    and "o_realloc (w_env w) = (\<lambda>_. True)"
  shows "\<exists>p q. small_table p [] \<and> small_table q (but (members T) M) \<and>
    bind_parr_loop n a (first_live (bind_slots T) d) w =
    Inr (relog ((freed (members T) (w_heap w))(a \<mapsto> s\<lparr>s_conns := q, s_binds := p\<rparr>))
      (concat (map (gone_log (w_heap w)) (members T))) w)"
  using assms
proof (induction T arbitrary: w s M n d)
  case Nil
  then have "relog ((w_heap w)(a \<mapsto> s\<lparr>s_conns := s_conns s, s_binds := s_binds s\<rparr>)) [] w = w"
    by (intro relog_same) (simp add: fun_upd_idem)
  then show ?case using Nil
    by (cases n; rule_tac x = "s_binds s" in exI; rule_tac x = "s_conns s" in exI) (simp_all del: fun_upd_apply)
next
  case (Cons ibL T)
  obtain i b L where ibL: "ibL = (i, b, L)" by (cases ibL)
  obtain m where m: "n = Suc m" using Cons.prems(7) by (cases n) auto
  have b: "bind_ok w M b L" "distinct (a # b # map snd L)" "length L + 2 \<le> m"
    using Cons.prems(5,6) by (auto simp: ibL m)
  note tab = Cons.prems(2) [unfolded ibL bind_row_simps]
  obtain p q d1 where pq: "small_table p (bind_slots T)" "small_table q (but (map snd L @ [b]) M)"
    "bind_parr_loop (Suc m) a (first_live ((i, b) # bind_slots T) d) w = bind_parr_loop m a (first_live (bind_slots T) d1)
     (relog ((freed (map snd L @ [b]) (w_heap w))(a \<mapsto> s\<lparr>s_conns := q, s_binds := p\<rparr>))
       (concat (map (gone_log (w_heap w)) (map snd L @ [b]))) w)"
    using bind_loop_step [OF Cons.prems(1) tab Cons.prems(3,4) b Cons.prems(8)] by blast
  let ?cs = "map snd L @ [b]"
  define w1 where "w1 = relog ((freed ?cs (w_heap w))(a \<mapsto> s\<lparr>s_conns := q, s_binds := p\<rparr>)) (concat (map (gone_log (w_heap w)) ?cs)) w"
  have other: "w_heap w1 x = w_heap w x" "x \<notin> set ?cs" if "x \<in> set (members T)" for x
  proof -
    show "x \<notin> set ?cs" using that Cons.prems(6) by (auto simp: ibL)
    moreover have "x \<noteq> a" using that Cons.prems(6) by (auto simp: ibL)
    ultimately show "w_heap w1 x = w_heap w x" by (simp add: w1_def)
  qed
  have later: "\<forall>(i, b, L) \<in> set T. bind_ok w1 (but ?cs M) b L \<and> length T + length L + 2 \<le> m"
  proof (safe)
    fix i' b' L' assume T: "(i', b', L') \<in> set T"
    then have mem: "b' \<in> set (members T)" "snd ` set L' \<subseteq> set (members T)" by (auto dest: members_row)
    have old: "bind_ok w M b' L'" "length T + length L' + 2 \<le> m" using Cons.prems(5) T m by auto
    show "bind_ok w1 (but ?cs M) b' L'" using old(1) mem other by (intro bind_ok_later [OF _ w1_def]) auto
    show "length T + length L' + 2 \<le> m" by (rule old(2))
  qed
  have "w_heap w1 a = Some (s\<lparr>s_conns := q, s_binds := p\<rparr>)" "small_table (s_binds (s\<lparr>s_conns := q, s_binds := p\<rparr>)) (bind_slots T)"
      "small_table (s_conns (s\<lparr>s_conns := q, s_binds := p\<rparr>)) (but ?cs M)" "distinct (map snd (but ?cs M))"
    using pq(1,2) Cons.prems(4) by (simp_all add: w1_def but_def distinct_map_filter)
  moreover have "distinct (a # members T)" "0 < m" "o_realloc (w_env w1) = (\<lambda>_. True)"
    using Cons.prems(6,8) b(3) by (auto simp: ibL w1_def)
  ultimately obtain p2 q2 where IH: "small_table p2 []" "small_table q2 (but (members T) (but ?cs M))"
      "bind_parr_loop m a (first_live (bind_slots T) d1) w1 =
      Inr (relog ((freed (members T) (w_heap w1))(a \<mapsto> s\<lparr>s_conns := q, s_binds := p\<rparr>\<lparr>s_conns := q2, s_binds := p2\<rparr>))
      (concat (map (gone_log (w_heap w1)) (members T))) w1)"
    using Cons.IH [of w1 _ "but ?cs M" m d1, OF _ _ _ _ later] by blast
  have "concat (map (gone_log (w_heap w1)) (members T)) = concat (map (gone_log (w_heap w)) (members T))"
    using other by (intro gone_logs_freed) auto
  moreover have "(freed (members T) (w_heap w1))(a \<mapsto> s\<lparr>s_conns := q2, s_binds := p2\<rparr>) =
      (freed (members (ibL # T)) (w_heap w))(a \<mapsto> s\<lparr>s_conns := q2, s_binds := p2\<rparr>)"
    by (auto simp: w1_def freed_def fun_eq_iff ibL)
  ultimately show ?case using IH pq(3) by (intro exI [of _ p2] exI [of _ q2]) (simp add: ibL m w1_def del: fun_upd_apply)
qed

subsection \<open>A whole socket\<close>

text \<open>
  \<open>socket_tree w a T M\<close>: the base socket at \<open>a\<close> owns the binds \<open>T\<close>, and its array of connections is
  the table \<open>M\<close>: the connections its binds accepted and those it made itself.
\<close>

definition whole :: "bind_row \<Rightarrow> (nat \<times> nat) list \<Rightarrow> nat list" where
  "whole T M = members T @ map snd (but (members T) M)"

definition socket_tree :: "'x world \<Rightarrow> nat \<Rightarrow> bind_row \<Rightarrow> (nat \<times> nat) list \<Rightarrow> bool" where
  "socket_tree w a T M \<longleftrightarrow> idle w a \<and>
     (\<exists>s. w_heap w a = Some s \<and> small_table (s_binds s) (bind_slots T) \<and> small_table (s_conns s) M) \<and>
     distinct (map snd M) \<and> distinct (a # whole T M) \<and>
     (\<forall>(i, b, L) \<in> set T. bind_ok w M b L) \<and>
     (\<forall>c \<in> snd ` set (but (members T) M). leaf w c \<and> s_type (the (w_heap w c)) \<noteq> FSOCK_SOCK_IN)"

lemma accepted_count:
  assumes "bind_ok w M b L" "distinct (map snd L)"
  shows "length L \<le> length M"
proof -
  have "snd ` set L \<subseteq> snd ` set M" using assms(1) by (force simp: bind_ok_def accepted_in_def)
  then have "card (set (map snd L)) \<le> card (set (map snd M))" by (intro card_mono) auto
  also have "\<dots> \<le> length M" using card_length [of "map snd M"] by simp
  finally show ?thesis using distinct_card [OF assms(2)] by simp
qed

lemma distinct_row: "distinct (members T) \<Longrightarrow> (i, b, L) \<in> set T \<Longrightarrow> distinct (map snd L)"
  by (induction T) auto

lemma tree_apart:
  assumes "socket_tree w a T M"
  shows "x \<in> set (members T) \<or> x \<in> snd ` set (but (members T) M) \<Longrightarrow> x \<noteq> a"
    and "x \<in> snd ` set (but (members T) M) \<Longrightarrow> x \<notin> set (members T)"
    and "distinct (map snd M)" "distinct (a # members T)" "distinct (map snd (but (members T) M))"
  using assms by (auto simp: socket_tree_def whole_def)

lemma tree_rows:
  assumes tree: "socket_tree w a T M" and w1: "w1 = relog h es w" "\<And>x. x \<noteq> a \<Longrightarrow> w_heap w1 x = w_heap w x"
    and m: "length T + length M + 2 \<le> m"
  shows "\<forall>(i, b, L) \<in> set T. bind_ok w1 M b L \<and> length T + length L + 2 \<le> m"
proof (safe)
  fix i b L assume T: "(i, b, L) \<in> set T"
  then have old: "bind_ok w M b L" using tree by (auto simp: socket_tree_def)
  have "w_heap w1 b = w_heap w b" "\<forall>c \<in> snd ` set L. w_heap w1 c = w_heap w c \<and> c \<notin> set []"
    using members_row [OF T] tree_apart(1) [OF tree] w1(2) by auto
  from bind_ok_later [OF old w1(1) this] show "bind_ok w1 M b L" by simp
  show "length T + length L + 2 \<le> m"
    using accepted_count [OF old distinct_row [OF _ T]] tree_apart(4) [OF tree] m by simp
qed

lemma tree_outs:
  assumes tree: "socket_tree w a T M" and w2: "w2 = relog h es w"
    and same: "\<And>x. x \<in> snd ` set (but (members T) M) \<Longrightarrow> w_heap w2 x = w_heap w x"
  shows "\<forall>c \<in> snd ` set (but (members T) M). c \<noteq> a \<and> leaf w2 c \<and> s_type (the (w_heap w2 c)) \<noteq> FSOCK_SOCK_IN"
proof
  fix c assume c: "c \<in> snd ` set (but (members T) M)"
  have "leaf w c" "s_type (the (w_heap w c)) \<noteq> FSOCK_SOCK_IN" using tree c by (auto simp: socket_tree_def)
  then show "c \<noteq> a \<and> leaf w2 c \<and> s_type (the (w_heap w2 c)) \<noteq> FSOCK_SOCK_IN"
    using leaf_later [OF _ w2 same [OF c]] same [OF c] tree_apart(1) [OF tree, of c] c by simp
qed

text \<open>
  The two loops of \<open>fsock_sock_term\<close>, from the state after the socket's own descriptors were closed.
\<close>

lemma tree_loops:
  assumes tree: "socket_tree w a T M" and s: "w_heap w a = Some s" "small_table (s_binds s) (bind_slots T)" "small_table (s_conns s) M"
    and w1: "w1 = relog ((w_heap w)(a \<mapsto> s1)) es w" "s1 = s\<lparr>s_efd := -1\<rparr>"
    and env: "o_realloc (w_env w) = (\<lambda>_. True)" and m: "length T + length M + 3 \<le> m"
  obtains p q r d2 w2 where "small_table p []" "small_table r []" "sock_at w2 a = Inr (s1\<lparr>s_conns := q, s_binds := p\<rparr>)"
    "bind_parr_loop m a (first_live (bind_slots T) d) w1 = Inr w2"
    "fsock_parr_begin q = Inr (first_live (but (members T) M) d2)"
    "conn_parr_loop m a a (first_live (but (members T) M) d2) w2 =
      Inr (relog ((freed (whole T M) (w_heap w))(a \<mapsto> s1\<lparr>s_conns := q, s_binds := p\<rparr>\<lparr>s_conns := r\<rparr>))
        (es @ concat (map (gone_log (w_heap w)) (whole T M))) w)"
proof -
  let ?out = "but (members T) M"
  have same: "w_heap w1 x = w_heap w x" if "x \<noteq> a" for x using that by (simp add: w1)
  have "w_heap w1 a = Some s1" "small_table (s_binds s1) (bind_slots T)" "small_table (s_conns s1) M" "0 < m"
      "o_realloc (w_env w1) = (\<lambda>_. True)" "length T + length M + 2 \<le> m"
    using s env m by (simp_all add: w1)
  from bind_loop [OF this(1-3) tree_apart(3) [OF tree] tree_rows [OF tree w1(1) same this(6)] tree_apart(4) [OF tree] this(4,5), of d]
  obtain p q where 1: "small_table p []" "small_table q ?out" "bind_parr_loop m a (first_live (bind_slots T) d) w1 =
    Inr (relog ((freed (members T) (w_heap w1))(a \<mapsto> s1\<lparr>s_conns := q, s_binds := p\<rparr>))
      (concat (map (gone_log (w_heap w1)) (members T))) w1)"
    by blast
  let ?s2 = "s1\<lparr>s_conns := q, s_binds := p\<rparr>" and ?h2 = "(freed (members T) (w_heap w))(a \<mapsto> s1\<lparr>s_conns := q, s_binds := p\<rparr>)"
  define w2 where "w2 = relog ?h2 (es @ concat (map (gone_log (w_heap w)) (members T))) w"
  have "concat (map (gone_log (w_heap w1)) (members T)) = concat (map (gone_log (w_heap w)) (members T))"
    using same tree_apart(1) [OF tree] by (intro gone_logs_freed) auto
  moreover have "(freed (members T) (w_heap w1))(a \<mapsto> ?s2) = ?h2" by (auto simp: w1 freed_def fun_eq_iff)
  ultimately have run1: "bind_parr_loop m a (first_live (bind_slots T) d) w1 = Inr w2"
    using 1(3) by (simp add: w2_def w1(1) del: fun_upd_apply)
  have at2: "w_heap w2 a = Some ?s2" "sock_at w2 a = Inr ?s2" by (simp_all add: w2_def)
  obtain d2 where d2: "fsock_parr_begin q = Inr (first_live ?out d2)" using small.rep_begin [OF 1(2)] by blast
  have same2: "w_heap w2 x = w_heap w x" if "x \<in> snd ` set ?out" for x
    using that tree_apart(1,2) [OF tree, of x] by (simp add: w2_def)
  have "length ?out \<le> length M" by (simp add: but_def)
  then have "length ?out + 2 \<le> m" using m by linarith
  moreover have "small_table (s_conns ?s2) ?out" "o_realloc (w_env w2) = (\<lambda>_. True)"
    using 1(2) env by (simp_all add: w2_def)
  ultimately obtain r where 2: "small_table r []" "conn_parr_loop m a a (first_live ?out d2) w2 =
    Inr (relog ((freed (map snd ?out) (w_heap w2))(a \<mapsto> ?s2\<lparr>s_conns := r\<rparr>)) (concat (map (gone_log (w_heap w2)) (map snd ?out))) w2)"
    using out_loop [OF at2(1) _ tree_apart(5) [OF tree] _ tree_outs [OF tree w2_def same2], of m d2] by blast
  have "concat (map (gone_log (w_heap w2)) (map snd ?out)) = concat (map (gone_log (w_heap w)) (map snd ?out))"
    using same2 by (intro gone_logs_freed) simp
  moreover have "(freed (map snd ?out) (w_heap w2))(a \<mapsto> v) = (freed (whole T M) (w_heap w))(a \<mapsto> v)" for v
    by (auto simp: w2_def freed_def whole_def fun_eq_iff)
  ultimately have "conn_parr_loop m a a (first_live ?out d2) w2 =
      Inr (relog ((freed (whole T M) (w_heap w))(a \<mapsto> ?s2\<lparr>s_conns := r\<rparr>)) (es @ concat (map (gone_log (w_heap w)) (whole T M))) w)"
    using 2(2) by (simp add: w2_def whole_def del: fun_upd_apply)
  then show ?thesis by (rule that [OF 1(1) 2(1) at2(2) run1 d2])
qed

text \<open>Depth \<open>length T + length M + 4\<close> is enough: one round per bind, one per connection.\<close>

lemma sock_term_tree:
  assumes tree: "socket_tree w a T M" and env: "o_realloc (w_env w) = (\<lambda>_. True)" and n: "length T + length M + 4 \<le> n"
  shows "\<exists>s'. fsock_sock_term n a w = Inr (relog ((freed (whole T M) (w_heap w))(a \<mapsto> s'))
    (term_log a (the (w_heap w a)) @ concat (map (gone_log (w_heap w)) (whole T M))) w)"
proof -
  obtain s where s: "w_heap w a = Some s" "small_table (s_binds s) (bind_slots T)" "small_table (s_conns s) M"
    using tree by (auto simp: socket_tree_def)
  obtain m where m: "n = Suc m" "length T + length M + 3 \<le> m" using n by (cases n) auto
  define s1 where "s1 = s\<lparr>s_efd := -1\<rparr>"
  define w1 where "w1 = relog ((w_heap w)(a \<mapsto> s1)) (term_log a s) w"
  obtain d where head: "fsock_sock_term n a w = rbind (bind_parr_loop m a (first_live (bind_slots T) d) w1) (\<lambda>w4.
      rbind (sock_at w4 a) (\<lambda>s4. rbind (fsock_parr_begin (s_conns s4)) (\<lambda>it2.
      rbind (conn_parr_loop m a a it2 w4) (sock_term_rest a))))"
    unfolding m(1) w1_def s1_def by (rule sock_term_head [OF s(1,2), of m])
  obtain p q r d2 w2 where loops: "small_table p []" "small_table r []" "sock_at w2 a = Inr (s1\<lparr>s_conns := q, s_binds := p\<rparr>)"
    "bind_parr_loop m a (first_live (bind_slots T) d) w1 = Inr w2"
    "fsock_parr_begin q = Inr (first_live (but (members T) M) d2)"
    "conn_parr_loop m a a (first_live (but (members T) M) d2) w2 =
      Inr (relog ((freed (whole T M) (w_heap w))(a \<mapsto> s1\<lparr>s_conns := q, s_binds := p\<rparr>\<lparr>s_conns := r\<rparr>))
        (term_log a s @ concat (map (gone_log (w_heap w)) (whole T M))) w)"
    by (rule tree_loops [OF tree s w1_def s1_def env m(2)])
  define w3 where "w3 = relog ((freed (whole T M) (w_heap w))(a \<mapsto> s1\<lparr>s_conns := q, s_binds := p\<rparr>\<lparr>s_conns := r\<rparr>))
        (term_log a s @ concat (map (gone_log (w_heap w)) (whole T M))) w"
  have "idle w3 a" using tree by (simp add: w3_def socket_tree_def)
  then have "sock_term_rest a w3 = Inr (relog ((w_heap w3)(a \<mapsto> s1\<lparr>s_conns := q, s_binds := p\<rparr>\<lparr>s_conns := r\<rparr>\<lparr>s_events := fsock_queue_term\<rparr>)) [] w3)"
    using loops(1,2) by (intro sock_term_rest_ok) (simp_all add: w3_def)
  then show ?thesis
    using loops(3-5) loops(6) [folded w3_def] s(1) unfolding head by (auto simp: w3_def)
qed

subsection \<open>Closing\<close>

text \<open>What \<open>fsock_close\<close> logs for the socket at \<open>a\<close> and all that hangs on it.\<close>

definition close_log :: "'x world \<Rightarrow> nat \<Rightarrow> bind_row \<Rightarrow> (nat \<times> nat) list \<Rightarrow> effect list" where
  "close_log w a T M = term_log a (the (w_heap w a)) @ concat (map (gone_log (w_heap w)) (whole T M)) @ [Free a]"

definition closed :: "'x world \<Rightarrow> nat \<Rightarrow> bind_row \<Rightarrow> (nat \<times> nat) list \<Rightarrow> nat parr \<Rightarrow> 'x world" where
  "closed w a T M p = w\<lparr>g_socks := p, w_heap := freed (whole T M @ [a]) (w_heap w), w_log := w_log w @ close_log w a T M\<rparr>"

lemma socket_tree_socks: "socket_tree (w\<lparr>g_socks := p, w_held := H\<rparr>) a T M \<longleftrightarrow> socket_tree (w\<lparr>w_held := H\<rparr>) a T M"
  by (simp add: socket_tree_def bind_ok_def accepted_in_def leaf_def idle_def item_isinqueue_def)

text \<open>A call of \<open>fsock_close\<close> up to the recursion, for a socket in the table of sockets.\<close>

lemma close_unfold:
  assumes g: "small_table (g_socks w) G" "(s, a) \<in> set G"
    and w: "g_initialized w" "Glock \<notin> w_held w" "o_realloc (w_env w) = (\<lambda>_. True)"
  obtains p where "small_table p (without s G)"
    "fsock_close n worker ret0 (int s) w = rbind (fsock_sock_term n a (w\<lparr>g_socks := p\<rparr>)) (\<lambda>w3.
      rbind (if without s G = [] then fsock_global_term worker (sock_free a w3) else Inr (sock_free a w3)) (\<lambda>w4.
      Inr (ret0, w4)))"
proof -
  obtain p where p: "fsock_parr_clear (\<lambda>_. True) (g_socks w) (int s) = Inr (0, p)" "small_table p (without s G)"
    using small.rep_clear [OF g] by blast
  have read: "parr_read (g_socks w) (int s) = Inr (Elem a)" "int s < pa_last (g_socks w)"
    by (rule small_ptr [OF g])+
  have lock: "fsock_glock_lock w = Inr (w\<lparr>w_held := insert Glock (w_held w)\<rparr>)"
      "fsock_glock_unlock (w\<lparr>w_held := insert Glock (w_held w), g_socks := p\<rparr>) = Inr (w\<lparr>g_socks := p\<rparr>)"
    using w(2) by (simp_all add: fsock_glock_lock_def fsock_glock_unlock_def fsock_mutex_lock_def fsock_mutex_unlock_def lock_exists_def)
  have "int (length (without s G)) = 0 \<longleftrightarrow> without s G = []" by simp
  then show ?thesis
    using w read p(1) lock small.rep_size [OF p(2)] by (intro that [OF p(2)]) (simp add: fsock_close_def)
qed

lemma close_whole:
  assumes tree: "socket_tree w a T M" and g: "small_table (g_socks w) G" "(s, a) \<in> set G"
    and w: "g_initialized w" "Glock \<notin> w_held w" "o_realloc (w_env w) = (\<lambda>_. True)"
    and n: "length T + length M + 4 \<le> n"
  obtains p where "small_table p (without s G)"
    "fsock_close n worker ret0 (int s) w =
      (if without s G = [] then rbind (fsock_global_term worker (closed w a T M p)) (\<lambda>w4. Inr (ret0, w4))
       else Inr (ret0, closed w a T M p))"
proof -
  obtain p where p: "small_table p (without s G)"
    "fsock_close n worker ret0 (int s) w = rbind (fsock_sock_term n a (w\<lparr>g_socks := p\<rparr>)) (\<lambda>w3.
      rbind (if without s G = [] then fsock_global_term worker (sock_free a w3) else Inr (sock_free a w3)) (\<lambda>w4.
      Inr (ret0, w4)))"
    by (rule close_unfold [OF g w])
  have "socket_tree (w\<lparr>g_socks := p\<rparr>) a T M" using tree socket_tree_socks [where w = w and p = p and H = "w_held w"] by simp
  then obtain s' where down: "fsock_sock_term n a (w\<lparr>g_socks := p\<rparr>) = Inr (relog ((freed (whole T M) (w_heap w))(a \<mapsto> s'))
      (term_log a (the (w_heap w a)) @ concat (map (gone_log (w_heap w)) (whole T M))) (w\<lparr>g_socks := p\<rparr>))"
    using sock_term_tree [of "w\<lparr>g_socks := p\<rparr>" a T M n] w(3) n by auto
  have "sock_free a (relog ((freed (whole T M) (w_heap w))(a \<mapsto> s'))
      (term_log a (the (w_heap w a)) @ concat (map (gone_log (w_heap w)) (whole T M))) (w\<lparr>g_socks := p\<rparr>)) = closed w a T M p"
    by (auto simp: relog_normal closed_def close_log_def relog_def freed_def fun_eq_iff)
  then show ?thesis by (intro that [OF p(1)]) (simp add: p(2) down)
qed

end
