(* ===== verification/Closing.thy ===== *)
theory Closing
  imports Teardown
begin

text \<open>
  What closing a socket does in the end: how deep its recursion goes, what it leaves of a whole
  tree of sockets, what the watchers it leaves behind then do, and what it does to more connections
  than one increment of the arrays.
\<close>

subsection \<open>The depth of the recursion\<close>

text \<open>\<open>deeper m m'\<close>: where \<open>m\<close> did not run out of depth, \<open>m'\<close> is the same.\<close>

definition deeper :: "fault + 'a \<Rightarrow> fault + 'a \<Rightarrow> bool" where
  "deeper m m' \<longleftrightarrow> m = Inl Hang \<or> m' = m"

lemma deeper_refl [simp]: "deeper m m"
  by (simp add: deeper_def)

lemma deeper_bind:
  "deeper m m' \<Longrightarrow> (\<And>x. deeper (f x) (f' x)) \<Longrightarrow> deeper (rbind m f) (rbind m' f')"
  by (cases m) (auto simp: deeper_def)

lemma sock_term_deeper:
  "(\<forall>a (w :: 'x world). deeper (fsock_sock_term n a w) (fsock_sock_term (Suc n) a w)) \<and>
   (\<forall>self h it (w :: 'x world). deeper (conn_parr_loop n self h it w) (conn_parr_loop (Suc n) self h it w)) \<and>
   (\<forall>self it (w :: 'x world). deeper (bind_parr_loop n self it w) (bind_parr_loop (Suc n) self it w))"
proof (induction n)
  case 0
  then show ?case by (simp add: deeper_def fsock_sock_term.simps conn_parr_loop.simps bind_parr_loop.simps)
next
  case (Suc n)
  define m where "m = Suc n"
  have t: "deeper (fsock_sock_term n a w) (fsock_sock_term m a w)" for a and w :: "'x world" using Suc unfolding m_def by blast
  have c: "deeper (conn_parr_loop n self h it w) (conn_parr_loop m self h it w)" for self h it and w :: "'x world"
    using Suc unfolding m_def by blast
  have b: "deeper (bind_parr_loop n self it w) (bind_parr_loop m self it w)" for self it and w :: "'x world"
    using Suc unfolding m_def by blast
  have "deeper (fsock_sock_term (Suc n) a w) (fsock_sock_term (Suc m) a w)" for a and w :: "'x world"
    unfolding fsock_sock_term.simps(2) Let_def by (intro deeper_bind b c deeper_refl)
  moreover have "deeper (conn_parr_loop (Suc n) self h it w) (conn_parr_loop (Suc m) self h it w)" for self h it and w :: "'x world"
    unfolding conn_parr_loop.simps(2)
    by (cases it; cases "fst it") (simp_all only: prod.case option.case fst_conv, (intro deeper_bind t c deeper_refl)+)
  moreover have "deeper (bind_parr_loop (Suc n) self it w) (bind_parr_loop (Suc m) self it w)" for self it and w :: "'x world"
    unfolding bind_parr_loop.simps(2)
    by (cases it; cases "fst it") (simp_all only: prod.case option.case fst_conv, (intro deeper_bind t c b deeper_refl)+)
  ultimately show ?case unfolding m_def by blast
qed

lemma deeper_trans: "deeper a b \<Longrightarrow> deeper b c \<Longrightarrow> deeper a c"
  by (auto simp: deeper_def)

lemma sock_term_depth: "n \<le> m \<Longrightarrow> deeper (fsock_sock_term n a w) (fsock_sock_term m a w)"
proof (induction m rule: dec_induct)
  case (step m)
  have "deeper (fsock_sock_term m a w) (fsock_sock_term (Suc m) a w)" using sock_term_deeper [of m] by blast
  with step.IH show ?case by (rule deeper_trans)
qed simp

lemma close_deeper:
  assumes "n \<le> m"
  shows "deeper (fsock_close n worker ret0 s w) (fsock_close m worker ret0 s w)"
  unfolding fsock_close_def
  by (auto simp del: rbind_assoc intro!: deeper_bind sock_term_depth [OF assms] split: cell.split prod.split)

subsection \<open>More than ten connections\<close>

text \<open>
  While the last slot is occupied, clearing another one keeps the array what it stands for,
  also when the block is made smaller.
\<close>

definition whole_blocks :: "nat \<Rightarrow> 'a parr \<Rightarrow> bool" where
  "whole_blocks n p \<longleftrightarrow> (\<exists>k \<ge> 1. pa_capacity p = pa_increment p * k) \<and>
     pa_capacity p - pa_increment p \<le> int n \<and> pa_capacity p \<le> INT_MAX"

lemma clear_keeps_rep:
  assumes rep: "parr_rep ss p" and i: "Suc i < length ss" "ss ! (length ss - 1) \<noteq> None"
    and caps: "whole_blocks (length ss) p" and alloc: "\<And>z. alloc z"
  shows "\<exists>q. fsock_parr_clear alloc p (int i) = Inr (0, q) \<and> parr_rep (ss[i := None]) q \<and>
    whole_blocks (length ss) q \<and> pa_increment q = pa_increment p"
proof -
  let ?p1 = "p\<lparr>pa_elems := Some ((parr_block p)[i := Empty])\<rparr>"
  have il: "i < length ss" using i by simp
  have rep1: "parr_rep (ss[i := None]) ?p1" by (rule parr_rep_clear [OF rep il])
  obtain k where k: "1 \<le> k" "pa_capacity p = pa_increment p * k" using caps by (auto simp: whole_blocks_def)
  have inc: "0 < pa_increment p" using rep by (simp add: parr_rep_def)
  have live: "ss[i := None] ! (length ss - 1) \<noteq> None" using i by (auto simp: nth_list_update)
  show ?thesis
  proof (cases "pa_capacity p - pa_increment p < int (length ss)")
    case True
    have "pa_increment p \<le> pa_capacity p" using k inc by simp
    then have "fsock_parr_clear alloc p (int i) = Inr (0, ?p1)"
      using i True by (intro parr_clear_kept [OF rep il, of "length ss - 1"]) auto
    then show ?thesis using rep1 caps by (auto simp: whole_blocks_def)
  next
    case False
    then have full: "pa_capacity p - pa_increment p = int (length ss)" using caps by (simp add: whole_blocks_def)
    then have "k \<noteq> 1" using k i by auto
    then have k2: "1 \<le> k - 1" "pa_capacity p - pa_increment p = pa_increment p * (k - 1)"
      using k by (auto simp: algebra_simps)
    then have b2: "pa_increment p * 1 \<le> pa_increment p * (k - 1)" using inc by (intro mult_left_mono) auto
    obtain q where q: "parr_shrink_loop alloc ?p1 = parr_shrink_loop alloc q" "parr_rep (ss[i := None]) q"
        "pa_increment q = pa_increment p" "pa_capacity q = pa_capacity p - pa_increment p"
      using parr_shrink_step [OF rep1, of alloc] b2 k2 full caps alloc by (auto simp: whole_blocks_def)
    have "parr_shrink_loop alloc q = Some (Inr (0, q))"
      using q k2 b2 full inc live i
      by (intro parr_shrink_stops [OF q(2)]) (auto intro!: exI [of _ "length ss - 1"])
    moreover have "whole_blocks (length ss) q" using q k2 full inc caps by (auto simp: whole_blocks_def)
    ultimately show ?thesis using q by (simp add: parr_clear_unfold [OF rep il])
  qed
qed

lemma retire_fails:
  assumes "leaf w c" "c \<noteq> h" "w_heap w h = Some hs" "o_realloc (w_env w) = (\<lambda>_. True)"
    and "fsock_parr_clear (\<lambda>_. True) (s_conns hs) (int i) = Inl f"
  shows "retire (Suc (Suc n)) h i c K w = Inl f"
proof -
  obtain cs where cs: "w_heap w c = Some cs" "small_table (s_binds cs) []" "small_table (s_conns cs) []" "idle w c"
    using assms(1) by (auto simp: leaf_def)
  then show ?thesis
    using assms by (simp add: retire_def sock_term_leaf [OF cs] conns_clear_def relog_normal)
qed

lemma out_loop_overruns:
  assumes "w_heap w a = Some s" "parr_rep (cleared k xs) (s_conns s)" "whole_blocks (length xs) (s_conns s)"
    and "parr_clear_range (\<lambda>_. True) (s_conns s) k (length xs - k) = Inl f" "k < length xs" "length xs - k + 2 \<le> n"
    and "distinct xs" "\<forall>i < length xs. k \<le> i \<longrightarrow> xs ! i \<noteq> a \<and> leaf w (xs ! i) \<and> s_type (the (w_heap w (xs ! i))) \<noteq> FSOCK_SOCK_IN"
    and "o_realloc (w_env w) = (\<lambda>_. True)"
  shows "conn_parr_loop n a a (Some (xs ! k), int k) w = Inl f"
  using assms
proof (induction "length xs - k" arbitrary: k w s n)
  case 0
  then show ?case by simp
next
  case (Suc d)
  let ?c = "xs ! k" and ?p = "s_conns s"
  obtain m where m: "n = Suc (Suc (Suc m))" using Suc.prems(5,6) by (cases n; cases "n - 1"; cases "n - 2") auto
  have c: "?c \<noteq> a" "leaf w ?c" "s_type (the (w_heap w ?c)) \<noteq> FSOCK_SOCK_IN" using Suc.prems(5,8) by auto
  then obtain cs where cs: "w_heap w ?c = Some cs" by (auto simp: leaf_def)
  have "parr_read ?p (int k) = Inr (Elem ?c)"
    using parr_read_nth [OF Suc.prems(2)] Suc.prems(5) by (simp add: nth_cleared)
  from conn_loop_step [OF Suc.prems(1) this cs]
  have step: "conn_parr_loop n a a (Some ?c, int k) w = retire (Suc (Suc m)) a k ?c (conn_parr_loop (Suc (Suc m)) a a) w"
    using c(3) cs by (simp add: m)
  show ?case
  proof (cases "fsock_parr_clear (\<lambda>_. True) ?p (int k)")
    case (Inl g)
    have "length xs - k = Suc (length xs - Suc k)" using Suc.prems(5) by simp
    then have "g = f" using Suc.prems(4) Inl by simp
    then show ?thesis using step retire_fails [OF c(2,1) Suc.prems(1,9) Inl] by simp
  next
    case (Inr rq)
    have more: "Suc k < length xs"
    proof (rule ccontr)
      assume "\<not> Suc k < length xs"
      then have "length xs - k = Suc 0" using Suc.prems(5) by simp
      then show False using Suc.prems(4) Inr by (cases rq) simp
    qed
    obtain q where q: "fsock_parr_clear (\<lambda>_. True) ?p (int k) = Inr (0, q)" "parr_rep (cleared (Suc k) xs) q"
        "whole_blocks (length xs) q"
    proof -
      have "cleared k xs ! (length (cleared k xs) - 1) \<noteq> None" "Suc k < length (cleared k xs)"
        using more by (auto simp: nth_cleared)
      then show ?thesis
        using clear_keeps_rep [OF Suc.prems(2), of k "\<lambda>_. True"] Suc.prems(3) more that cleared_Suc [OF Suc.prems(5)] by auto
    qed
    define w1 where "w1 = relog ((w_heap w)(?c := None, a \<mapsto> s\<lparr>s_conns := q\<rparr>)) (gone_log (w_heap w) ?c) w"
    have nx: "fsock_parr_next q (int k) = Inr (Some (xs ! Suc k), int (Suc k))"
      using parr_next_rep [OF q(2), of k] more by (simp add: live_from_step nth_cleared)
    have later: "\<forall>i < length xs. Suc k \<le> i \<longrightarrow> xs ! i \<noteq> a \<and> leaf w1 (xs ! i) \<and> s_type (the (w_heap w1 (xs ! i))) \<noteq> FSOCK_SOCK_IN"
    proof (intro allI impI)
      fix i assume i: "i < length xs" "Suc k \<le> i"
      then have old: "xs ! i \<noteq> a" "leaf w (xs ! i)" "s_type (the (w_heap w (xs ! i))) \<noteq> FSOCK_SOCK_IN"
        using Suc.prems(8) by auto
      have "xs ! i \<noteq> ?c" using Suc.prems(5,7) i by (simp add: nth_eq_iff_index_eq)
      then have "w_heap w1 (xs ! i) = w_heap w (xs ! i)" using old(1) by (simp add: w1_def)
      then show "xs ! i \<noteq> a \<and> leaf w1 (xs ! i) \<and> s_type (the (w_heap w1 (xs ! i))) \<noteq> FSOCK_SOCK_IN"
        using old leaf_later [OF old(2) w1_def] by simp
    qed
    have "length xs - k = Suc (length xs - Suc k)" using Suc.prems(5) by simp
    then have "parr_clear_range (\<lambda>_. True) q (Suc k) (length xs - Suc k) = Inl f" using Suc.prems(4) q(1) by simp
    moreover have "w_heap w1 a = Some (s\<lparr>s_conns := q\<rparr>)" "o_realloc (w_env w1) = (\<lambda>_. True)" "d = length xs - Suc k"
        "length xs - Suc k + 2 \<le> Suc (Suc m)"
      using Suc.hyps(2) Suc.prems(5,6,9) by (simp_all add: w1_def m)
    ultimately have "conn_parr_loop (Suc (Suc m)) a a (Some (xs ! Suc k), int (Suc k)) w1 = Inl f"
      using Suc.hyps(1) [of "Suc k" w1 "s\<lparr>s_conns := q\<rparr>" "Suc (Suc m)"] q(2,3) more later Suc.prems(7) by simp
    then show ?thesis
      unfolding step retire_step [OF c(2,1) Suc.prems(1,9) q(1) nx] w1_def .
  qed
qed

lemma sock_term_overruns:
  assumes s: "w_heap w a = Some s" "small_table (s_binds s) []" "parr_dense xs (s_conns s)" "pa_increment (s_conns s) = 10"
    and xs: "10 < length xs" "int (length xs) + 10 \<le> INT_MAX" "distinct (a # xs)"
    and leaves: "\<forall>c \<in> set xs. leaf w c \<and> s_type (the (w_heap w c)) \<noteq> FSOCK_SOCK_IN"
    and env: "o_realloc (w_env w) = (\<lambda>_. True)" and n: "length xs + 3 \<le> n"
  shows "fsock_sock_term n a w = Inl OutOfBounds"
proof -
  have ne: "xs \<noteq> []" using xs(1) by auto
  note caps = parr_dense_caps [OF s(3) ne] and le = parr_dense_cap_le [OF s(3)]
  have "whole_blocks (length xs) (s_conns s)"
    unfolding whole_blocks_def using caps(1) le(1) s(4) xs(2)
    by (intro conjI exI [of _ "int (length xs) div 10 + 1"]) (auto simp: pos_imp_zdiv_nonneg_iff)
  moreover have "parr_clear_range (\<lambda>_. True) (s_conns s) 0 (length xs) = Inl OutOfBounds"
    using parr_clear_range_dense [OF s(3) ne, of "\<lambda>_. True"] le(1) s(4) xs(1,2) by simp
  moreover obtain m where m: "n = Suc (Suc m)" using n by (cases n; cases "n - 1") auto
  define w1 where "w1 = relog ((w_heap w)(a \<mapsto> s\<lparr>s_efd := -1\<rparr>)) (term_log a s) w"
  have "\<forall>i < length xs. xs ! i \<noteq> a \<and> leaf w1 (xs ! i) \<and> s_type (the (w_heap w1 (xs ! i))) \<noteq> FSOCK_SOCK_IN"
  proof (intro allI impI)
    fix i assume "i < length xs"
    then have i: "xs ! i \<in> set xs" by simp
    then have "w_heap w1 (xs ! i) = w_heap w (xs ! i)" "xs ! i \<noteq> a" using xs(3) by (auto simp: w1_def)
    then show "xs ! i \<noteq> a \<and> leaf w1 (xs ! i) \<and> s_type (the (w_heap w1 (xs ! i))) \<noteq> FSOCK_SOCK_IN"
      using leaves i leaf_later [OF _ w1_def] by simp
  qed
  ultimately have "conn_parr_loop (Suc m) a a (Some (xs ! 0), int 0) w1 = Inl OutOfBounds"
    using caps(2) xs n m env ne by (intro out_loop_overruns [where s = "s\<lparr>s_efd := -1\<rparr>"]) (auto simp: w1_def)
  moreover have "fsock_parr_begin (s_conns s) = Inr (Some (xs ! 0), int 0)"
    using parr_begin_rep [OF caps(2)] ne by (simp add: live_from_step)
  ultimately show ?thesis
    unfolding m by (rule_tac sock_term_head [OF s(1,2), of "Suc m"]) (simp add: w1_def)
qed

subsection \<open>A concrete tree\<close>

text \<open>
  A base socket 0 with a connection 1 of its own and a bind 2, which accepted connection 3, and another base
  socket that stays open.
\<close>

definition filled :: "nat list \<Rightarrow> nat parr" where
  "filled xs = \<lparr>pa_elems = Some (map Elem xs @ replicate (10 - length xs) Uninit), pa_last = int (length xs),
     pa_capacity = 10, pa_increment = 10\<rparr>"

lemma small_filled: "length xs < 10 \<Longrightarrow> small_table (filled xs) (zip [0..<length xs] xs)"
  by (auto simp: small_table_def small_slots_def filled_def parr_rep_def parr_block_def INT_MAX_def live_from_all
      intro!: exI [of _ "map Some xs"])

definition tree_world :: "unit world" where
  "tree_world = example_world\<lparr>g_socks := filled [0, 9],
     w_heap := [0 \<mapsto> (example_sock FSOCK_SOCK_BASE)\<lparr>s_conns := filled [1, 3], s_binds := filled [2]\<rparr>, 1 \<mapsto> example_conn,
       2 \<mapsto> (example_sock FSOCK_SOCK_BIND)\<lparr>s_conns := filled [3]\<rparr>, 3 \<mapsto> (example_sock FSOCK_SOCK_IN)\<lparr>s_idx := 1\<rparr>]\<rparr>"

lemma tree_world_simps [simp]:
  "g_socks tree_world = filled [0, 9]" "g_initialized tree_world" "w_held tree_world = {}"
  "o_realloc (w_env tree_world) = (\<lambda>_. True)" "w_log tree_world = []" "w_next tree_world = (\<lambda>_. NotInQueue)" "idle tree_world a"
  by (simp_all add: tree_world_def idle_def item_isinqueue_def fsock_queue_item_isinqueue_def)

lemma small_examples [simp]:
  "small_table (fsock_parr_init 10) []" "small_table (filled [i]) [(0, i)]" "small_table (filled [i, j]) [(0, i), (Suc 0, j)]"
  using small_filled [of "[i]"] small_filled [of "[i, j]"] by (simp_all add: small_init upt_rec)

lemma example_tree: "socket_tree tree_world 0 [(0, 2, [(0, 3)])] [(0, 1), (1, 3)]"
  by (auto simp: socket_tree_def whole_def but_def bind_ok_def accepted_in_def leaf_def)
    (auto simp: tree_world_def example_sock_def example_conn_def)

lemma close_tree:
  assumes "socket_tree w a T M" "small_table (g_socks w) G" "(s, a) \<in> set G" "without s G \<noteq> []"
    and "g_initialized w" "Glock \<notin> w_held w" "o_realloc (w_env w) = (\<lambda>_. True)" "length T + length M + 4 \<le> n"
  obtains p where "fsock_close n worker ret0 (int s) w = Inr (ret0, closed w a T M p)" "small_table p (without s G)"
proof -
  obtain p where "small_table p (without s G)" "fsock_close n worker ret0 (int s) w =
      (if without s G = [] then rbind (fsock_global_term worker (closed w a T M p)) (\<lambda>w4. Inr (ret0, w4))
       else Inr (ret0, closed w a T M p))"
    by (rule close_whole [OF assms(1-3,5-8)])
  then show ?thesis using assms(4) that by simp
qed

subsection \<open>Properties\<close>

text \<open>
  C13: when the table of sockets and all arrays of the socket and its binds have at most ten slots, the socket and all below
  it are idle and no \<open>realloc\<close> fails, closing a base socket that is not the last one takes it out of the table of sockets and frees it,
  its binds and all their connections: every descriptor is closed once, each bind goes after its
  connections, no other socket is touched, and the mutexes are as before. The
  recursion is never deeper than there are binds and connections.
\<close>

theorem close_releases_tree:
  assumes "socket_tree w a T M" and "small_table (g_socks w) G" and "(s, a) \<in> set G" and "without s G \<noteq> []"
    and "g_initialized w" and "Glock \<notin> w_held w" and "o_realloc (w_env w) = (\<lambda>_. True)"
    and "length T + length M + 4 \<le> n"
  shows "\<exists>p. fsock_close n worker ret0 (int s) w = Inr (ret0,
      w\<lparr>g_socks := p, w_heap := freed (whole T M @ [a]) (w_heap w), w_log := w_log w @ close_log w a T M\<rparr>) \<and>
    small_table p (without s G)"
  by (rule close_tree [OF assms, of worker ret0]) (auto simp: closed_def)

theorem close_releases_tree_witness:
  "\<exists>p. fsock_close 7 (\<lambda>_ w. w) 0 0 tree_world = Inr (0, tree_world\<lparr>g_socks := p, w_heap := freed [3, 2, 1, 0] (w_heap tree_world),
      w_log := close_log tree_world 0 [(0, 2, [(0, 3)])] [(0, 1), (1, 3)]\<rparr>) \<and> small_table p [(1, 9)]"
  using close_releases_tree [OF example_tree, of "[(0, 0), (1, 9)]" 0 7 "\<lambda>_ w. w" 0]
  by (simp add: without_def whole_def but_def)

text \<open>
  the number that bounds the recursion of \<open>fsock_close\<close> is only a bound: a call that does not run
  out of it does the same with every larger one.
\<close>

theorem close_any_depth:
  assumes "n \<le> m" and "fsock_close n worker ret0 s w \<noteq> Inl Hang"
  shows "fsock_close m worker ret0 s w = fsock_close n worker ret0 s w"
  using close_deeper [OF assms(1), of worker ret0 s w] assms(2) by (auto simp: deeper_def)

theorem close_any_depth_witness:
  "fsock_close 1000 (\<lambda>_ w. w) 0 (int 0) tree_world = fsock_close 7 (\<lambda>_ w. w) 0 (int 0) tree_world"
proof (rule close_any_depth)
  show "fsock_close 7 (\<lambda>_ w. w) 0 (int 0) tree_world \<noteq> Inl Hang"
    by (rule close_tree [OF example_tree, of "[(0, 0), (1, 9)]" 0 7 "\<lambda>_ w. w" 0]) (simp_all add: without_def)
qed simp

text \<open>
  C14: the watchers of the closed connections are not stopped. No call that \<open>fsock_close\<close> makes is
  \<open>ev_io_stop\<close>, and a read or write handler that libev still runs for one of the connections uses
  freed memory.
\<close>

theorem close_leaves_watchers:
  assumes "socket_tree w a T M" and "small_table (g_socks w) G" and "(s, a) \<in> set G" and "without s G \<noteq> []"
    and "g_initialized w" and "Glock \<notin> w_held w" and "o_realloc (w_env w) = (\<lambda>_. True)"
    and "length T + length M + 4 \<le> n" and "c \<in> set (whole T M)"
  shows "\<exists>w'. fsock_close n worker ret0 (int s) w = Inr (ret0, w') \<and>
    (\<forall>x. Io_stop c x \<notin> set (drop (length (w_log w)) (w_log w'))) \<and>
    fsock_sock_read_handler F c rd cnt0 w' = Inl UseAfterFree \<and> fsock_sock_write_handler F wv c w' = Inl UseAfterFree"
proof -
  obtain p where "fsock_close n worker ret0 (int s) w = Inr (ret0, closed w a T M p)"
    by (rule close_tree [OF assms(1-8)])
  moreover have "Io_stop c x \<notin> set (close_log w a T M)" for x
    by (auto simp: close_log_def term_log_def gone_log_def)
  moreover have "sock_at (closed w a T M p) c = Inl UseAfterFree"
    using assms(9) by (simp add: sock_at_def closed_def)
  ultimately show ?thesis
    by (intro exI [of _ "closed w a T M p"]) (simp add: closed_def fsock_sock_read_handler_def fsock_sock_write_handler_def)
qed

theorem close_leaves_watchers_witness:
  "\<exists>w'. fsock_close 7 (\<lambda>_ w. w) 0 0 tree_world = Inr (0, w') \<and>
    fsock_sock_read_handler example_framer 3 (Inl EAGAIN) 0 w' = Inl UseAfterFree"
  using close_leaves_watchers [OF example_tree, of "[(0, 0), (1, 9)]" 0 7 3 "\<lambda>_ w. w" 0 example_framer "Inl EAGAIN" 0]
  by (auto simp: without_def whole_def)

text \<open>
  C15: a base socket with more than ten connections of its own cannot be closed: when the last connection is taken
  out, the array is made smaller than the part of it in use, and \<open>fsock_close\<close> reads outside the block.
\<close>

theorem close_overruns:
  assumes "w_heap w a = Some b" and "small_table (s_binds b) []" and "parr_dense xs (s_conns b)" and "pa_increment (s_conns b) = 10"
    and "10 < length xs" and "int (length xs) + 10 \<le> INT_MAX" and "distinct (a # xs)"
    and "\<forall>c \<in> set xs. leaf w c \<and> s_type (the (w_heap w c)) = FSOCK_SOCK_OUT"
    and "small_table (g_socks w) G" and "(s, a) \<in> set G"
    and "g_initialized w" and "Glock \<notin> w_held w" and "o_realloc (w_env w) = (\<lambda>_. True)" and "length xs + 3 \<le> n"
  shows "fsock_close n worker ret0 (int s) w = Inl OutOfBounds"
proof -
  obtain p where p: "fsock_close n worker ret0 (int s) w = rbind (fsock_sock_term n a (w\<lparr>g_socks := p\<rparr>)) (\<lambda>w3.
      rbind (if without s G = [] then fsock_global_term worker (sock_free a w3) else Inr (sock_free a w3)) (\<lambda>w4.
      Inr (ret0, w4)))"
    by (rule close_unfold [OF assms(9-13)])
  have "leaf (w\<lparr>g_socks := p\<rparr>) c = leaf w c" for c by (simp add: leaf_def idle_def item_isinqueue_def)
  then have "fsock_sock_term n a (w\<lparr>g_socks := p\<rparr>) = Inl OutOfBounds"
    using assms(1,8,13) by (intro sock_term_overruns [OF _ assms(2-7) _ _ assms(14)]) auto
  then show ?thesis by (simp add: p)
qed

text \<open>Eleven connections in the array of the base socket.\<close>

definition eleven_world :: "unit world" where
  "eleven_world = tree_world\<lparr>w_heap := (\<lambda>_. Some example_conn)(0 \<mapsto> (example_sock FSOCK_SOCK_BASE)\<lparr>s_conns :=
     \<lparr>pa_elems = Some (map Elem [1..<12] @ replicate 9 Uninit), pa_last = 11, pa_capacity = 20, pa_increment = 10\<rparr>\<rparr>)\<rparr>"

theorem close_overruns_witness:
  "fsock_close 20 (\<lambda>_ w. w) 0 (int 0) eleven_world = Inl OutOfBounds"
proof (rule close_overruns [where xs = "[1..<12]" and G = "[(0, 0), (1, 9)]"])
  show "w_heap eleven_world 0 = Some ((example_sock FSOCK_SOCK_BASE)\<lparr>s_conns :=
     \<lparr>pa_elems = Some (map Elem [1..<12] @ replicate 9 Uninit), pa_last = 11, pa_capacity = 20, pa_increment = 10\<rparr>\<rparr>)"
    by (simp add: eleven_world_def)
qed (auto simp: eleven_world_def example_sock_def example_conn_def leaf_def idle_def item_isinqueue_def
    fsock_queue_item_isinqueue_def INT_MAX_def parr_dense_def parr_rep_def parr_block_def)

end
