(* ===== verification/Locks.thy ===== *)
theory Locks
  imports Example
begin

text \<open>
  The mutexes of \<open>utils/mutex.c\<close> and the global lock of \<open>utils/glock.c\<close> as several threads use them. In the rest
  of the development a call knows only the mutexes it holds itself (\<open>w_held\<close>). Here every mutex has an owner,
  and the calls of all threads are interleaved; the first part shows that each thread's
  share of such a run is a run of the other model. The Windows variants, critical sections that count how
  often their owner entered them, are compared with the POSIX ones, and the global lock of Windows is followed step
  by step through its initialisation.
\<close>

subsection \<open>POSIX mutexes and their owners\<close>

datatype lock_op = Lock lockid | Unlock lockid

type_synonym owners = "lockid \<Rightarrow> nat option"

text \<open>
  One call of thread \<open>t\<close>. \<open>Inr None\<close> means that the call waits. Locking a mutex again is undefined for the
  default kind of mutex; the fault has the name it has in World.
\<close>

fun posix_op :: "nat \<Rightarrow> lock_op \<Rightarrow> owners \<Rightarrow> fault + owners option" where
  "posix_op t (Lock l) own =
     (case own l of None \<Rightarrow> Inr (Some (own(l \<mapsto> t))) | Some u \<Rightarrow> if u = t then Inl Deadlock else Inr None)"
| "posix_op t (Unlock l) own = (if own l = Some t then Inr (Some (own(l := None))) else Inl BadUnlock)"

text \<open>A schedule: who makes which call next. It stops at a call that waits.\<close>

fun sched :: "(nat \<Rightarrow> lock_op \<Rightarrow> 's \<Rightarrow> fault + 's option) \<Rightarrow> (nat \<times> lock_op) list \<Rightarrow> 's \<Rightarrow> fault + 's option" where
  "sched step [] s = Inr (Some s)"
| "sched step ((t, op) # ops) s =
     rbind (step t op s) (\<lambda>r. case r of None \<Rightarrow> Inr None | Some s1 \<Rightarrow> sched step ops s1)"

text \<open>The same call in the model of the rest of the development.\<close>

fun own_op :: "lock_op \<Rightarrow> 'x world \<Rightarrow> fault + 'x world" where
  "own_op (Lock l) w = fsock_mutex_lock l w"
| "own_op (Unlock l) w = fsock_mutex_unlock l w"

fun own_ops :: "lock_op list \<Rightarrow> 'x world \<Rightarrow> fault + 'x world" where
  "own_ops [] w = Inr w"
| "own_ops (op # ops) w = rbind (own_op op w) (own_ops ops)"

definition view :: "nat \<Rightarrow> owners \<Rightarrow> lockid set" where
  "view t own = {l. own l = Some t}"

definition share :: "nat \<Rightarrow> (nat \<times> lock_op) list \<Rightarrow> lock_op list" where
  "share t ops = map snd (filter (\<lambda>(u, op). u = t) ops)"

fun op_lock :: "lock_op \<Rightarrow> lockid" where
  "op_lock (Lock l) = l"
| "op_lock (Unlock l) = l"

lemma view_simps:
  "view t (own(l \<mapsto> u)) = (if t = u then insert l (view t own) else view t own - {l})"
  "view t (own(l := None)) = view t own - {l}"
  by (auto simp: view_def)

lemma in_view: "l \<in> view t own \<longleftrightarrow> own l = Some t"
  by (simp_all add: view_def)

lemma posix_op_mine:
  assumes "posix_op t op own = Inr (Some own')" "lock_exists (op_lock op) w" "w_held w = view t own"
  shows "own_op op w = Inr (w\<lparr>w_held := view t own'\<rparr>)"
  using assms
  by (cases op) (auto simp: fsock_mutex_lock_def fsock_mutex_unlock_def view_simps in_view simp del: fun_upd_apply split: option.splits if_splits)

lemma posix_op_others: "posix_op t op own = Inr (Some own') \<Longrightarrow> u \<noteq> t \<Longrightarrow> view u own' = view u own"
  by (cases op) (auto simp: view_def split: option.splits if_splits)

lemma lock_exists_held: "lock_exists l (w\<lparr>w_held := H\<rparr>) = lock_exists l w"
  by (simp add: lock_exists_def split: lockid.split)

text \<open>
  Every thread's share of a run runs in the model of one thread, without a fault, from the mutexes it held to
  the mutexes it holds, whatever the other threads did in between.
\<close>

theorem locks_refine:
  assumes "sched posix_op ops own = Inr (Some own')" and "\<forall>op\<in>set (share t ops). lock_exists (op_lock op) w"
    and "w_held w = view t own"
  shows "own_ops (share t ops) w = Inr (w\<lparr>w_held := view t own'\<rparr>)"
  using assms
proof (induction ops arbitrary: own w)
  case Nil
  then show ?case by (simp add: share_def)
next
  case (Cons p ops)
  obtain u op where p: "p = (u, op)" by (cases p)
  then obtain own1 where step: "posix_op u op own = Inr (Some own1)" "sched posix_op ops own1 = Inr (Some own')"
    using Cons.prems(1) by (auto simp: fault_iff split: option.splits)
  show ?case
  proof (cases "u = t")
    case True
    have "own_op op w = Inr (w\<lparr>w_held := view t own1\<rparr>)"
      using step(1) Cons.prems(2,3) p True by (intro posix_op_mine) (auto simp: share_def)
    moreover have "own_ops (share t ops) (w\<lparr>w_held := view t own1\<rparr>) = Inr (w\<lparr>w_held := view t own'\<rparr>)"
      using Cons.IH [OF step(2), of "w\<lparr>w_held := view t own1\<rparr>"] Cons.prems(2) p True
      by (simp add: share_def lock_exists_held)
    ultimately show ?thesis using p True by (simp add: share_def)
  next
    case False
    then show ?thesis
      using Cons.IH [OF step(2), of w] Cons.prems(2,3) p posix_op_others [OF step(1), of t] by (auto simp: share_def)
  qed
qed

theorem locks_refine_witness:
  "own_ops [Lock Glock, Lock (Sock_sync 0), Unlock Glock] example_world = Inr (example_world\<lparr>w_held := {Sock_sync 0}\<rparr>)"
proof -
  let ?ops = "[(0, Lock Glock), (1, Lock (Thr_sync 2)), (0, Lock (Sock_sync 0)), (0, Unlock Glock), (1, Lock Glock)]"
  have "sched posix_op ?ops (\<lambda>_. None) = Inr (Some [Sock_sync 0 \<mapsto> 0, Thr_sync 2 \<mapsto> 1, Glock \<mapsto> 1])"
    by (simp add: fun_eq_iff)
  moreover have "share 0 ?ops = [Lock Glock, Lock (Sock_sync 0), Unlock Glock]" by (simp add: share_def)
  moreover have "view 0 [Sock_sync 0 \<mapsto> 0, Thr_sync 2 \<mapsto> 1, Glock \<mapsto> 1] = {Sock_sync 0}" by (auto simp: view_def)
  ultimately show ?thesis
    using locks_refine [of ?ops "\<lambda>_. None" _ 0 example_world] by (simp add: lock_exists_def view_def)
qed

subsection \<open>Critical sections\<close>

text \<open>
  A \<open>CRITICAL_SECTION\<close>: whether it was initialised, its owner, and how often the owner entered. Entering or
  leaving one that was not initialised is undefined.
\<close>

record crit =
  cs_ready :: bool
  cs_owner :: "nat option"
  cs_count :: nat

definition fsock_mutex_init_win :: "crit \<Rightarrow> crit" where
  "fsock_mutex_init_win c = \<lparr>cs_ready = True, cs_owner = None, cs_count = 0\<rparr>"

definition fsock_mutex_term_win :: "crit \<Rightarrow> fault + crit" where
  "fsock_mutex_term_win c = (if cs_ready c then Inr (c\<lparr>cs_ready := False\<rparr>) else Inl UninitRead)"

definition fsock_mutex_lock_win :: "nat \<Rightarrow> crit \<Rightarrow> fault + crit option" where
  "fsock_mutex_lock_win t c =
     (if \<not> cs_ready c then Inl UninitRead
      else case cs_owner c of
          None \<Rightarrow> Inr (Some (c\<lparr>cs_owner := Some t, cs_count := 1\<rparr>))
        | Some u \<Rightarrow> Inr (if u = t then Some (c\<lparr>cs_count := Suc (cs_count c)\<rparr>) else None))"

definition fsock_mutex_unlock_win :: "nat \<Rightarrow> crit \<Rightarrow> fault + crit" where
  "fsock_mutex_unlock_win t c =
     (if \<not> cs_ready c then Inl UninitRead
      else if cs_owner c \<noteq> Some t then Inl BadUnlock
      else if cs_count c = 1 then Inr (c\<lparr>cs_owner := None, cs_count := 0\<rparr>)
      else Inr (c\<lparr>cs_count := cs_count c - 1\<rparr>))"

type_synonym crits = "lockid \<Rightarrow> crit"

fun win_op :: "nat \<Rightarrow> lock_op \<Rightarrow> crits \<Rightarrow> fault + crits option" where
  "win_op t (Lock l) cs = rbind (fsock_mutex_lock_win t (cs l)) (\<lambda>r. Inr (map_option (\<lambda>c. cs(l := c)) r))"
| "win_op t (Unlock l) cs = rbind (fsock_mutex_unlock_win t (cs l)) (\<lambda>c. Inr (Some (cs(l := c))))"

definition crits_of :: "owners \<Rightarrow> crits" where
  "crits_of own = (\<lambda>l. \<lparr>cs_ready = True, cs_owner = own l, cs_count = (case own l of None \<Rightarrow> 0 | Some _ \<Rightarrow> 1)\<rparr>)"

lemma crits_of_upd: "(crits_of own)(l := \<lparr>cs_ready = True, cs_owner = v, cs_count = (case v of None \<Rightarrow> 0 | Some _ \<Rightarrow> 1)\<rparr>) = crits_of (own(l := v))"
  by (auto simp: crits_of_def)

lemma win_op_agrees:
  "posix_op t op own = Inr r \<Longrightarrow> win_op t op (crits_of own) = Inr (map_option crits_of r)"
  by (cases op)
    (auto simp: fsock_mutex_lock_win_def fsock_mutex_unlock_win_def crits_of_def fun_eq_iff split: option.splits if_splits)

text \<open>
  C26: the two variants of the mutexes agree: a schedule of calls that is defined with POSIX mutexes has the same
  owners with critical sections, and waits where it waits.
\<close>

theorem windows_locks_agree:
  assumes "sched posix_op ops own = Inr r"
  shows "sched win_op ops (crits_of own) = Inr (map_option crits_of r)"
  using assms
proof (induction ops arbitrary: own)
  case (Cons p ops)
  obtain t op where p: "p = (t, op)" by (cases p)
  then obtain r1 where r1: "posix_op t op own = Inr r1"
      "(case r1 of None \<Rightarrow> Inr None | Some own1 \<Rightarrow> sched posix_op ops own1) = Inr r"
    using Cons.prems by (auto simp: fault_iff)
  then show ?case using Cons.IH p win_op_agrees [OF r1(1)] by (cases r1) auto
qed auto

text \<open>Where they differ: a thread that locks a mutex it holds.\<close>

theorem windows_locks_agree_witness:
  "sched win_op [(0, Lock Glock), (0, Lock (Sock_sync 5)), (0, Unlock Glock), (1, Lock Glock)] (crits_of (\<lambda>_. None)) =
     Inr (Some (crits_of [Sock_sync 5 \<mapsto> 0, Glock \<mapsto> 1])) \<and>
   sched posix_op [(0, Lock Glock), (0, Lock Glock)] (\<lambda>_. None) = Inl Deadlock \<and>
   sched win_op [(0, Lock Glock), (0, Lock Glock), (1, Lock Glock)] (crits_of (\<lambda>_. None)) = Inr None"
  using windows_locks_agree [of "[(0, Lock Glock), (0, Lock (Sock_sync 5)), (0, Unlock Glock), (1, Lock Glock)]" "\<lambda>_. None"
      "Some [Sock_sync 5 \<mapsto> 0, Glock \<mapsto> 1]"]
  by (simp add: fun_eq_iff fsock_mutex_lock_win_def crits_of_def)

subsection \<open>The global lock on Windows\<close>

text \<open>
  \<open>nn_glock_initialised\<close> and \<open>nn_glock_cs\<close>. The exchange is atomic, and so is the initialisation; but other
  threads run between the two.
\<close>

record gwin =
  gl_initialised :: int
  gl_cs :: crit

definition glock_exchange :: "gwin \<Rightarrow> bool \<times> gwin" where
  "glock_exchange g = (if gl_initialised g = 0 then (True, g\<lparr>gl_initialised := 1\<rparr>) else (False, g))"

definition glock_prepare :: "gwin \<Rightarrow> gwin" where
  "glock_prepare g = g\<lparr>gl_cs := fsock_mutex_init_win (gl_cs g)\<rparr>"

text \<open>The functions, for a thread that nobody interrupts.\<close>

definition nn_glock_init :: "gwin \<Rightarrow> gwin" where
  "nn_glock_init g = (case glock_exchange g of (won, g1) \<Rightarrow> if won then glock_prepare g1 else g1)"

definition nn_glock_lock :: "nat \<Rightarrow> gwin \<Rightarrow> fault + gwin option" where
  "nn_glock_lock t g =
     (let g1 = nn_glock_init g
      in rbind (fsock_mutex_lock_win t (gl_cs g1)) (\<lambda>r. Inr (map_option (\<lambda>c. g1\<lparr>gl_cs := c\<rparr>) r)))"

definition nn_glock_unlock :: "nat \<Rightarrow> gwin \<Rightarrow> fault + gwin" where
  "nn_glock_unlock t g =
     (let g1 = nn_glock_init g
      in rbind (fsock_mutex_unlock_win t (gl_cs g1)) (\<lambda>c. Inr (g1\<lparr>gl_cs := c\<rparr>)))"

lemma glock_alone:
  "\<exists>g g'. nn_glock_lock t \<lparr>gl_initialised = 0, gl_cs = c\<rparr> = Inr (Some g) \<and> nn_glock_lock u g = Inr (if u = t then Some (g\<lparr>gl_cs := (gl_cs g)\<lparr>cs_count := 2\<rparr>\<rparr>) else None) \<and>
     nn_glock_unlock t g = Inr g' \<and> cs_owner (gl_cs g') = None"
  by (simp add: nn_glock_lock_def nn_glock_unlock_def nn_glock_init_def glock_exchange_def glock_prepare_def fsock_mutex_init_win_def
      fsock_mutex_lock_win_def fsock_mutex_unlock_win_def)

text \<open>Where a thread is: not in the lock, having won the exchange, past \<open>nn_glock_init\<close>, or holding the lock.\<close>

datatype gpc = Outside | Won | Entering | Inside

inductive glock_step :: "gwin \<times> (nat \<Rightarrow> gpc) \<Rightarrow> gwin \<times> (nat \<Rightarrow> gpc) \<Rightarrow> bool" where
  win: "pc t = Outside \<Longrightarrow> glock_exchange g = (True, g') \<Longrightarrow> glock_step (g, pc) (g', pc(t := Won))"
| lose: "pc t = Outside \<Longrightarrow> glock_exchange g = (False, g') \<Longrightarrow> glock_step (g, pc) (g', pc(t := Entering))"
| prepare: "pc t = Won \<Longrightarrow> glock_step (g, pc) (glock_prepare g, pc(t := Entering))"
| enter: "pc t = Entering \<Longrightarrow> fsock_mutex_lock_win t (gl_cs g) = Inr (Some c) \<Longrightarrow>
    glock_step (g, pc) (g\<lparr>gl_cs := c\<rparr>, pc(t := Inside))"
| leave: "pc t = Inside \<Longrightarrow> nn_glock_unlock t g = Inr g' \<Longrightarrow> glock_step (g, pc) (g', pc(t := Outside))"

inductive glock_reach :: "gwin \<times> (nat \<Rightarrow> gpc) \<Rightarrow> bool" where
  start: "glock_reach (\<lparr>gl_initialised = 0, gl_cs = \<lparr>cs_ready = False, cs_owner = None, cs_count = 0\<rparr>\<rparr>, \<lambda>_. Outside)"
| step: "glock_reach c \<Longrightarrow> glock_step c c' \<Longrightarrow> glock_reach c'"

text \<open>
  The invariant has three phases: nobody came, one thread is initialising while others may already wait to enter, and the
  initialised lock, whose owner is the one thread inside.
\<close>

datatype phase = Untouched | Making nat | Working

fun glock_phase :: "phase \<Rightarrow> gwin \<times> (nat \<Rightarrow> gpc) \<Rightarrow> bool" where
  "glock_phase Untouched (g, pc) \<longleftrightarrow> gl_initialised g = 0 \<and> \<not> cs_ready (gl_cs g) \<and> (\<forall>t. pc t = Outside)"
| "glock_phase (Making u) (g, pc) \<longleftrightarrow> gl_initialised g = 1 \<and> \<not> cs_ready (gl_cs g) \<and> pc u = Won \<and>
     (\<forall>t. t \<noteq> u \<longrightarrow> pc t = Outside \<or> pc t = Entering)"
| "glock_phase Working (g, pc) \<longleftrightarrow> gl_initialised g = 1 \<and> cs_ready (gl_cs g) \<and> (\<forall>t. pc t \<noteq> Won) \<and>
     (\<forall>t. pc t = Inside \<longleftrightarrow> cs_owner (gl_cs g) = Some t) \<and> (cs_owner (gl_cs g) \<noteq> None \<longrightarrow> cs_count (gl_cs g) = 1)"

lemma glock_phase_at:
  assumes ph: "glock_phase ph (g, pc)" and at: "pc t = Won \<or> pc t = Inside"
  shows "ph = (if pc t = Won then Making t else Working)"
proof (cases ph)
  case Untouched
  then have "pc t = Outside" using ph by simp
  then show ?thesis using at by simp
next
  case (Making u)
  then have u: "pc u = Won" "t \<noteq> u \<longrightarrow> pc t = Outside \<or> pc t = Entering" using ph by simp_all
  then show ?thesis using at Making by (cases "t = u") auto
next
  case Working
  then have "pc t \<noteq> Won" using ph by simp
  then show ?thesis using Working by simp
qed

lemma glock_step_phase: "glock_step c c' \<Longrightarrow> glock_phase ph c \<Longrightarrow> \<exists>ph'. glock_phase ph' c'"
proof (induction rule: glock_step.induct)
  case (win pc t g g')
  then have "glock_phase (Making t) (g', pc(t := Won))" by (cases ph) (auto simp: glock_exchange_def split: if_splits)
  then show ?case by blast
next
  case (lose pc t g g')
  then have "glock_phase ph (g', pc(t := Entering))"
    by (cases ph) (auto simp: glock_exchange_def split: if_splits, metis gpc.distinct)
  then show ?case by blast
next
  case (prepare pc t g)
  then have "ph = Making t" using glock_phase_at [of ph g pc t] by simp
  with prepare have "glock_phase Working (glock_prepare g, pc(t := Entering))"
    by (auto simp: glock_prepare_def fsock_mutex_init_win_def)
  then show ?case by blast
next
  case (enter pc t g c)
  have "cs_owner (gl_cs g) \<noteq> Some t" if "ph = Working"
  proof -
    have "pc t = Inside \<longleftrightarrow> cs_owner (gl_cs g) = Some t" using enter.prems that by simp
    then show ?thesis using enter.hyps(1) by simp
  qed
  with enter have "glock_phase Working (g\<lparr>gl_cs := c\<rparr>, pc(t := Inside))"
    by (cases ph) (auto simp: fsock_mutex_lock_win_def split: option.splits if_splits)
  then show ?case by blast
next
  case (leave pc t g g')
  then have "ph = Working" using glock_phase_at [of ph g pc t] by simp
  with leave have "glock_phase Working (g', pc(t := Outside))"
    by (auto simp: nn_glock_unlock_def nn_glock_init_def glock_exchange_def fsock_mutex_unlock_win_def fault_iff Let_def)
  then show ?case by blast
qed

lemma glock_reach_phase: "glock_reach c \<Longrightarrow> \<exists>ph. glock_phase ph c"
proof (induction rule: glock_reach.induct)
  case start
  show ?case by (rule exI [of _ Untouched]) simp
next
  case (step c c')
  then show ?case using glock_step_phase by blast
qed

text \<open>
  C25: the global lock on Windows lets at most one thread in and its release never fails; a thread enters a critical
  section that was not initialised only while another one is between the exchange and the initialisation.
\<close>

theorem glock_win_window:
  assumes "glock_reach (g, pc)"
  shows "(pc t = Inside \<longrightarrow> pc u = Inside \<longrightarrow> t = u) \<and> (pc t = Inside \<longrightarrow> (\<exists>g'. nn_glock_unlock t g = Inr g')) \<and>
    (pc t = Entering \<longrightarrow> fsock_mutex_lock_win t (gl_cs g) = Inl f \<longrightarrow> (\<exists>u. u \<noteq> t \<and> pc u = Won))"
proof -
  obtain ph where ph: "glock_phase ph (g, pc)" using glock_reach_phase [OF assms] by blast
  show ?thesis
  proof (cases ph)
    case (Making v)
    have "pc x \<noteq> Inside" for x using glock_phase_at [OF ph, of x] Making by auto
    moreover have "pc t = Entering \<longrightarrow> v \<noteq> t \<and> pc v = Won" using ph Making by auto
    ultimately show ?thesis by blast
  next
    case Working
    then show ?thesis using ph
      by (auto simp: fsock_mutex_lock_win_def nn_glock_unlock_def nn_glock_init_def glock_exchange_def fsock_mutex_unlock_win_def
          split: option.splits if_splits)
  qed (use ph in auto)
qed

text \<open>Two threads are enough: the second one finds the flag set and enters before the first has initialised.\<close>

lemma glock_raced:
  "\<exists>g pc. glock_reach (g, pc) \<and> pc 1 = Entering \<and> pc 0 = Won \<and> fsock_mutex_lock_win 1 (gl_cs g) = Inl UninitRead"
proof -
  let ?c = "\<lparr>cs_ready = False, cs_owner = None, cs_count = 0\<rparr>"
  have "glock_reach (\<lparr>gl_initialised = 1, gl_cs = ?c\<rparr>, (\<lambda>_. Outside)(0 := Won))"
    by (rule glock_reach.step [OF glock_reach.start glock_step.win]) (simp_all add: glock_exchange_def)
  then have "glock_reach (\<lparr>gl_initialised = 1, gl_cs = ?c\<rparr>, (\<lambda>_. Outside)(0 := Won, 1 := Entering))"
    by (rule glock_reach.step [OF _ glock_step.lose]) (simp_all add: glock_exchange_def)
  then show ?thesis by (intro exI conjI) (assumption, simp_all add: fsock_mutex_lock_win_def)
qed

theorem glock_win_window_witness:
  "\<exists>g pc. glock_reach (g, pc) \<and> fsock_mutex_lock_win 1 (gl_cs g) = Inl UninitRead \<and> (\<exists>u. u \<noteq> 1 \<and> pc u = Won)"
proof -
  obtain g pc where c: "glock_reach (g, pc)" "pc 1 = Entering" "fsock_mutex_lock_win 1 (gl_cs g) = Inl UninitRead"
    using glock_raced by blast
  then show ?thesis using glock_win_window [OF c(1), of 1 1 UninitRead] by blast
qed

end
