(* ===== verification/Wakeup.thy ===== *)
theory Wakeup
  imports Flow
begin

text \<open>
  The protocol by which a reader that sleeps in \<open>fsock_get_event\<close> is woken by the handlers that run in
  the worker threads. \<open>fsock_get_event\<close> is cut into the sections it runs under the mutex of the
  socket, or between two such sections; the sections of one reader and those of the workers
  are then interleaved in any order.
\<close>

subsection \<open>The sections of fsock_get_event\<close>

datatype 'w entered = Done "item option" 'w | Sleep 'w

text \<open>From the entry to the first unlock.\<close>

definition ge_enter :: "nat \<Rightarrow> 32 word \<Rightarrow> 'x world \<Rightarrow> fault + 'x world entered" where
  "ge_enter a flags w =
     rbind (sock_at w a) (\<lambda>sock.
     rbind (assert_that (s_type sock = FSOCK_SOCK_BASE)) (\<lambda>_.
     rbind (fsock_mutex_lock (Sock_sync a) w) (\<lambda>w1.
     if \<not> fsock_queue_empty (s_events sock) then rbind (get_event_pop a w1) (\<lambda>(it, w2). Inr (Done it w2))
     else if flags AND FSOCK_DONWAIT \<noteq> 0
     then rbind (fsock_mutex_unlock (Sock_sync a) w1) (\<lambda>w2. Inr (Done None w2))
     else rbind (fsock_mutex_unlock (Sock_sync a) (sock_put a (sock\<lparr>s_want_efd := 1\<rparr>) w1)) (\<lambda>w2. Inr (Sleep w2)))))"

text \<open>After the wait: the signal is taken (\<open>sock_efd_unsignal\<close>), then the event.\<close>

definition ge_take :: "nat \<Rightarrow> 'x world \<Rightarrow> fault + (item option \<times> 'x world)" where
  "ge_take a w = rbind (fsock_mutex_lock (Sock_sync a) w) (get_event_pop a)"

lemma get_event_sections:
  "fsock_get_event wait s flags w =
     rbind (parr_ptr (g_socks w) s) (\<lambda>a.
     rbind (ge_enter a flags w) (\<lambda>r.
     case r of Done it w2 \<Rightarrow> Inr (it, w2)
     | Sleep w2 \<Rightarrow>
         rbind (sock_efd_wait a wait w2) (\<lambda>(rc, w3).
         if rc = - c_ETIMEDOUT then Inr (None, set_errno ETIMEDOUT w3)
         else rbind (assert_that (rc = 0)) (\<lambda>_. rbind (sock_efd_unsignal a w3) (ge_take a)))))"
  by (simp add: fsock_get_event_def ge_enter_def ge_take_def [abs_def] rbind_assoc rbind_Inr_right split_def if_distrib [of "\<lambda>m. rbind m f" for f]
      cong: if_cong)

subsection \<open>What the sections do to the socket\<close>

lemma parr_fold_from_keeps:
  "parr_fold_from body p it s = Inr s' \<Longrightarrow> (\<And>i e s b s'. body i e s = Inr (b, s') \<Longrightarrow> f s' = f s) \<Longrightarrow> f s' = f s"
proof (induction body p it s rule: parr_fold_from.induct)
  case (1 body p it s)
  note run = "1.prems"(1) [unfolded parr_fold_from.simps [of body p it]]
  obtain e0 i where it: "it = (e0, i)" by (cases it)
  show ?case
  proof (cases e0)
    case None
    then show ?thesis using run it by simp
  next
    case (Some e)
    then obtain go s1 where body: "body i e s = Inr (go, s1)" using run it by (auto simp: fault_iff)
    have same: "f s1 = f s" by (rule "1.prems"(2) [OF body])
    show ?thesis
    proof (cases go)
      case True
      then obtain it1 where it1: "fsock_parr_next p i = Inr it1" "parr_fold_from body p it1 s1 = Inr s'"
        using run it Some body by (auto simp: fault_iff)
      have "f s' = f s1"
        by (rule "1.IH" [OF it [symmetric] Some body refl _ it1]) (use True "1.prems"(2) in auto)
      then show ?thesis using same by simp
    qed (use run it Some body same in simp)
  qed
qed

definition outside :: "'x world \<Rightarrow> (nat \<Rightarrow> 'x sock option) \<times> nat parr" where
  "outside w = (w_heap w, g_socks w)"

lemma bulk_schedule_one_outside: "bulk_schedule_one field other c w = Inr w' \<Longrightarrow> outside w' = outside w"
  by (auto simp: bulk_schedule_one_def fault_iff fsock_thread_schedule_task_unsafe_def thread_push_def thread_remove_def
      thread_put_def outside_def split: if_splits prod.splits)

lemma lock_outside:
  "fsock_mutex_lock l w = Inr w' \<Longrightarrow> outside w' = outside w" "fsock_mutex_unlock l w = Inr w' \<Longrightarrow> outside w' = outside w"
  by (auto simp: fsock_mutex_lock_def fsock_mutex_unlock_def outside_def split: if_splits)

lemma for_each_outside:
  "for_each f is w = Inr w' \<Longrightarrow> (\<And>i w w'. f i w = Inr w' \<Longrightarrow> outside w' = outside w) \<Longrightarrow> outside w' = outside w"
proof (induction "is" arbitrary: w)
  case (Cons i "is")
  then obtain w1 where "f i w = Inr w1" "for_each f is w1 = Inr w'" by (auto simp: fault_iff)
  with Cons.IH [of w1] Cons.prems(2) [of i w w1] Cons.prems(2) show ?case by simp
qed simp

lemma bulk_schedule_outside:
  assumes "bulk_schedule a field other w = Inr w'"
  shows "outside w' = outside w"
proof -
  obtain w1 w2 w3 where *: "fsock_workers_lock w = Inr w1" "fsock_sock_bulk_schedule_unsafe a field other w1 = Inr w2"
      "fsock_workers_unlock w2 = Inr w3" "fsock_workers_signal w3 = Inr w'"
    using assms by (auto simp: bulk_schedule_def fault_iff)
  have "outside w1 = outside w" using *(1) unfolding fsock_workers_lock_def by (rule for_each_outside) (rule lock_outside)
  moreover have "outside w2 = outside w1"
    using *(2) bulk_schedule_one_outside
    by (auto simp: fsock_sock_bulk_schedule_unsafe_def parr_fold_def fault_iff elim!: parr_fold_from_keeps [where f = outside])
  moreover have "outside w3 = outside w2" using *(3) unfolding fsock_workers_unlock_def by (rule for_each_outside) (rule lock_outside)
  moreover have "outside w' = outside w3"
    using *(4) unfolding fsock_workers_signal_def
    by (rule for_each_outside)
      (auto simp: fsock_thread_schedule_task_signal_def thread_wake_def fault_iff log_eff_def outside_def split: if_splits)
  ultimately show ?thesis by simp
qed

text \<open>
  What the protocol depends on: whether there is no event, the flag \<open>want_efd\<close>, the counter of the
  eventfd, and that the socket has one.
\<close>

definition hdr_ok :: "item queue \<Rightarrow> bool" where
  "hdr_ok q \<longleftrightarrow> (q_head q = Null \<longrightarrow> q_tail q = Null)"

definition waiter :: "'x world \<Rightarrow> nat \<Rightarrow> bool \<Rightarrow> int \<Rightarrow> nat \<Rightarrow> bool" where
  "waiter w a em want sigs \<longleftrightarrow> (\<exists>s. w_heap w a = Some s \<and> s_type s = FSOCK_SOCK_BASE \<and> 0 \<le> s_efd s \<and> hdr_ok (s_events s) \<and>
     fsock_queue_empty (s_events s) = em \<and> s_want_efd s = want \<and> s_sigs s = sigs)"

lemma waiter_outside: "waiter w a e n g \<Longrightarrow> outside w' = outside w \<Longrightarrow> waiter w' a e n g"
  by (simp add: waiter_def outside_def)

lemma unlock_free: "fsock_mutex_unlock l w = Inr w' \<Longrightarrow> l \<notin> w_held w'"
  by (auto simp: fsock_mutex_unlock_def split: if_splits)

lemma splice_fills:
  "queue_splice n q l = Inr (n', q') \<Longrightarrow> hdr_ok q \<Longrightarrow> q_head l \<noteq> Null \<Longrightarrow> q_head q' \<noteq> Null"
  by (auto simp: queue_splice_def hdr_ok_def split: link.splits)

lemma append_waiter:
  assumes "read_append a q w = Inr w'" "waiter w a e n g" "q_head q \<noteq> Null"
  shows "waiter w' a False (if n = 1 then 0 else n) (if n = 1 then Suc g else g) \<and> g_socks w' = g_socks w"
proof -
  obtain s where s: "w_heap w a = Some s" "hdr_ok (s_events s)" using assms(2) by (auto simp: waiter_def)
  then obtain m ev where ev: "queue_splice (w_next w) (s_events s) q = Inr (m, ev)"
    using assms(1) by (auto simp: read_append_def sock_at_def fault_iff)
  have "q_head ev \<noteq> Null" by (rule splice_fills [OF ev s(2) assms(3)])
  then show ?thesis
    using assms(1,2) s ev
    by (auto simp: read_append_def sock_at_def waiter_def sock_efd_signal_def sock_upd_def sock_put_def log_eff_def
        hdr_ok_def fsock_queue_empty_def split: if_splits)
qed

lemma put_waiter:
  "waiter w a e n g \<Longrightarrow> w_heap w a = Some s \<Longrightarrow> s_type s' = s_type s \<Longrightarrow> s_efd s' = s_efd s \<Longrightarrow> s_events s' = s_events s \<Longrightarrow>
    s_want_efd s' = s_want_efd s \<Longrightarrow> s_sigs s' = s_sigs s \<Longrightarrow> waiter (sock_put a s' w) a e n g"
  by (simp add: waiter_def sock_put_def)

lemma bulk_waiter:
  assumes run: "(if c then bulk_schedule a k k' (sock_put a s' w) else Inr w) = Inr w'"
    and s: "w_heap w a = Some s" "s' = s\<lparr>s_reading := x\<rparr>" and w: "waiter w a e n g"
  shows "waiter w' a e n g \<and> g_socks w' = g_socks w"
proof (cases c)
  case True
  then have out: "outside w' = outside (sock_put a s' w)" using run bulk_schedule_outside by simp
  have "waiter (sock_put a s' w) a e n g" by (rule put_waiter [OF w s(1)]) (simp_all add: s(2))
  from waiter_outside [OF this out] out show ?thesis by (simp add: outside_def sock_put_def)
qed (use run w in simp)

lemma waiter_same: "outside w' = outside w \<Longrightarrow> waiter w a e n g \<Longrightarrow> waiter w' a e n g \<and> g_socks w' = g_socks w"
  by (simp add: waiter_def outside_def)

lemma unlock_waiter:
  "fsock_mutex_unlock l w = Inr w' \<Longrightarrow> waiter w a e n g \<Longrightarrow> waiter w' a e n g \<and> g_socks w' = g_socks w"
  "fsock_mutex_lock l w = Inr w' \<Longrightarrow> waiter w a e n g \<Longrightarrow> waiter w' a e n g \<and> g_socks w' = g_socks w"
  using waiter_same [OF lock_outside(2)] waiter_same [OF lock_outside(1)] by blast+

lemma deliver_waiter:
  assumes run: "read_deliver a q cnt w = Inr w'" and w: "waiter w a e n g" and q: "0 < cnt \<longrightarrow> q_head q \<noteq> Null"
  shows "(if 0 < cnt then waiter w' a False (if n = 1 then 0 else n) (if n = 1 then Suc g else g) else waiter w' a e n g) \<and>
    g_socks w' = g_socks w \<and> Sock_sync a \<notin> w_held w'"
proof -
  obtain s where s: "w_heap w a = Some s" using w by (auto simp: waiter_def)
  obtain w1 where w1: "fsock_mutex_lock (Sock_sync a) w = Inr w1" using run by (auto simp: read_deliver_def fault_iff)
  note o1 = lock_outside(1) [OF w1]
  have s1: "w_heap w1 a = Some s" and wt1: "waiter w1 a e n g" using s o1 waiter_outside [OF w o1] by (auto simp: outside_def)
  define w2 where "w2 = sock_put a (s\<lparr>s_rcvqsz := s_rcvqsz s + cnt\<rparr>) w1"
  have wt2: "waiter w2 a e n g" "g_socks w2 = g_socks w"
    using put_waiter [OF wt1 s1] o1 by (simp_all add: w2_def sock_put_def outside_def)
  let ?w2 = "sock_put a (s\<lparr>s_rcvqsz := s_rcvqsz s + cnt\<rparr>) w1"
  obtain w3 s3 w4 where run0: "(if cnt > 0 then read_append a q ?w2 else Inr ?w2) = Inr w3" and run3: "w_heap w3 a = Some s3"
      "(if s_rcvhwm s3 > 0 \<and> s_rcvhwm s3 < s_rcvqsz s3
        then bulk_schedule a STOP_READ START_READ (sock_put a (s3\<lparr>s_reading := FSOCK_SOCK_STOP_OP\<rparr>) w3) else Inr w3) = Inr w4"
      "fsock_mutex_unlock (Sock_sync a) w4 = Inr w'"
    using run w1 s1 unfolding read_deliver_def
    by (auto simp: fault_iff sock_at_def Let_def split: option.splits)
  define e' n' g' where "e' = (if 0 < cnt then False else e)" and "n' = (if 0 < cnt \<and> n = 1 then 0 else n)"
    and "g' = (if 0 < cnt \<and> n = 1 then Suc g else g)"
  note new = e'_def n'_def g'_def
  have wt3: "waiter w3 a e' n' g'" "g_socks w3 = g_socks w"
    using run0 [folded w2_def] wt2 q append_waiter [OF _ wt2(1), of q w3] by (auto simp: new split: if_splits)
  have wt4: "waiter w4 a e' n' g' \<and> g_socks w4 = g_socks w3" by (rule bulk_waiter [OF run3(2) run3(1) refl wt3(1)])
  then have "waiter w' a e' n' g' \<and> g_socks w' = g_socks w4" using unlock_waiter(1) [OF run3(3)] by blast
  then show ?thesis using wt3(2) wt4 unlock_free [OF run3(3)] by (cases "0 < cnt"; cases "n = 1") (simp_all add: new)
qed


lemma pop_waiter:
  assumes run: "get_event_pop a w = Inr (it, w')" and w: "waiter w a e n g"
  shows "\<not> e \<and> it \<noteq> None \<and> (\<exists>e'. waiter w' a e' n g) \<and> g_socks w' = g_socks w \<and> Sock_sync a \<notin> w_held w'"
proof -
  obtain s where s: "w_heap w a = Some s" using w by (auto simp: waiter_def)
  obtain it' m q where pop: "fsock_queue_pop (w_next w) (s_events s) = Inr (it', m, q)" "\<not> fsock_queue_empty (s_events s)"
    using run s by (auto simp: get_event_pop_def fault_iff sock_at_def)
  let ?s1 = "s\<lparr>s_events := q, s_rcvqsz := s_rcvqsz s - 1\<rparr>"
  let ?w1 = "sock_put a ?s1 (w\<lparr>w_next := m\<rparr>)"
  obtain w2 where rest: "it' \<noteq> None" "it = it'"
      "(if s_rcvhwm ?s1 > 0 \<and> s_reading ?s1 = FSOCK_SOCK_STOP_OP \<and> s_rcvqsz ?s1 < s_rcvhwm ?s1
        then bulk_schedule a START_READ STOP_READ (sock_put a (?s1\<lparr>s_reading := 0\<rparr>) ?w1) else Inr ?w1) = Inr w2"
      "fsock_mutex_unlock (Sock_sync a) w2 = Inr w'"
    using run s pop by (auto simp: get_event_pop_def fault_iff sock_at_def Let_def)
  have "hdr_ok q" using pop by (auto simp: fsock_queue_pop_def fsock_queue_empty_def hdr_ok_def Let_def split: link.splits if_splits)
  then have w1: "waiter ?w1 a (fsock_queue_empty q) n g" "w_heap ?w1 a = Some ?s1"
    using w s by (auto simp: waiter_def sock_put_def)
  have w2: "waiter w2 a (fsock_queue_empty q) n g \<and> g_socks w2 = g_socks ?w1"
    by (rule bulk_waiter [OF rest(3) w1(2) refl w1(1)])
  note w' = unlock_waiter(1) [OF rest(4) conjunct1 [OF w2]]
  have "g_socks w' = g_socks w" using w' w2 by (simp add: sock_put_def)
  moreover have "\<not> e" using w s pop(2) by (auto simp: waiter_def)
  ultimately show ?thesis using rest(1,2) unlock_free [OF rest(4)] w' by blast
qed

lemma enter_waiter:
  assumes run: "ge_enter a flags w = Inr r" and w: "waiter w a e n g"
  shows "(\<exists>it w'. r = Done it w' \<and> (\<exists>e'. waiter w' a e' n g) \<and> g_socks w' = g_socks w \<and> Sock_sync a \<notin> w_held w' \<and> (it = None \<longrightarrow> e \<and> flags AND FSOCK_DONWAIT \<noteq> 0)) \<or>
    (\<exists>w'. r = Sleep w' \<and> e \<and> waiter w' a True 1 g \<and> g_socks w' = g_socks w \<and> Sock_sync a \<notin> w_held w')"
proof -
  obtain s where s: "w_heap w a = Some s" "fsock_queue_empty (s_events s) = e" using w by (auto simp: waiter_def)
  obtain w1 where w1: "fsock_mutex_lock (Sock_sync a) w = Inr w1" using run by (auto simp: ge_enter_def fault_iff)
  have s1: "w_heap w1 a = Some s" using lock_outside(1) [OF w1] s by (simp add: outside_def)
  have wt1: "waiter w1 a e n g \<and> g_socks w1 = g_socks w" using unlock_waiter(2) [OF w1 w] .
  let ?w2 = "sock_put a (s\<lparr>s_want_efd := 1\<rparr>) w1"
  consider it w' where "\<not> e" "get_event_pop a w1 = Inr (it, w')" "r = Done it w'"
    | w' where "e" "flags AND FSOCK_DONWAIT \<noteq> 0" "fsock_mutex_unlock (Sock_sync a) w1 = Inr w'" "r = Done None w'"
    | w' where "e" "fsock_mutex_unlock (Sock_sync a) ?w2 = Inr w'" "r = Sleep w'"
    using run s w1 by (auto simp: ge_enter_def fault_iff sock_at_def split: if_splits)
  then show ?thesis
  proof cases
    case 1
    then show ?thesis using pop_waiter [OF 1(2)] wt1 by auto
  next
    case 2
    then show ?thesis using unlock_waiter(1) [OF 2(3) conjunct1 [OF wt1]] unlock_free [OF 2(3)] wt1 by auto
  next
    case 3
    have "waiter ?w2 a True 1 g" using wt1 s1 3(1) by (auto simp: waiter_def sock_put_def)
    from unlock_waiter(1) [OF 3(2) this] show ?thesis using unlock_free [OF 3(2)] wt1 3 by (auto simp: sock_put_def)
  qed
qed

subsection \<open>One reader and the workers\<close>

text \<open>
  Where the reader is: outside a call, asleep in the wait, woken, or about to take the event. The steps
  are its sections, the deliveries of the read handlers, and anything else that leaves alone
  what the protocol depends on. \<open>late\<close> says whether the wait may time out.
\<close>

datatype stage = Ready | Asleep | Roused | Taking

definition elsewhere :: "nat \<Rightarrow> 'x world \<Rightarrow> 'x world \<Rightarrow> bool" where
  "elsewhere a w w' \<longleftrightarrow> (\<forall>e n g. waiter w a e n g \<longrightarrow> waiter w' a e n g)"

inductive wait_step :: "nat \<Rightarrow> bool \<Rightarrow> stage \<times> 'x world \<Rightarrow> stage \<times> 'x world \<Rightarrow> bool" for a late where
  enter_done: "ge_enter a flags w = Inr (Done it w') \<Longrightarrow> wait_step a late (Ready, w) (Ready, w')"
| enter_sleep: "ge_enter a flags w = Inr (Sleep w') \<Longrightarrow> wait_step a late (Ready, w) (Asleep, w')"
| wake: "waiter w a e n g \<Longrightarrow> g \<noteq> 0 \<Longrightarrow> wait_step a late (Asleep, w) (Roused, w)"
| timeout: "late \<Longrightarrow> wait_step a late (Asleep, w) (Ready, set_errno ETIMEDOUT w)"
| unsignal: "sock_efd_unsignal a w = Inr w' \<Longrightarrow> wait_step a late (Roused, w) (Taking, w')"
| take: "ge_take a w = Inr (it, w') \<Longrightarrow> wait_step a late (Taking, w) (Ready, w')"
| deliver: "read_deliver a q cnt w = Inr w' \<Longrightarrow> (0 < cnt \<longrightarrow> q_head q \<noteq> Null) \<Longrightarrow> wait_step a late (st, w) (st, w')"
| other: "elsewhere a w w' \<Longrightarrow> wait_step a late (st, w) (st, w')"


inductive_cases wait_stepE: "wait_step a late (st, w) c'"




lemma unsignal_waiter:
  "waiter w a e n g \<Longrightarrow> sock_efd_unsignal a w = Inr w' \<Longrightarrow> g \<noteq> 0 \<and> waiter w' a e n 0"
  by (auto simp: waiter_def sock_efd_unsignal_def sock_at_def sock_put_def fault_iff)

lemma take_waiter:
  assumes "ge_take a w = Inr (it, w')" "waiter w a e n g"
  shows "\<not> e \<and> (\<exists>e'. waiter w' a e' n g)"
proof -
  obtain w1 where "fsock_mutex_lock (Sock_sync a) w = Inr w1" "get_event_pop a w1 = Inr (it, w')"
    using assms(1) by (auto simp: ge_take_def fault_iff)
  then show ?thesis using unlock_waiter(2) [OF _ assms(2)] pop_waiter by blast
qed



lemma sock_at_iff: "sock_at w a = Inr s \<longleftrightarrow> w_heap w a = Some s"
  by (auto simp: sock_at_def split: option.splits)

text \<open>
  Other operations on the same socket are such steps: the accounts of a sender and of the
  write handler, and the tasks of the socket.
\<close>

lemma elsewhere_put:
  "w_heap w b = Some s \<Longrightarrow> s_type s' = s_type s \<Longrightarrow> s_efd s' = s_efd s \<Longrightarrow> s_events s' = s_events s \<Longrightarrow>
    s_want_efd s' = s_want_efd s \<Longrightarrow> s_sigs s' = s_sigs s \<Longrightarrow> w_heap w' = (w_heap w)(b \<mapsto> s') \<Longrightarrow> elsewhere a w w'"
  by (auto simp: elsewhere_def waiter_def)

lemma lock_if_heap:
  "lock_if b a w = Inr w' \<Longrightarrow> w_heap w' = w_heap w" "unlock_if b a w = Inr w' \<Longrightarrow> w_heap w' = w_heap w"
  using lock_outside(1) [of "Sock_sync a" w w'] lock_outside(2) [of "Sock_sync a" w w']
  by (auto simp: lock_if_def unlock_if_def outside_def split: if_splits)

lemma send_account_elsewhere:
  assumes "send_account canlock a w = Inr w'"
  shows "elsewhere b w w'"
proof -
  obtain w1 s s' where *: "lock_if canlock a w = Inr w1" "w_heap w1 a = Some s" "unlock_if canlock a (sock_put a s' w1) = Inr w'"
      "s_type s' = s_type s" "s_efd s' = s_efd s" "s_events s' = s_events s" "s_want_efd s' = s_want_efd s" "s_sigs s' = s_sigs s"
    using assms by (auto simp: send_account_def fault_iff sock_at_iff Let_def split: if_splits)
  then show ?thesis
    using lock_if_heap(1) [OF *(1)] lock_if_heap(2) [OF *(3)] by (intro elsewhere_put [of w a s s']) (simp_all add: sock_put_def)
qed

lemma write_account_elsewhere:
  assumes "write_account a removed w = Inr w'"
  shows "elsewhere b w w'"
proof -
  obtain w1 s where 1: "fsock_mutex_lock (Sock_sync a) w = Inr w1" "w_heap w1 a = Some s"
    using assms by (auto simp: write_account_def fault_iff sock_at_iff)
  define room where "room \<longleftrightarrow> s_sndhwm s > 0 \<and> s_writing s = FSOCK_SOCK_STOP_OP \<and> s_sndqsz s - removed < s_sndhwm s"
  define bc where "bc \<longleftrightarrow> room \<and> s_want_wcond s \<noteq> 0"
  define s2 where "s2 = (if room then s\<lparr>s_sndqsz := s_sndqsz s - removed\<rparr>\<lparr>s_writing := 0\<rparr> else s\<lparr>s_sndqsz := s_sndqsz s - removed\<rparr>)"
  define s3 where "s3 = (if bc then s2\<lparr>s_want_wcond := 0\<rparr> else s2)"
  obtain w2 where 2: "fsock_mutex_unlock (Sock_sync a) (sock_put a s3 w1) = Inr w2" "w' = (if bc then log_eff (Cond_broadcast a) w2 else w2)"
    using assms 1 unfolding write_account_def Let_def
    by (auto simp only: fault_iff sock_at_iff rbind_Inr room_def [symmetric] bc_def [symmetric] s2_def [symmetric] s3_def [symmetric])
  have "w_heap w' = (w_heap w)(a \<mapsto> s3)"
    using lock_outside(1) [OF 1(1)] lock_outside(2) [OF 2(1)] 2(2) by (simp add: outside_def sock_put_def log_eff_def)
  moreover have "w_heap w a = Some s" using lock_outside(1) [OF 1(1)] 1(2) by (simp add: outside_def)
  ultimately show ?thesis by (intro elsewhere_put [of w a s s3]) (simp_all add: s3_def s2_def)
qed

subsection \<open>A wait that timed out\<close>

text \<open>The wait on an eventfd whose counter the kernel reports truthfully.\<close>

definition poll_efd :: "nat \<Rightarrow> 'x world \<Rightarrow> int \<times> 'x world" where
  "poll_efd a w = (if s_sigs (the (w_heap w a)) = 0 then - c_ETIMEDOUT else 0, w)"

lemma poll_waiter:
  "waiter w a e n g \<Longrightarrow> sock_efd_wait a (poll_efd a) w = Inr (if g = 0 then - c_ETIMEDOUT else 0, w)"
  by (auto simp: waiter_def sock_efd_wait_def sock_at_def poll_efd_def)

lemma enter_empty:
  assumes w: "waiter w a True n g" and free: "Sock_sync a \<notin> w_held w"
  obtains w' where "ge_enter a 0 w = Inr (Sleep w')" "waiter w' a True 1 g" "Sock_sync a \<notin> w_held w'"
proof -
  obtain s where s: "w_heap w a = Some s" "s_type s = FSOCK_SOCK_BASE" "fsock_queue_empty (s_events s)"
    using w by (auto simp: waiter_def)
  let ?wl = "w\<lparr>w_held := insert (Sock_sync a) (w_held w)\<rparr>"
  have "fsock_mutex_lock (Sock_sync a) w = Inr ?wl" using free s by (intro mutex_lock_ok) (simp_all add: lock_exists_def)
  moreover have "fsock_mutex_unlock (Sock_sync a) (sock_put a (s\<lparr>s_want_efd := 1\<rparr>) ?wl) = Inr (sock_put a (s\<lparr>s_want_efd := 1\<rparr>) w)"
    using free by (subst mutex_unlock_ok [of _ _ "w_held w"]) (simp_all add: lock_exists_def sock_put_def)
  ultimately have run: "ge_enter a 0 w = Inr (Sleep (sock_put a (s\<lparr>s_want_efd := 1\<rparr>) w))"
    using s by (simp add: ge_enter_def sock_at_def)
  show ?thesis
    by (rule that [OF run]) (use w s free in \<open>auto simp: waiter_def sock_put_def\<close>)
qed

lemma take_empty:
  assumes "waiter w a True n g" "Sock_sync a \<notin> w_held w"
  shows "ge_take a w = Inl Abort"
proof -
  obtain s where s: "w_heap w a = Some s" "fsock_queue_empty (s_events s)" using assms(1) by (auto simp: waiter_def)
  have "fsock_mutex_lock (Sock_sync a) w = Inr (w\<lparr>w_held := insert (Sock_sync a) (w_held w)\<rparr>)"
    using assms(2) s by (intro mutex_lock_ok) (simp_all add: lock_exists_def)
  then show ?thesis using s by (simp add: ge_take_def get_event_pop_def sock_at_def)
qed

text \<open>A stale signal wakes the next reader of an empty socket, which finds no event.\<close>

lemma stale_signal_aborts:
  assumes w: "waiter w a True n g" "g \<noteq> 0" "Sock_sync a \<notin> w_held w" and s: "parr_ptr (g_socks w) s = Inr a"
  shows "fsock_get_event (poll_efd a) s 0 w = Inl Abort"
proof -
  obtain w1 where w1: "ge_enter a 0 w = Inr (Sleep w1)" "waiter w1 a True 1 g" "Sock_sync a \<notin> w_held w1"
    by (rule enter_empty [OF w(1,3)])
  obtain s1 where s1: "w_heap w1 a = Some s1" "s_sigs s1 = g" "0 \<le> s_efd s1" using w1(2) by (auto simp: waiter_def)
  then have un: "sock_efd_unsignal a w1 = Inr (sock_put a (s1\<lparr>s_sigs := 0\<rparr>) w1)"
    using w(2) by (simp add: sock_efd_unsignal_def sock_at_def)
  have "waiter (sock_put a (s1\<lparr>s_sigs := 0\<rparr>) w1) a True 1 0" using unsignal_waiter [OF w1(2) un] by simp
  then have "ge_take a (sock_put a (s1\<lparr>s_sigs := 0\<rparr>) w1) = Inl Abort"
    using w1(3) by (intro take_empty) (simp_all add: sock_put_def)
  then show ?thesis
    using s w1(1) un w(2) by (simp add: get_event_sections poll_waiter [OF w1(2)] c_ETIMEDOUT_def)
qed

subsection \<open>Properties\<close>


lemma sleep_iff: "(case r of Done it w \<Rightarrow> Inl f | Sleep w \<Rightarrow> g w) = Inr y \<longleftrightarrow> (\<exists>w. r = Sleep w \<and> g w = Inr y)"
  by (cases r) auto

definition one_event :: "item queue" where
  "one_event = \<lparr>q_head = Item (Event 2), q_tail = Item (Event 2)\<rparr>"


text \<open>
  C16: a wait that timed out leaves the request for a signal behind. The next event then signals although
  nobody sleeps; the call that takes the event does not take the signal; and when the queue is empty again
  the next call that waits is woken by it at once, finds no event, and ends the process.
\<close>

theorem timeout_then_abort:
  assumes "parr_ptr (g_socks w) s = Inr a" and "w_heap w a = Some s0" and "s_type s0 = FSOCK_SOCK_BASE" and "0 \<le> s_efd s0"
    and "s_events s0 = fsock_queue_init" and "s_sigs s0 = 0" and "Sock_sync a \<notin> w_held w"
    and "fsock_get_event (poll_efd a) s 0 w = Inr (it1, w1)"
    and "read_deliver a q cnt w1 = Inr w2" and "0 < cnt" and "q_head q \<noteq> Null"
    and "fsock_get_event (poll_efd a) s flags w2 = Inr (it2, w3)"
    and "w_heap w3 a = Some s3" and "fsock_queue_empty (s_events s3)"
  shows "it1 = None \<and> w_errno w1 = ETIMEDOUT \<and> it2 \<noteq> None \<and> fsock_get_event (poll_efd a) s 0 w3 = Inl Abort"
proof -
  have w: "waiter w a True (s_want_efd s0) 0"
    using assms(2-6) by (simp add: waiter_def hdr_ok_def fsock_queue_init_def fsock_queue_empty_def)
  obtain w' where w': "ge_enter a 0 w = Inr (Sleep w')" "waiter w' a True 1 0" by (rule enter_empty [OF w assms(7)])
  then have 1: "it1 = None" "w1 = set_errno ETIMEDOUT w'" and g1: "g_socks w1 = g_socks w"
    using assms(1,8) poll_waiter [OF w'(2)] enter_waiter [OF w'(1) w] by (auto simp: get_event_sections set_errno_def)
  have "waiter w1 a True 1 0" using w'(2) by (simp add: 1(2) set_errno_def waiter_def)
  from deliver_waiter [OF assms(9) this] assms(10,11) g1
  have 2: "waiter w2 a False 0 1" "g_socks w2 = g_socks w" by auto
  then obtain r where r: "ge_enter a flags w2 = Inr r" using assms(1,12) by (auto simp: get_event_sections fault_iff)
  obtain it w4 e' where "r = Done it w4" "waiter w4 a e' 0 1" "g_socks w4 = g_socks w2" "Sock_sync a \<notin> w_held w4" "it \<noteq> None"
    using enter_waiter [OF r 2(1)] by auto
  with r 2(2) assms(1,12) have 3: "waiter w3 a e' 0 1" "g_socks w3 = g_socks w" "Sock_sync a \<notin> w_held w3" "it2 \<noteq> None"
    by (auto simp: get_event_sections)
  then have "e'" using assms(13,14) by (simp add: waiter_def)
  then have "waiter w3 a True 0 1" using 3(1) by simp
  from stale_signal_aborts [OF this _ 3(3)] show ?thesis
    using 1 3(2,4) assms(1) by (simp add: set_errno_def)
qed


theorem timeout_then_abort_witness:
  "\<exists>w1 w2 it w3. fsock_get_event (poll_efd 0) 0 0 (example_local :: unit world) = Inr (None, w1) \<and>
    read_deliver 0 one_event 1 w1 = Inr w2 \<and> fsock_get_event (poll_efd 0) 0 0 w2 = Inr (Some it, w3) \<and>
    fsock_get_event (poll_efd 0) 0 0 w3 = Inl Abort"
proof -
  have "rbind (fsock_get_event (poll_efd 0) 0 0 (example_local :: unit world)) (\<lambda>(it1, w1).
      rbind (read_deliver 0 one_event 1 w1) (\<lambda>w2. rbind (fsock_get_event (poll_efd 0) 0 0 w2) (\<lambda>(it2, w3).
      rbind (sock_at w3 0) (\<lambda>s. assert_that (fsock_queue_empty (s_events s)))))) = Inr ()"
    by code_simp
  then obtain it1 w1 w2 it2 w3 s3 where run: "fsock_get_event (poll_efd 0) 0 0 (example_local :: unit world) = Inr (it1, w1)"
      "read_deliver 0 one_event 1 w1 = Inr w2" "fsock_get_event (poll_efd 0) 0 0 w2 = Inr (it2, w3)"
      "w_heap w3 0 = Some s3" "fsock_queue_empty (s_events s3)"
    by (auto simp: fault_iff sock_at_iff)
  have "parr_ptr (g_socks (example_local :: unit world)) 0 = Inr 0"
    by (simp add: example_local_def parr_ptr_def parr_read_def example_parr_def)
  from timeout_then_abort [OF this example_local_ready(3) _ _ _ _ _ run(1,2) _ _ run(3-5)] run
  show ?thesis by (auto simp: example_base_def example_sock_def example_local_ready(4) one_event_def)
qed

text \<open>
  C17: Two readers of one socket, both asleep, are both woken by the same signal, because the descriptor stays readable until
  the signal is taken. The one that takes it second finds none and the assertion of \<open>nn_efd_unsignal\<close> ends the
  process, however many events there are and whether or not the first reader has taken its event by then.
\<close>

theorem two_readers_abort:
  assumes "w_heap w a = Some s0" and "s_type s0 = FSOCK_SOCK_BASE" and "0 \<le> s_efd s0"
    and "s_events s0 = fsock_queue_init" and "s_sigs s0 = 0"
    and "ge_enter a f1 w = Inr (Sleep w1)" and "ge_enter a f2 w1 = Inr (Sleep w2)"
    and "read_deliver a q cnt w2 = Inr w3" and "0 < cnt" and "q_head q \<noteq> Null"
  shows "sock_efd_wait a (poll_efd a) w3 = Inr (0, w3) \<and>
    (\<exists>w4. sock_efd_unsignal a w3 = Inr w4 \<and> sock_efd_unsignal a w4 = Inl Abort \<and>
       (\<forall>it w5. ge_take a w4 = Inr (it, w5) \<longrightarrow> sock_efd_unsignal a w5 = Inl Abort))"
proof -
  have none: "sock_efd_unsignal a v = Inl Abort" if "waiter v a e n 0" for v e n
    using that by (auto simp: waiter_def sock_efd_unsignal_def sock_at_def)
  have w: "waiter w a True (s_want_efd s0) 0"
    using assms(1-5) by (simp add: waiter_def hdr_ok_def fsock_queue_init_def fsock_queue_empty_def)
  have w1: "waiter w1 a True 1 0" using enter_waiter [OF assms(6) w] by auto
  have w2: "waiter w2 a True 1 0" using enter_waiter [OF assms(7) w1] by auto
  have w3: "waiter w3 a False 0 1" using deliver_waiter [OF assms(8) w2] assms(9,10) by simp
  then obtain w4 where w4: "sock_efd_unsignal a w3 = Inr w4" by (auto simp: waiter_def sock_efd_unsignal_def sock_at_def)
  have "waiter w4 a False 0 0" using unsignal_waiter [OF w3 w4] by simp
  then show ?thesis using poll_waiter [OF w3] w4 none take_waiter by fastforce
qed

theorem two_readers_abort_witness:
  "\<exists>w1 w2 w3 w4. ge_enter 0 0 (example_local :: unit world) = Inr (Sleep w1) \<and> ge_enter 0 0 w1 = Inr (Sleep w2) \<and>
     read_deliver 0 one_event 1 w2 = Inr w3 \<and> sock_efd_unsignal 0 w3 = Inr w4 \<and> sock_efd_unsignal 0 w4 = Inl Abort"
proof -
  have "rbind (ge_enter 0 0 (example_local :: unit world)) (\<lambda>r. case r of Done it w1 \<Rightarrow> Inl Abort
      | Sleep w1 \<Rightarrow> rbind (ge_enter 0 0 w1) (\<lambda>r. case r of Done it w2 \<Rightarrow> Inl Abort
      | Sleep w2 \<Rightarrow> rbind (read_deliver 0 one_event 1 w2) (\<lambda>w3. Inr ()))) = Inr ()"
    by code_simp
  then obtain w1 w2 w3 where run: "ge_enter 0 0 (example_local :: unit world) = Inr (Sleep w1)" "ge_enter 0 0 w1 = Inr (Sleep w2)"
      "read_deliver 0 one_event 1 w2 = Inr w3"
    by (auto simp: fault_iff sock_at_iff sleep_iff)
  from two_readers_abort [OF example_local_ready(3) _ _ _ _ run] show ?thesis
    using run by (auto simp: example_base_def example_sock_def one_event_def)
qed

end
