(* ===== verification/Sleeping.thy ===== *)
theory Sleeping
  imports Wakeup Sending
begin

text \<open>
  How a sender that waits for room in \<open>fsock_send\<close> and the write handlers that make room depend on
  each other. \<open>fsock_send\<close> reads \<open>writing\<close> before it locks the mutex, so that the handler can run between the
  test and the wait: the sender's sections and those of the other threads are interleaved here.
\<close>

subsection \<open>The sections of the wait\<close>

text \<open>
  From the lock to the point at which \<open>pthread_cond_wait\<close> has given the mutex back: the caller waits.
\<close>

definition send_sleep :: "bool \<Rightarrow> nat \<Rightarrow> 'x world \<Rightarrow> fault + 'x world" where
  "send_sleep canlock a w =
     rbind (lock_if canlock a w) (\<lambda>w1.
     rbind (sock_upd a (\<lambda>s. s\<lparr>s_want_wcond := 1\<rparr>) w1) (\<lambda>w2.
     rbind (fsock_mutex_unlock (Sock_sync a) w2) (\<lambda>w3. Inr (log_eff (Cond_wait a) w3))))"

text \<open>The wait returns with the mutex held again.\<close>

definition send_wake :: "bool \<Rightarrow> nat \<Rightarrow> 'x world \<Rightarrow> fault + 'x world" where
  "send_wake canlock a w = rbind (fsock_mutex_lock (Sock_sync a) w) (unlock_if canlock a)"

lemma send_wait_sections:
  "send_wait others canlock a w =
     rbind (sock_at w a) (\<lambda>s. if s_writing s \<noteq> FSOCK_SOCK_STOP_OP then Inr w
       else rbind (send_sleep canlock a w) (\<lambda>w1. send_wake canlock a (others w1)))"
  by (simp add: send_wait_def send_sleep_def send_wake_def cond_wait_def rbind_assoc Let_def cong: if_cong)

subsection \<open>What the sections do to the two flags\<close>

definition room_flags :: "'x world \<Rightarrow> nat \<Rightarrow> int \<Rightarrow> int \<Rightarrow> bool" where
  "room_flags w a wr wn \<longleftrightarrow> (\<exists>s. w_heap w a = Some s \<and> s_writing s = wr \<and> s_want_wcond s = wn)"

lemma room_flags_unique: "room_flags w a wr wn \<Longrightarrow> room_flags w a wr' wn' \<Longrightarrow> wr' = wr \<and> wn' = wn"
  by (auto simp: room_flags_def)

lemma lock_heap:
  "fsock_mutex_lock l w = Inr w' \<Longrightarrow> w_heap w' = w_heap w \<and> w_log w' = w_log w"
  "fsock_mutex_unlock l w = Inr w' \<Longrightarrow> w_heap w' = w_heap w \<and> w_log w' = w_log w"
  by (auto simp: fsock_mutex_lock_def fsock_mutex_unlock_def split: if_splits)

lemma sleep_flags:
  assumes "send_sleep canlock a w = Inr w'" "room_flags w a wr wn"
  shows "room_flags w' a wr 1"
proof -
  obtain w1 s w3 where *: "lock_if canlock a w = Inr w1" "w_heap w1 a = Some s"
      "fsock_mutex_unlock (Sock_sync a) (sock_put a (s\<lparr>s_want_wcond := 1\<rparr>) w1) = Inr w3" "w' = log_eff (Cond_wait a) w3"
    using assms(1) by (auto simp: send_sleep_def fault_iff sock_upd_def sock_at_iff)
  then show ?thesis
    using assms(2) lock_if_heap(1) [OF *(1)] lock_heap(2) [OF *(3)] by (simp add: room_flags_def log_eff_def sock_put_def)
qed

lemma credit_flags:
  assumes run: "write_account a removed w = Inr w'" and fl: "room_flags w a wr wn"
  shows "room_flags w' a wr wn \<and> w_log w' = w_log w \<or>
    wr = FSOCK_SOCK_STOP_OP \<and> room_flags w' a 0 0 \<and> w_log w' = w_log w @ (if wn = 0 then [] else [Cond_broadcast a])"
proof -
  obtain w1 s where 1: "fsock_mutex_lock (Sock_sync a) w = Inr w1" "w_heap w1 a = Some s"
    using run by (auto simp: write_account_def fault_iff sock_at_iff)
  have s: "w_heap w a = Some s" using 1 lock_heap(1) [OF 1(1)] by simp
  define q where "q = s_sndqsz s - removed"
  define room where "room \<longleftrightarrow> s_sndhwm s > 0 \<and> s_writing s = FSOCK_SOCK_STOP_OP \<and> q < s_sndhwm s"
  define bc where "bc \<longleftrightarrow> room \<and> s_want_wcond s \<noteq> 0"
  define s2 where "s2 = (if room then s\<lparr>s_sndqsz := q\<rparr>\<lparr>s_writing := 0\<rparr> else s\<lparr>s_sndqsz := q\<rparr>)"
  define s3 where "s3 = (if bc then s2\<lparr>s_want_wcond := 0\<rparr> else s2)"
  obtain w2 where 2: "fsock_mutex_unlock (Sock_sync a) (sock_put a s3 w1) = Inr w2"
      "w' = (if bc then log_eff (Cond_broadcast a) w2 else w2)"
    using run 1 unfolding write_account_def Let_def
    by (auto simp only: fault_iff sock_at_iff rbind_Inr q_def [symmetric] room_def [symmetric] bc_def [symmetric] s2_def [symmetric] s3_def [symmetric])
  have "w_heap w' a = Some s3" "w_log w' = w_log w @ (if bc then [Cond_broadcast a] else [])"
    using lock_heap(1) [OF 1(1)] lock_heap(2) [OF 2(1)] 2(2) by (auto simp: sock_put_def log_eff_def)
  then show ?thesis
    using s fl by (cases room) (auto simp: room_flags_def s3_def s2_def bc_def room_def)
qed

lemma account_flags:
  assumes run: "send_account canlock a w = Inr w'" and fl: "room_flags w a wr wn"
  shows "room_flags w' a wr wn \<or> wr \<noteq> FSOCK_SOCK_STOP_OP \<and> room_flags w' a FSOCK_SOCK_STOP_OP wn"
proof -
  obtain w1 s q where 1: "lock_if canlock a w = Inr w1" "w_heap w1 a = Some s" "c_int (s_sndqsz s + 1) = Inr q"
    using run by (auto simp: send_account_def fault_iff sock_at_iff)
  define s1 where "s1 = s\<lparr>s_sndqsz := q\<rparr>"
  define s2 where "s2 = (if s_sndhwm s1 > 0 \<and> s_writing s1 \<noteq> FSOCK_SOCK_STOP_OP \<and> s_sndqsz s1 \<ge> s_sndhwm s1
      then s1\<lparr>s_writing := FSOCK_SOCK_STOP_OP\<rparr> else s1)"
  have "unlock_if canlock a (sock_put a s2 w1) = Inr w'"
    using run 1 by (simp add: send_account_def sock_at_iff [THEN iffD2, OF 1(2)] Let_def s1_def s2_def cong: if_cong)
  then have "w_heap w' a = Some s2" using lock_if_heap(2) by (fastforce simp: sock_put_def)
  then show ?thesis
    using fl lock_if_heap(1) [OF 1(1)] 1(2) by (auto simp: room_flags_def s2_def s1_def)
qed

subsection \<open>One sender and the other threads\<close>

text \<open>
  Where the sender is: before the test of \<open>writing\<close>, after it has seen the socket stopped, asleep in
  \<open>pthread_cond_wait\<close>, or past the wait. \<open>window\<close> says whether room may be made between the test and the wait, and \<open>alone\<close> that no
  other thread sends on the socket.
\<close>

datatype sender = Before | Decided | Waiting | Past

inductive send_step :: "nat \<Rightarrow> bool \<Rightarrow> bool \<Rightarrow> sender \<times> 'x world \<Rightarrow> sender \<times> 'x world \<Rightarrow> bool" for a window alone where
  goes: "w_heap w a = Some s \<Longrightarrow> s_writing s \<noteq> FSOCK_SOCK_STOP_OP \<Longrightarrow> send_step a window alone (Before, w) (Past, w)"
| stops: "w_heap w a = Some s \<Longrightarrow> s_writing s = FSOCK_SOCK_STOP_OP \<Longrightarrow> send_step a window alone (Before, w) (Decided, w)"
| sleeps: "send_sleep canlock a w = Inr w' \<Longrightarrow> send_step a window alone (Decided, w) (Waiting, w')"
| accounts: "send_account canlock a w = Inr w' \<Longrightarrow> send_step a window alone (Past, w) (Before, w')"
| credit: "write_account a removed w = Inr w' \<Longrightarrow> st = Decided \<longrightarrow> window \<Longrightarrow>
    st' = (if st = Waiting \<and> w_log w' \<noteq> w_log w then Past else st) \<Longrightarrow> send_step a window alone (st, w) (st', w')"
| other_sleeps: "send_sleep canlock a w = Inr w' \<Longrightarrow> \<not> alone \<Longrightarrow> send_step a window alone (st, w) (st, w')"
| other_accounts: "send_account canlock a w = Inr w' \<Longrightarrow> \<not> alone \<Longrightarrow> send_step a window alone (st, w) (st, w')"
| other: "(\<And>wr wn. room_flags w a wr wn \<Longrightarrow> room_flags w' a wr wn) \<Longrightarrow> send_step a window alone (st, w) (st, w')"

inductive send_reach :: "nat \<Rightarrow> bool \<Rightarrow> bool \<Rightarrow> sender \<times> 'x world \<Rightarrow> sender \<times> 'x world \<Rightarrow> bool" for a window alone c0 where
  start: "send_reach a window alone c0 c0"
| step: "send_reach a window alone c0 c \<Longrightarrow> send_step a window alone c c' \<Longrightarrow> send_reach a window alone c0 c'"

text \<open>Without the window: a sender that decided to wait finds the socket stopped, and one that waits has asked to be woken.\<close>

definition asks :: "nat \<Rightarrow> sender \<times> 'x world \<Rightarrow> bool" where
  "asks a c \<longleftrightarrow> (\<exists>wr wn. room_flags (snd c) a wr wn \<and> (fst c = Decided \<longrightarrow> wr = FSOCK_SOCK_STOP_OP) \<and>
     (fst c = Waiting \<longrightarrow> wr = FSOCK_SOCK_STOP_OP \<and> wn \<noteq> 0))"

lemma asksI:
  "room_flags w a wr wn \<Longrightarrow> (st = Decided \<Longrightarrow> wr = FSOCK_SOCK_STOP_OP) \<Longrightarrow>
    (st = Waiting \<Longrightarrow> wr = FSOCK_SOCK_STOP_OP \<and> wn \<noteq> 0) \<Longrightarrow> asks a (st, w)"
  by (auto simp: asks_def)

lemma send_step_asks: "send_step a False alone c c' \<Longrightarrow> asks a c \<Longrightarrow> asks a c'"
proof (induction rule: send_step.induct)
  case (goes w s)
  then show ?case by (auto simp: asks_def)
next
  case (stops w s)
  then show ?case by (auto simp: asks_def room_flags_def)
next
  case (sleeps canlock w w')
  then obtain wr wn where "room_flags w a wr wn" "wr = FSOCK_SOCK_STOP_OP" by (auto simp: asks_def)
  with sleep_flags [OF sleeps.hyps] show ?case by (intro asksI [of w' a wr 1]) auto
next
  case (accounts canlock w w')
  then obtain wr wn where "room_flags w a wr wn" by (auto simp: asks_def)
  from account_flags [OF accounts.hyps this] show ?case by (auto simp: asks_def)
next
  case (credit removed w w' st st')
  then obtain wr wn where w: "room_flags w a wr wn" "st = Waiting \<longrightarrow> wr = FSOCK_SOCK_STOP_OP \<and> wn \<noteq> 0" by (auto simp: asks_def)
  from credit_flags [OF credit.hyps(1) w(1)] w credit.hyps(2,3) show ?case
    by (cases st) (auto simp: asks_def)
next
  case (other_sleeps canlock w w' st)
  then obtain wr wn where "room_flags w a wr wn" "st = Decided \<or> st = Waiting \<longrightarrow> wr = FSOCK_SOCK_STOP_OP" by (auto simp: asks_def)
  with sleep_flags [OF other_sleeps.hyps(1)] show ?case by (intro asksI [of w' a wr 1]) auto
next
  case (other_accounts canlock w w' st)
  then obtain wr wn where w: "room_flags w a wr wn" "st = Decided \<longrightarrow> wr = FSOCK_SOCK_STOP_OP"
      "st = Waiting \<longrightarrow> wr = FSOCK_SOCK_STOP_OP \<and> wn \<noteq> 0" by (auto simp: asks_def)
  from account_flags [OF other_accounts.hyps(1) w(1)] w show ?case by (auto intro: asksI)
next
  case (other w w' st)
  then show ?case by (auto simp: asks_def)
qed

text \<open>With the window, and nobody else who sends: once the socket is not stopped it stays so, and nobody broadcasts.\<close>

definition stuck :: "nat \<Rightarrow> sender \<times> 'x world \<Rightarrow> bool" where
  "stuck a c \<longleftrightarrow> (fst c = Decided \<or> fst c = Waiting) \<and> (\<exists>wr wn. room_flags (snd c) a wr wn \<and> wr \<noteq> FSOCK_SOCK_STOP_OP)"

lemma send_step_stuck: "send_step a window True c c' \<Longrightarrow> stuck a c \<Longrightarrow> stuck a c'"
proof (induction rule: send_step.induct)
  case (sleeps canlock w w')
  then obtain wr wn where "room_flags w a wr wn" "wr \<noteq> FSOCK_SOCK_STOP_OP" by (auto simp: stuck_def)
  with sleep_flags [OF sleeps.hyps] show ?case by (auto simp: stuck_def)
next
  case (credit removed w w' st st')
  then obtain wr wn where w: "room_flags w a wr wn" "wr \<noteq> FSOCK_SOCK_STOP_OP" by (auto simp: stuck_def)
  from credit_flags [OF credit.hyps(1) w(1)] w credit.prems credit.hyps(3) show ?case by (auto simp: stuck_def)
next
  case (other w w' st)
  then show ?case by (fastforce simp: stuck_def)
qed (auto simp: stuck_def)

lemma send_reach_inv:
  assumes "send_reach a window alone c0 c" "P c0" "\<And>c c'. send_step a window alone c c' \<Longrightarrow> P c \<Longrightarrow> P c'"
  shows "P c"
  using assms by (induction rule: send_reach.induct) blast+

subsection \<open>Properties\<close>

text \<open>
  C19: when no room is made between the test of \<open>writing\<close> and the wait, no wakeup of a sender is lost:
  a sender that waits has asked for it on a socket that is stopped, and the write handler that makes room
  broadcasts.
\<close>

theorem waiting_sender_is_woken:
  assumes "send_reach a False alone (Before, w0) (Waiting, w)" and "w_heap w0 a = Some s0"
    and "write_account a removed w = Inr w'" and "w_heap w' a = Some s'" and "s_writing s' \<noteq> FSOCK_SOCK_STOP_OP"
  shows "w_log w' = w_log w @ [Cond_broadcast a] \<and> s_want_wcond s' = 0"
proof -
  have "asks a (Before, w0)" using assms(2) by (auto simp: asks_def room_flags_def)
  then have "asks a (Waiting, w)" by (rule send_reach_inv [OF assms(1)]) (rule send_step_asks)
  then obtain wn where "room_flags w a FSOCK_SOCK_STOP_OP wn" "wn \<noteq> 0" by (auto simp: asks_def)
  from credit_flags [OF assms(3) this(1)] this(2) assms(4,5) show ?thesis by (auto simp: room_flags_def)
qed

definition example_full :: "unit world" where
  "example_full = example_world\<lparr>w_heap := [0 \<mapsto> example_base\<lparr>s_writing := FSOCK_SOCK_STOP_OP, s_sndqsz := 1000\<rparr>, 1 \<mapsto> example_conn]\<rparr>"

lemma example_full_base:
  "w_heap example_full 0 = Some (example_base\<lparr>s_writing := FSOCK_SOCK_STOP_OP, s_sndqsz := 1000\<rparr>)"
  by (simp add: example_full_def)

theorem waiting_sender_is_woken_witness:
  "\<exists>w w'. send_sleep True 0 example_full = Inr w \<and> write_account 0 1 w = Inr w' \<and> w_log w' = w_log w @ [Cond_broadcast 0]"
proof -
  have "rbind (send_sleep True 0 example_full) (\<lambda>w. rbind (write_account 0 1 w) (\<lambda>w'. rbind (sock_at w' 0) (\<lambda>s.
      assert_that (s_writing s \<noteq> FSOCK_SOCK_STOP_OP)))) = Inr ()"
    by code_simp
  then obtain w w' s where run: "send_sleep True 0 example_full = Inr w" "write_account 0 1 w = Inr w'"
      "w_heap w' 0 = Some s" "s_writing s \<noteq> FSOCK_SOCK_STOP_OP"
    by (auto simp: fault_iff sock_at_iff)
  have "send_reach 0 False True (Before, example_full) (Waiting, w)"
    by (rule send_reach.step [OF send_reach.step [OF send_reach.start send_step.stops [OF example_full_base]] send_step.sleeps [OF run(1)]])
      simp
  from waiting_sender_is_woken [OF this example_full_base run(2-4)] run(1,2) show ?thesis by blast
qed

text \<open>
  C18: a sender that has seen the socket stopped when the write handler makes room, and only then asks to be woken, is never
  woken if nobody else sends: whatever the threads do, it stays in the wait.
\<close>

theorem sender_sleeps_for_ever:
  assumes "w_heap w0 a = Some s0" and "s_writing s0 = FSOCK_SOCK_STOP_OP" and "s_want_wcond s0 = 0"
    and "write_account a removed w0 = Inr w1" and "s_sndhwm s0 > 0" and "s_sndqsz s0 - removed < s_sndhwm s0"
    and "send_reach a window True (Decided, w1) (st, w)"
  shows "send_step a True True (Before, w0) (Decided, w0) \<and> send_step a True True (Decided, w0) (Decided, w1) \<and>
    w_log w1 = w_log w0 \<and> (st = Decided \<or> st = Waiting)"
proof -
  have "\<exists>s1. w_heap w1 a = Some s1 \<and> s_writing s1 = 0"
    using assms(1-6)
    by (auto simp: write_account_def fault_iff sock_at_iff Let_def sock_put_def dest!: lock_heap)
  then have "stuck a (Decided, w1)" by (auto simp: stuck_def room_flags_def FSOCK_SOCK_STOP_OP_def)
  then have "stuck a (st, w)" by (rule send_reach_inv [OF assms(7)]) (rule send_step_stuck)
  moreover have "room_flags w0 a FSOCK_SOCK_STOP_OP 0" using assms(1-3) by (simp add: room_flags_def)
  from credit_flags [OF assms(4) this] have "w_log w1 = w_log w0" by auto
  moreover have "send_step a True True (Decided, w0) (Decided, w1)" by (rule send_step.credit [OF assms(4)]) simp_all
  ultimately show ?thesis using send_step.stops [OF assms(1,2)] by (auto simp: stuck_def)
qed

theorem sender_sleeps_for_ever_witness:
  "\<exists>w1 w2. write_account 0 1 example_full = Inr w1 \<and> send_sleep True 0 w1 = Inr w2 \<and> w_log w1 = w_log example_full \<and>
    (\<forall>st w. send_reach 0 True True (Decided, w1) (st, w) \<longrightarrow> st = Decided \<or> st = Waiting)"
proof -
  have "rbind (write_account 0 1 example_full) (\<lambda>w1. rbind (send_sleep True 0 w1) (\<lambda>w2. Inr ())) = Inr ()"
    by code_simp
  then obtain w1 w2 where run: "write_account 0 1 example_full = Inr w1" "send_sleep True 0 w1 = Inr w2"
    by (auto simp: fault_iff)
  note never = sender_sleeps_for_ever [OF example_full_base _ _ run(1)]
  have "w_log w1 = w_log example_full"
    using never [OF _ _ _ _ send_reach.start] by (simp add: example_base_def example_sock_def)
  moreover have "st = Decided \<or> st = Waiting" if "send_reach 0 True True (Decided, w1) (st, w)" for st w
    using never [OF _ _ _ _ that] by (simp add: example_base_def example_sock_def)
  ultimately show ?thesis using run by blast
qed

end
