(* ===== verification/Programs.thy ===== *)
theory Programs
  imports Sending Flow Support Efd
begin

text \<open>
  The programs of the repository that use the library: the benchmarks under \<open>perf/\<close> and the example.
  Each is a function that calls the public interface of the theory Global. What such a
  program cannot control is the record \<open>site\<close>; what it prints is left out.
\<close>

subsection \<open>What surrounds a program\<close>

text \<open>
  \<open>si_run\<close> is what the other threads do between two calls of the program, \<open>si_wait\<close> and \<open>si_others\<close> what
  they do while a call waits. \<open>si_ret0\<close> is the indeterminate result of a \<open>fsock_send\<close> that ends without
  \<open>return\<close>. \<open>si_frame\<close> is the result of \<open>frm_frame_new\<close> or \<open>malloc\<close> for the frame to send, \<open>si_size\<close> the field \<open>size\<close> of a
  frame and \<open>si_refs\<close> the result of \<open>frm_frame_term\<close>, all of framer.
\<close>

record 'x site =
  si_framer :: "'x framer"
  si_server :: "string \<Rightarrow> int \<Rightarrow> int"
  si_client :: "string \<Rightarrow> int \<Rightarrow> int"
  si_run :: "'x world \<Rightarrow> 'x world"
  si_wait :: "'x world \<Rightarrow> int \<times> 'x world"
  si_others :: "'x world \<Rightarrow> 'x world"
  si_ret0 :: int
  si_frame :: "nat option"
  si_size :: "nat \<Rightarrow> int"
  si_refs :: "nat \<Rightarrow> int"
  si_start :: "(int \<times> int) option"
  si_stop :: "(int \<times> int) option"

definition prog_socket :: "'x site \<Rightarrow> 'x world \<Rightarrow> fault + (int \<times> 'x world)" where
  "prog_socket S w = fsock_socket (si_framer S) (si_run S w)"

definition prog_bind :: "'x site \<Rightarrow> int \<Rightarrow> int \<Rightarrow> 'x world \<Rightarrow> fault + (int \<times> 'x world)" where
  "prog_bind S s port w = fsock_bind (si_framer S) (si_server S) s ''0.0.0.0'' port (si_run S w)"

definition prog_connect :: "'x site \<Rightarrow> int \<Rightarrow> int \<Rightarrow> 'x world \<Rightarrow> fault + (int \<times> 'x world)" where
  "prog_connect S s port w = fsock_connect (si_framer S) (si_client S) s ''0.0.0.0'' port (si_run S w)"

definition prog_get :: "'x site \<Rightarrow> int \<Rightarrow> 'x world \<Rightarrow> fault + (item option \<times> 'x world)" where
  "prog_get S s w = fsock_get_event (si_wait S) s 0 (si_run S w)"

definition prog_send :: "'x site \<Rightarrow> int \<Rightarrow> 'x world \<Rightarrow> fault + (int \<times> 'x world)" where
  "prog_send S s w = fsock_send (si_framer S) (si_others S) (si_ret0 S) s 0 (si_frame S) 0 (si_run S w)"

text \<open>Reading the event a call returned.\<close>

definition event_addr :: "item option \<Rightarrow> fault + nat" where
  "event_addr it = (case it of None \<Rightarrow> Inl NullDeref | Some (Event e) \<Rightarrow> Inr e | Some _ \<Rightarrow> Inl WildDeref)"

definition event_at :: "'x world \<Rightarrow> nat \<Rightarrow> fault + event" where
  "event_at w e = (case w_events w e of None \<Rightarrow> Inl UseAfterFree | Some ev \<Rightarrow> Inr ev)"

text \<open>\<open>assert (ev->type == FSOCK_EVENT_NEW_FRAME && ev->frame->size == (int) sz)\<close>.\<close>

definition assert_frame :: "'x site \<Rightarrow> int \<Rightarrow> item option \<Rightarrow> 'x world \<Rightarrow> fault + unit" where
  "assert_frame S sz it w =
     rbind (event_addr it) (\<lambda>e.
     rbind (event_at w e) (\<lambda>ev.
     assert_that (case ev of New_frame f \<Rightarrow> si_size S f = sz | New_conn c \<Rightarrow> False)))"

text \<open>The buffer the benchmarks fill, copy into the frame and free.\<close>

definition fill_frame :: "bool \<Rightarrow> int \<Rightarrow> 'x world \<Rightarrow> fault + 'x world" where
  "fill_frame used sz w =
     (case c_malloc w of
        (Some b, w1) \<Rightarrow> Inr (log_eff (Free b) w1)
      | (None, w1) \<Rightarrow> if used \<and> sz \<noteq> 0 then Inl NullDeref else Inr w1)"

text \<open>
  A loop \<open>for (i = 0; i != n; i++)\<close>. With a negative bound the counter overflows.
\<close>

function c_for :: "int \<Rightarrow> ('s \<Rightarrow> fault + 's) \<Rightarrow> int \<Rightarrow> 's \<Rightarrow> fault + 's" where
  "c_for n body i s =
     (if i = n then Inr s
      else rbind (body s) (\<lambda>s1. rbind (c_int (i + 1)) (\<lambda>j. c_for n body j s1)))"
  by pat_completeness auto
termination
  by (relation "measure (\<lambda>(n, body, i, s). nat (INT_MAX + 1 - i))") (auto simp: c_int_eq_Inr)

declare c_for.simps [simp del]

subsection \<open>The latency benchmark\<close>

definition lat_answer :: "'x site \<Rightarrow> int \<Rightarrow> int \<Rightarrow> 'x world \<Rightarrow> fault + 'x world" where
  "lat_answer S s sz w =
     rbind (prog_get S s w) (\<lambda>(ev, w1).
     rbind (assert_frame S sz ev w1) (\<lambda>_.
     rbind (prog_send S s w1) (\<lambda>(rc, w2).
     rbind (assert_that (rc = 0)) (\<lambda>_. Inr w2))))"

definition local_lat :: "'x site \<Rightarrow> int \<Rightarrow> int \<Rightarrow> int \<Rightarrow> int \<Rightarrow> 'x world \<Rightarrow> fault + (int \<times> 'x world)" where
  "local_lat S argc bind_port sz rts w =
     (if argc \<noteq> 4 then Inr (1, w) else
      rbind (prog_socket S w) (\<lambda>(s, w1).
      rbind (assert_that (s \<noteq> -1)) (\<lambda>_.
      rbind (prog_bind S s bind_port w1) (\<lambda>(rc, w2).
      rbind (assert_that (rc \<ge> 0)) (\<lambda>_.
      rbind (assert_that (si_frame S \<noteq> None)) (\<lambda>_.
      rbind (fill_frame True sz w2) (\<lambda>w3.
      rbind (c_for rts (lat_answer S s sz) 0 w3) (\<lambda>w4. Inr (0, w4)))))))))"

definition lat_ask :: "'x site \<Rightarrow> int \<Rightarrow> int \<Rightarrow> 'x world \<Rightarrow> fault + 'x world" where
  "lat_ask S s sz w =
     rbind (prog_send S s w) (\<lambda>(rc, w1).
     rbind (assert_that (rc = 0)) (\<lambda>_.
     rbind (prog_get S s w1) (\<lambda>(ev, w2).
     rbind (assert_frame S sz ev w2) (\<lambda>_. Inr w2))))"

text \<open>The result is the exit status and the microseconds the stopwatch shows.\<close>

definition remote_lat :: "'x site \<Rightarrow> int \<Rightarrow> int \<Rightarrow> int \<Rightarrow> int \<Rightarrow> 'x world \<Rightarrow> fault + (int \<times> 64 word \<times> 'x world)" where
  "remote_lat S argc connect_port sz rts w =
     (if argc \<noteq> 4 then Inr (1, 0, w) else
      rbind (prog_socket S w) (\<lambda>(s, w1).
      rbind (assert_that (s \<noteq> -1)) (\<lambda>_.
      rbind (prog_connect S s connect_port w1) (\<lambda>(rc, w2).
      rbind (assert_that (rc \<ge> 0)) (\<lambda>_.
      rbind (assert_that (si_frame S \<noteq> None)) (\<lambda>_.
      rbind (fill_frame True sz w2) (\<lambda>w3.
      rbind (nn_stopwatch_init (si_start S)) (\<lambda>sw.
      rbind (c_for rts (lat_ask S s sz) 0 w3) (\<lambda>w4.
      rbind (nn_stopwatch_term sw (si_stop S)) (\<lambda>total. Inr (0, total, w4)))))))))))"

subsection \<open>The throughput benchmark\<close>

definition thr_take :: "'x site \<Rightarrow> int \<Rightarrow> int \<Rightarrow> 'x world \<Rightarrow> fault + 'x world" where
  "thr_take S s sz w =
     rbind (prog_get S s w) (\<lambda>(ev, w1). rbind (assert_frame S sz ev w1) (\<lambda>_. Inr w1))"

definition local_thr :: "'x site \<Rightarrow> int \<Rightarrow> int \<Rightarrow> int \<Rightarrow> int \<Rightarrow> 'x world \<Rightarrow> fault + (int \<times> 64 word \<times> 'x world)" where
  "local_thr S argc bind_port sz count w =
     (if argc \<noteq> 4 then Inr (1, 0, w) else
      rbind (prog_socket S w) (\<lambda>(s, w1).
      rbind (assert_that (s \<noteq> -1)) (\<lambda>_.
      rbind (prog_bind S s bind_port w1) (\<lambda>(rc, w2).
      rbind (assert_that (rc \<ge> 0)) (\<lambda>_.
      rbind (assert_that (si_frame S \<noteq> None)) (\<lambda>_.
      rbind (thr_take S s sz w2) (\<lambda>w3.
      rbind (nn_stopwatch_init (si_start S)) (\<lambda>sw.
      rbind (c_int (count - 1)) (\<lambda>n.
      rbind (c_for n (thr_take S s sz) 0 w3) (\<lambda>w4.
      rbind (nn_stopwatch_term sw (si_stop S)) (\<lambda>total.
      Inr (0, if total = 0 then 1 else total, w4))))))))))))"

definition thr_put :: "'x site \<Rightarrow> int \<Rightarrow> 'x world \<Rightarrow> fault + 'x world" where
  "thr_put S s w = rbind (prog_send S s w) (\<lambda>(rc, w1). rbind (assert_that (rc = 0)) (\<lambda>_. Inr w1))"

definition remote_thr :: "'x site \<Rightarrow> int \<Rightarrow> int \<Rightarrow> int \<Rightarrow> int \<Rightarrow> 'x world \<Rightarrow> fault + (int \<times> 'x world)" where
  "remote_thr S argc connect_port sz count w =
     (if argc \<noteq> 4 then Inr (1, w) else
      rbind (prog_socket S w) (\<lambda>(s, w1).
      rbind (assert_that (s \<noteq> -1)) (\<lambda>_.
      rbind (prog_connect S s connect_port w1) (\<lambda>(rc, w2).
      rbind (assert_that (rc \<ge> 0)) (\<lambda>_.
      rbind (assert_that (si_frame S \<noteq> None)) (\<lambda>_.
      rbind (fill_frame False sz w2) (\<lambda>w3.
      rbind (c_for count (thr_put S s) 0 w3) (\<lambda>w4. Inr (0, w4)))))))))"

subsection \<open>Publishing to many clients\<close>

text \<open>
  The loop that takes \<open>n\<close> events, \<open>for (i = 0; i < n; i++)\<close>, where a call that returns \<open>NULL\<close> takes one back from
  the counter with \<open>i--\<close> before the loop adds one. Nothing bounds it.
\<close>

partial_function (option) take_loop ::
  "'x site \<Rightarrow> int \<Rightarrow> bool \<Rightarrow> int \<Rightarrow> int \<Rightarrow> 'x world \<Rightarrow> (fault + 'x world) option" where
  "take_loop S s destroys n i w =
     (if i < n then
        (case prog_get S s w of
           Inl f \<Rightarrow> Some (Inl f)
         | Inr (None, w1) \<Rightarrow> take_loop S s destroys n i w1
         | Inr (Some it, w1) \<Rightarrow>
             (case if destroys then rbind (event_addr (Some it)) (\<lambda>e. fsock_event_destroy (si_refs S e) e w1) else Inr w1 of
                Inl f \<Rightarrow> Some (Inl f)
              | Inr w2 \<Rightarrow> take_loop S s destroys n (i + 1) w2))
      else Some (Inr w))"

definition take_events :: "'x site \<Rightarrow> int \<Rightarrow> bool \<Rightarrow> int \<Rightarrow> 'x world \<Rightarrow> fault + 'x world" where
  "take_events S s destroys n w = (case take_loop S s destroys n 0 w of None \<Rightarrow> Inl Hang | Some r \<Rightarrow> r)"

text \<open>
  The server. \<open>efd\<close> is the eventfd on which \<open>main\<close> waits, an event descriptor of the theory Efd. Events
  are counted and not looked at, a wait that timed out included.
\<close>

definition pubsub_srvthr ::
  "'x site \<Rightarrow> 'k posix \<Rightarrow> int \<Rightarrow> int \<Rightarrow> int \<Rightarrow> 'x world \<times> 'k anet \<Rightarrow> fault + ('x world \<times> 'k anet)" where
  "pubsub_srvthr S P efd cli_cnt msg_cnt st =
     (case st of (w, k) \<Rightarrow>
      rbind (prog_socket S w) (\<lambda>(srv, w1).
      rbind (prog_bind S srv 9652 w1) (\<lambda>(bnd, w2).
      rbind (c_for (max 0 cli_cnt) (\<lambda>w. rbind (prog_get S srv w) (\<lambda>(ev, w'). Inr w')) 0 w2) (\<lambda>w3.
      rbind (nn_efd_signal_ev P efd k) (\<lambda>k1.
      rbind (c_for (max 0 msg_cnt)
               (\<lambda>w. rbind (fsock_sendc (si_framer S) (si_others S) (\<lambda>_. si_ret0 S) srv FSOCK_SND_ALL 0 0 (si_frame S) 0 0 (si_run S w))
                      (\<lambda>(rc, w'). Inr w')) 0 w3) (\<lambda>w4.
      Inr (w4, k1)))))))"

definition pubsub_clithr :: "'x site \<Rightarrow> int \<Rightarrow> 'x world \<Rightarrow> fault + 'x world" where
  "pubsub_clithr S cnt w =
     rbind (prog_socket S w) (\<lambda>(cli, w1).
     rbind (prog_connect S cli 9652 w1) (\<lambda>(conn, w2).
     rbind (prog_send S cli w2) (\<lambda>(rc, w3).
     take_events S cli True cnt w3)))"

definition pubsub_clithrxx :: "'x site \<Rightarrow> 'x world \<Rightarrow> fault + (64 word \<times> 'x world)" where
  "pubsub_clithrxx S w =
     rbind (prog_socket S w) (\<lambda>(cli, w1).
     rbind (prog_connect S cli 9652 w1) (\<lambda>(conn, w2).
     rbind (nn_stopwatch_init (si_start S)) (\<lambda>sw.
     rbind (take_events S cli False (10 * 1000000) w2) (\<lambda>w3.
     rbind (nn_stopwatch_term sw (si_stop S)) (\<lambda>ms. Inr (ms, w3))))))"

subsection \<open>The thread benchmark and the example\<close>

text \<open>\<open>frm_frame_init\<close> and \<open>frm_frame_set_data\<close> write into a frame whose allocation is not tested.\<close>

definition thr_srvthr :: "'x site \<Rightarrow> 'x world \<Rightarrow> fault + 'x world" where
  "thr_srvthr S w =
     rbind (prog_socket S w) (\<lambda>(srv, w1).
     rbind (prog_bind S srv 9652 w1) (\<lambda>(bnd, w2).
     if si_frame S = None then Inl NullDeref
     else c_for (10 * 1000000) (\<lambda>w. rbind (prog_send S srv w) (\<lambda>(rc, w'). Inr w')) 0 w2))"

definition thr_clithr :: "'x site \<Rightarrow> 'x world \<Rightarrow> fault + (64 word \<times> 'x world)" where
  "thr_clithr S w =
     rbind (prog_socket S w) (\<lambda>(cli, w1).
     rbind (prog_connect S cli 9652 w1) (\<lambda>(conn, w2).
     rbind (nn_stopwatch_init (si_start S)) (\<lambda>sw.
     rbind (take_events S cli False (10 * 1000000) w2) (\<lambda>w3.
     rbind (nn_stopwatch_term sw (si_stop S)) (\<lambda>ms. Inr (ms, w3))))))"

definition example_main :: "'x site \<Rightarrow> 'x world \<Rightarrow> fault + (int \<times> 'x world)" where
  "example_main S w =
     rbind (prog_socket S w) (\<lambda>(srv, w1).
     rbind (prog_socket S w1) (\<lambda>(cli, w2).
     rbind (prog_socket S w2) (\<lambda>(srv2, w3).
     rbind (prog_bind S srv 9652 w3) (\<lambda>(bnd, w4).
     rbind (prog_connect S cli 9652 w4) (\<lambda>(conn, w5).
     rbind (fsock_rand srv w5) (\<lambda>_.
     rbind (fsock_rand cli w5) (\<lambda>_.
     rbind (take_events S srv False 3 w5) (\<lambda>w6.
     if si_frame S = None then Inl NullDeref else
     rbind (prog_send S srv w6) (\<lambda>(rc, w7).
     rbind (take_events S cli False 1 w7) (\<lambda>w8. Inr (0, w8)))))))))))"

subsection \<open>What the programs rely on\<close>

lemma alloc_case:
  "(case p of (x, w) \<Rightarrow> case x of None \<Rightarrow> f w | Some a \<Rightarrow> g a w) = r \<longleftrightarrow>
     fst p = None \<and> f (snd p) = r \<or> (\<exists>a. fst p = Some a \<and> g a (snd p) = r)"
  by (cases p; cases "fst p") auto

lemma send_result:
  "fsock_send F others ret0 s c fr flags w = Inr (rc, w') \<Longrightarrow> rc \<in> {-1, c_EAGAIN, ret0}"
  by (auto simp: fsock_send_def Let_def fault_iff alloc_case split: if_splits)

lemma c_for_first_fails:
  "n \<noteq> i \<Longrightarrow> (\<And>s'. body s \<noteq> Inr s') \<Longrightarrow> c_for n body i s \<noteq> Inr s'"
  by (subst c_for.simps) (auto simp: fault_iff)

lemma sends_fail:
  assumes "si_ret0 S \<noteq> 0"
  shows "thr_put S s w \<noteq> Inr w'" "lat_ask S s sz w \<noteq> Inr w'" "lat_answer S s sz w \<noteq> Inr w'"
  using assms by (auto simp: thr_put_def lat_ask_def lat_answer_def prog_send_def fault_iff c_EAGAIN_def dest!: send_result)

text \<open>
  the programs that test the result of \<open>fsock_send\<close> depend on the value of a function that ends without
  \<open>return\<close>: unless it happens to be 0, none of them finishes, whatever the network does.
\<close>

theorem benchmarks_need_zero:
  assumes "si_ret0 S \<noteq> 0" and "n \<noteq> 0"
  shows "remote_thr S 4 port sz n w \<noteq> Inr r \<and> remote_lat S 4 port sz n w \<noteq> Inr r' \<and> local_lat S 4 port sz n w \<noteq> Inr r''"
  using c_for_first_fails [OF assms(2) sends_fail(1) [OF assms(1)]] c_for_first_fails [OF assms(2) sends_fail(2) [OF assms(1)]]
    c_for_first_fails [OF assms(2) sends_fail(3) [OF assms(1)]]
  by (auto simp: remote_thr_def remote_lat_def local_lat_def fault_iff)

definition example_site :: "int \<Rightarrow> unit site" where
  "example_site ret0 =
     \<lparr>si_framer = example_framer, si_server = \<lambda>addr port. 8, si_client = \<lambda>addr port. 9, si_run = id,
      si_wait = \<lambda>w. (- c_ETIMEDOUT, w), si_others = id, si_ret0 = ret0, si_frame = Some 20, si_size = \<lambda>f. 1,
      si_refs = \<lambda>e. 0, si_start = Some (0, 0), si_stop = Some (0, 7)\<rparr>"

lemma c_for_two: "c_for 2 body 0 s = rbind (body s) body"
proof -
  have two: "c_for 2 body 2 = Inr" by (rule ext) (simp add: c_for.simps)
  have "c_for 2 body 1 = body" by (rule ext) (subst c_for.simps, use two in \<open>simp add: c_int_def INT_MAX_def rbind_Inr_right\<close>)
  then show ?thesis by (subst c_for.simps) (simp add: c_int_def INT_MAX_def)
qed

theorem benchmarks_need_zero_witness:
  "(\<exists>w'. c_for 2 (thr_put (example_site 0) 0) 0 example_world = Inr w') \<and>
   (\<forall>r. remote_thr (example_site 1) 4 9652 1 2 example_world \<noteq> Inr r)"
proof -
  have "rbind (thr_put (example_site 0) 0 example_world) (\<lambda>w. rbind (thr_put (example_site 0) 0 w) (\<lambda>_. Inr ())) = Inr ()"
    by code_simp
  then have "\<exists>w'. c_for 2 (thr_put (example_site 0) 0) 0 example_world = Inr w'" by (auto simp: c_for_two fault_iff)
  moreover have "si_ret0 (example_site 1) \<noteq> 0" by (simp add: example_site_def)
  from benchmarks_need_zero [OF this, of 2 9652 1 example_world]
  have "\<forall>r. remote_thr (example_site 1) 4 9652 1 2 example_world \<noteq> Inr r" by simp
  ultimately show ?thesis by blast
qed

subsection \<open>A client that takes a number of events\<close>

text \<open>
  A base socket with the events \<open>es\<close>, which no reader has stopped, and whose count is at least
  their number.
\<close>

definition client_at :: "'x world \<Rightarrow> int \<Rightarrow> nat \<Rightarrow> (queue_id \<Rightarrow> item list) \<Rightarrow> nat list \<Rightarrow> bool" where
  "client_at w s a Q es \<longleftrightarrow>
     (\<exists>so. parr_ptr (g_socks w) s = Inr a \<and> w_heap w a = Some so \<and> s_type so = FSOCK_SOCK_BASE \<and>
        s_reading so \<noteq> FSOCK_SOCK_STOP_OP \<and> 0 \<le> s_efd so \<and> int (length es) \<le> s_rcvqsz so \<and> s_rcvqsz so \<le> INT_MAX) \<and>
     queues_ok w Q \<and> Q (Events_of a) = map Event es \<and> Sock_sync a \<notin> w_held w \<and> (\<forall>e\<in>set es. w_events w e \<noteq> None)"

definition destroy_log :: "int \<Rightarrow> event \<Rightarrow> nat \<Rightarrow> effect list" where
  "destroy_log refs ev e = (case ev of New_conn c \<Rightarrow> [] | New_frame f \<Rightarrow> Frame_term f # (if refs = 0 then [Frame_free f] else [])) @ [Free e]"

lemma client_takes:
  assumes c: "client_at w s a Q (e # es)" and quiet: "si_run S = id"
  shows "\<exists>w1. prog_get S s w = Inr (Some (Event e), w1) \<and> client_at w1 s a (Q(Events_of a := map Event es)) es \<and>
    w_events w1 = w_events w \<and> w_log w1 = w_log w"
proof -
  obtain so where so: "parr_ptr (g_socks w) s = Inr a" "w_heap w a = Some so" "s_type so = FSOCK_SOCK_BASE" "0 \<le> s_efd so"
      "s_reading so \<noteq> FSOCK_SOCK_STOP_OP" "int (length (e # es)) \<le> s_rcvqsz so" "s_rcvqsz so \<le> INT_MAX"
    and q: "queues_ok w Q" "Q (Events_of a) = Event e # map Event es" "Sock_sync a \<notin> w_held w" "\<forall>e\<in>set es. w_events w e \<noteq> None"
    using c by (auto simp: client_at_def)
  let ?wl = "w\<lparr>w_held := insert (Sock_sync a) (w_held w)\<rparr>"
  have okl: "queues_ok ?wl Q" using q(1) by (rule queues_ok_frame) simp_all
  have "\<not> reads_restart so" using so(5) by (simp add: reads_restart_def)
  then obtain n h w1 where p: "get_event_pop a ?wl = Inr (Some (Event e), w1)"
      "w1 = sock_put a (so\<lparr>s_events := h, s_rcvqsz := s_rcvqsz so - 1\<rparr>) (?wl\<lparr>w_next := n, w_held := w_held w\<rparr>)"
      "queues_ok w1 (Q(Events_of a := map Event es))"
    using get_event_pop_plain [OF okl _ q(2), of so "w_held w"] so q(3) by (auto simp: INT_MAX_def)
  have "prog_get S s w = Inr (Some (Event e), w1)"
    using get_event_nonempty [OF so(1,2,3) q(1) _ q(3), of "si_wait S" 0] q(2) p(1) by (simp add: prog_get_def quiet)
  moreover have "client_at w1 s a (Q(Events_of a := map Event es)) es"
    using so q p by (simp add: client_at_def sock_put_def)
  ultimately show ?thesis using p(2) by (intro exI [of _ w1]) (simp add: sock_put_def)
qed

lemma client_destroys:
  assumes "client_at w s a Q es" "e \<notin> set es" "w_events w e = Some ev"
  shows "\<exists>w'. fsock_event_destroy refs e w = Inr w' \<and> client_at w' s a Q es \<and> w_events w' = (w_events w)(e := None) \<and>
    w_log w' = w_log w @ destroy_log refs ev e"
proof -
  define w' where "w' = w\<lparr>w_log := w_log w @ destroy_log refs ev e, w_events := (w_events w)(e := None)\<rparr>"
  have "fsock_event_destroy refs e w = Inr w'"
    using assms(3) by (cases ev) (simp_all add: fsock_event_destroy_def w'_def destroy_log_def log_eff_def)
  moreover have "queues_ok w' Q"
    by (rule queues_ok_frame [of w]) (use assms(1) in \<open>simp_all add: w'_def client_at_def\<close>)
  then have "client_at w' s a Q es" using assms(1,2) by (auto simp: client_at_def w'_def)
  ultimately show ?thesis by (auto simp: w'_def)
qed

lemma client_distinct: "client_at w s a Q es \<Longrightarrow> distinct es"
  unfolding client_at_def queues_ok_def
  using family_rep [of "w_next w" "queue_hdr w" Q "Events_of a"] queue_hdr_Events [of w a]
  by (fastforce simp: queue_rep_def distinct_map)

text \<open>The rounds of the loop that take the events there are.\<close>

lemma client_rounds:
  assumes quiet: "si_run S = id"
  shows "client_at w s a Q (ds @ es) \<Longrightarrow> i + int (length ds) \<le> n \<Longrightarrow>
    \<exists>w'. take_loop S s True n i w = take_loop S s True n (i + int (length ds)) w' \<and>
      client_at w' s a (Q(Events_of a := map Event es)) es \<and>
      w_events w' = (\<lambda>e. if e \<in> set ds then None else w_events w e) \<and>
      w_log w' = w_log w @ concat (map (\<lambda>e. destroy_log (si_refs S e) (the (w_events w e)) e) ds)"
proof (induction ds arbitrary: w Q i)
  case Nil
  then show ?case by (intro exI [of _ w]) (auto simp: client_at_def fun_upd_idem)
next
  case (Cons d ds)
  have new: "d \<notin> set (ds @ es)" using client_distinct [OF Cons.prems(1)] by simp
  obtain ev where ev: "w_events w d = Some ev" using Cons.prems(1) by (auto simp: client_at_def)
  obtain w1 where w1: "prog_get S s w = Inr (Some (Event d), w1)" "client_at w1 s a (Q(Events_of a := map Event (ds @ es))) (ds @ es)"
      "w_events w1 = w_events w" "w_log w1 = w_log w"
    using client_takes [OF Cons.prems(1) [unfolded append_Cons] quiet] by blast
  obtain w2 where w2: "fsock_event_destroy (si_refs S d) d w1 = Inr w2"
      "client_at w2 s a (Q(Events_of a := map Event (ds @ es))) (ds @ es)"
      "w_events w2 = (w_events w)(d := None)" "w_log w2 = w_log w @ destroy_log (si_refs S d) ev d"
    using client_destroys [OF w1(2) new, of ev "si_refs S d"] ev w1(3,4) by auto
  have "i + 1 + int (length ds) \<le> n" using Cons.prems(2) by simp
  from Cons.IH [OF w2(2) this, unfolded fun_upd_upd] obtain w' where w':
      "take_loop S s True n (i + 1) w2 = take_loop S s True n (i + 1 + int (length ds)) w'"
      "client_at w' s a (Q(Events_of a := map Event es)) es" "w_events w' = (\<lambda>e. if e \<in> set ds then None else w_events w2 e)"
      "w_log w' = w_log w2 @ concat (map (\<lambda>e. destroy_log (si_refs S e) (the (w_events w2 e)) e) ds)"
    by blast
  have "take_loop S s True n i w = take_loop S s True n (i + 1) w2"
    using Cons.prems(2) w1(1) w2(1) by (subst take_loop.simps) (simp add: event_addr_def)
  then have "take_loop S s True n i w = take_loop S s True n (i + int (length (d # ds))) w'"
    using w'(1) by (simp add: algebra_simps)
  moreover have "map (\<lambda>e. destroy_log (si_refs S e) (the (w_events w2 e)) e) ds =
      map (\<lambda>e. destroy_log (si_refs S e) (the (w_events w e)) e) ds"
    using new w2(3) by auto
  then have "w_log w' = w_log w @ concat (map (\<lambda>e. destroy_log (si_refs S e) (the (w_events w e)) e) (d # ds))"
    using w'(4) w2(4) ev by (simp del: map_eq_conv)
  moreover have "w_events w' = (\<lambda>e. if e \<in> set (d # ds) then None else w_events w e)"
    using w'(3) w2(3) by (simp add: fun_eq_iff)
  ultimately show ?case using w'(2) by blast
qed

text \<open>Without an event, and with a wait that times out, the loop goes round for ever.\<close>

lemma client_waits:
  assumes c: "client_at w s a Q []" and quiet: "si_run S = id" and late: "\<And>v. si_wait S v = (- c_ETIMEDOUT, v)"
  shows "\<exists>w1. prog_get S s w = Inr (None, w1) \<and> client_at w1 s a Q []"
proof -
  obtain so where so: "parr_ptr (g_socks w) s = Inr a" "w_heap w a = Some so" "s_type so = FSOCK_SOCK_BASE" "0 \<le> s_efd so"
      "s_reading so \<noteq> FSOCK_SOCK_STOP_OP" "0 \<le> s_rcvqsz so" "s_rcvqsz so \<le> INT_MAX"
    and q: "queues_ok w Q" "Q (Events_of a) = []" "Sock_sync a \<notin> w_held w"
    using c by (auto simp: client_at_def)
  define w1 where "w1 = set_errno ETIMEDOUT (sock_put a (so\<lparr>s_want_efd := 1\<rparr>) w)"
  have "fsock_queue_empty (s_events so)"
    using queue_rep_empty [of "w_next w" "s_events so" "[]"]
      family_rep [of "w_next w" "queue_hdr w" Q "Events_of a" "s_events so"] q queue_hdr_Events [OF so(2)]
    by (auto simp: queues_ok_def)
  moreover have "fsock_mutex_lock (Sock_sync a) w = Inr (w\<lparr>w_held := insert (Sock_sync a) (w_held w)\<rparr>)"
    using q(3) so(2) by (intro mutex_lock_ok) (simp_all add: lock_exists_def)
  moreover have "fsock_mutex_unlock (Sock_sync a) (sock_put a (so\<lparr>s_want_efd := 1\<rparr>) (w\<lparr>w_held := insert (Sock_sync a) (w_held w)\<rparr>)) =
      Inr (sock_put a (so\<lparr>s_want_efd := 1\<rparr>) w)"
    using q(3) by (subst mutex_unlock_ok [of _ _ "w_held w"]) (simp_all add: lock_exists_def sock_put_def)
  ultimately have "prog_get S s w = Inr (None, w1)"
    using so late by (simp add: prog_get_def quiet fsock_get_event_def sock_at_def sock_efd_wait_def sock_put_def w1_def)
  moreover have "queues_ok w1 Q"
    by (rule queues_ok_frame [of "sock_put a (so\<lparr>s_want_efd := 1\<rparr>) w"])
      (use queues_ok_sock_put [OF q(1) so(2), of "so\<lparr>s_want_efd := 1\<rparr>"] in \<open>simp_all add: w1_def set_errno_def\<close>)
  then have "client_at w1 s a Q []" using so q by (auto simp: client_at_def w1_def set_errno_def sock_put_def)
  ultimately show ?thesis by blast
qed

lemma client_never_returns:
  "take_loop S s d n i w = Some r \<Longrightarrow> si_run S = id \<Longrightarrow> (\<And>v. si_wait S v = (- c_ETIMEDOUT, v)) \<Longrightarrow> i < n \<Longrightarrow> \<not> client_at w s a Q []"
proof (induction S s d n i w r rule: take_loop.raw_induct [rotated, consumes 1, case_names step])
  case (step g S s d n i w r)
  show ?case
  proof
    assume c: "client_at w s a Q []"
    obtain w1 where "prog_get S s w = Inr (None, w1)" "client_at w1 s a Q []"
      using client_waits [OF c step(3,4)] by blast
    then show False using step(1) [of S s d n i w1 r] step(2-5) by auto
  qed
qed

text \<open>
  the client of the publishing benchmark, when nobody else is at work and the events it waits for are there:
  it returns with exactly its number of events taken from the queue, oldest first, and each of them destroyed.
\<close>

theorem client_takes_its_events:
  assumes "client_at w s a Q (ds @ es)" and "si_run S = id"
  shows "\<exists>w'. take_events S s True (int (length ds)) w = Inr w' \<and> client_at w' s a (Q(Events_of a := map Event es)) es \<and>
    w_events w' = (\<lambda>e. if e \<in> set ds then None else w_events w e) \<and>
    w_log w' = w_log w @ concat (map (\<lambda>e. destroy_log (si_refs S e) (the (w_events w e)) e) ds)"
  using client_rounds [OF assms(2,1), of 0 "int (length ds)"]
  by (auto simp: take_events_def take_loop.simps [of S s True "int (length ds)" "int (length ds)"])

definition example_inbox :: "unit world" where
  "example_inbox = example_world
     \<lparr>w_heap := [0 \<mapsto> example_base\<lparr>s_events := \<lparr>q_head = Item (Event 2), q_tail = Item (Event 3)\<rparr>, s_rcvqsz := 2\<rparr>,
                 1 \<mapsto> example_conn],
      w_next := (\<lambda>_. NotInQueue)(Event 2 := Item (Event 3), Event 3 := Null), w_events := [2 \<mapsto> New_frame 9, 3 \<mapsto> New_conn 0],
      w_allocs := 4\<rparr>"

lemma example_inbox_ready: "client_at example_inbox 0 0 ((\<lambda>_. [])(Events_of 0 := [Event 2, Event 3])) [2, 3]"
proof -
  have "queues_ok example_inbox ((\<lambda>_. [])(Events_of 0 := [Event 2, Event 3]))"
    by (auto simp: queues_ok_def queue_family_def queue_hdr_def example_inbox_def example_conn_def example_sock_def
        queue_rep_def fsock_queue_init_def split: queue_id.split)
  then show ?thesis
    by (simp add: client_at_def example_inbox_def example_base_def example_sock_def example_parr_def parr_ptr_def parr_read_def
        FSOCK_SOCK_STOP_OP_def INT_MAX_def)
qed

theorem client_takes_its_events_witness:
  "\<exists>w'. take_events (example_site 0) 0 True 2 example_inbox = Inr w' \<and> w_events w' = Map.empty \<and>
    w_log w' = [Frame_term 9, Frame_free 9, Free 2, Free 3]"
  using client_takes_its_events [of example_inbox 0 0 "(\<lambda>_. [])(Events_of 0 := [Event 2, Event 3])" "[2, 3]" "[]" "example_site 0"]
    example_inbox_ready
  by (auto simp: example_site_def example_inbox_def destroy_log_def fun_eq_iff)

text \<open>
  when an event fewer comes than the client counts on it never returns: a call that timed out is
  repeated without a limit.
\<close>

theorem client_waits_for_ever:
  assumes "client_at w s a Q ds" and "si_run S = id" and "\<And>v. si_wait S v = (- c_ETIMEDOUT, v)" and "int (length ds) < n"
  shows "take_events S s True n w = Inl Hang"
proof -
  obtain w' where "take_loop S s True n 0 w = take_loop S s True n (int (length ds)) w'"
      "client_at w' s a (Q(Events_of a := [])) []"
    using client_rounds [OF assms(2), of w s a Q ds "[]" 0 n] assms(1,4) by auto
  moreover have "take_loop S s True n (int (length ds)) w' = None"
    using client_never_returns [OF _ assms(2,3,4)] calculation(2) by (cases "take_loop S s True n (int (length ds)) w'") blast+
  ultimately show ?thesis by (simp add: take_events_def)
qed

theorem client_waits_for_ever_witness:
  "take_events (example_site 0) 0 True 3 example_inbox = Inl Hang"
  by (rule client_waits_for_ever [OF example_inbox_ready]) (simp_all add: example_site_def)

end
