(* ===== verification/ReadLoop.thy ===== *)
theory ReadLoop
  imports Sock
begin

text \<open>
  The read handler that \<open>core/sock.c\<close> keeps beside the one in use: \<open>fsock_sock_read_routinecxc\<close> reads
  once and says whether to read again, and \<open>fsock_sock_read_handleryyy\<close> reads until there is nothing more.
  Nothing refers to them. One round of it does to the memory exactly what the handler in use does.
\<close>

text \<open>The result is 0, or \<open>EAGAIN\<close> when there is nothing to read, or no more. The inner \<open>rc\<close> hides the outer one.\<close>

definition fsock_sock_read_routinecxc ::
  "'x framer \<Rightarrow> nat \<Rightarrow> errno + byte list \<Rightarrow> int \<Rightarrow> 'x world \<Rightarrow> fault + (int \<times> 'x world)" where
  "fsock_sock_read_routinecxc F conn rd cnt0 w =
     rbind (sock_at w conn) (\<lambda>s.
     rbind (io_fd_of (s_rio s)) (\<lambda>rfd.
     rbind (assert_that (s_fd s = rfd)) (\<lambda>_.
     case c_malloc w of
       (None, w1) \<Rightarrow> Inr (c_EAGAIN, w1)
     | (Some cbuf, w1) \<Rightarrow>
         let w2 = (case rd of Inl e \<Rightarrow> set_errno e w1 | Inr bs \<Rightarrow> w1);
             nread = (case rd of Inl e \<Rightarrow> -1 | Inr bs \<Rightarrow> int (length bs));
             buf = (case rd of Inl e \<Rightarrow> [] | Inr bs \<Rightarrow> bs)
         in
         if nread = 0 then rbind (read_stop conn w2) (\<lambda>w3. Inr (c_EAGAIN, w3))
         else if nread < 0 \<and> (w_errno w2 = EAGAIN \<or> w_errno w2 = EWOULDBLOCK) then Inr (c_EAGAIN, w2)
         else
           let (rc, parser, frames) = frm_parse F (s_parser s) buf nread;
               w3 = sock_put conn (s\<lparr>s_parser := parser, s_in_frames := s_in_frames s @ frames\<rparr>) w2
           in
           if rc \<noteq> 0 then rbind (read_stop conn w3) (\<lambda>w4. Inr (c_EAGAIN, w4))
           else
             rbind (read_collect conn (s_in_frames s @ frames) fsock_queue_init cnt0 w3) (\<lambda>(q, cnt, w4).
             rbind (ptr_deref (s_owner s)) (\<lambda>owner.
             rbind (read_deliver owner q cnt w4) (\<lambda>w5. Inr (0, w5)))))))"

text \<open>\<open>rd n\<close> and \<open>cnt0 n\<close> are the result of the \<open>n\<close>-th read and the value \<open>cnt\<close> starts with.\<close>

partial_function (option) fsock_sock_read_handleryyy ::
  "'x framer \<Rightarrow> nat \<Rightarrow> (nat \<Rightarrow> errno + byte list) \<Rightarrow> (nat \<Rightarrow> int) \<Rightarrow> nat \<Rightarrow> 'x world \<Rightarrow> (fault + 'x world) option" where
  "fsock_sock_read_handleryyy F conn rd cnt0 n w =
     (case fsock_sock_read_routinecxc F conn (rd n) (cnt0 n) w of
        Inl f \<Rightarrow> Some (Inl f)
      | Inr (rc, w1) \<Rightarrow> if rc = 0 then fsock_sock_read_handleryyy F conn rd cnt0 (Suc n) w1 else Some (Inr w1))"

lemma read_routine_is_handler:
  "rbind (fsock_sock_read_routinecxc F conn rd cnt0 w) (\<lambda>(rc, w'). Inr w') = fsock_sock_read_handler F conn rd cnt0 w"
proof -
  have dist: "rbind (if b then m else n) g = (if b then rbind m g else rbind n g)"
    "rbind (case p of None \<Rightarrow> m | Some a \<Rightarrow> h a) g = (case p of None \<Rightarrow> rbind m g | Some a \<Rightarrow> rbind (h a) g)"
    for b m n p and g :: "int \<times> 'a world \<Rightarrow> fault + 'a world" and h :: "nat \<Rightarrow> fault + int \<times> 'a world"
    by (simp_all split: option.splits)
  have unit: "rbind m Inr = m" for m :: "fault + 'a world" by (cases m) simp_all
  show ?thesis unfolding fsock_sock_read_routinecxc_def fsock_sock_read_handler_def
    by (simp add: rbind_assoc Let_def split_def dist unit option.case_eq_if cong del: if_weak_cong)
qed

text \<open>So the loop is the handler, run for one read after the other until a round returns \<open>EAGAIN\<close>.\<close>

fun read_each ::
  "'x framer \<Rightarrow> nat \<Rightarrow> (nat \<Rightarrow> errno + byte list) \<Rightarrow> (nat \<Rightarrow> int) \<Rightarrow> nat list \<Rightarrow> 'x world \<Rightarrow> fault + 'x world" where
  "read_each F conn rd cnt0 [] w = Inr w"
| "read_each F conn rd cnt0 (n # ns) w = rbind (fsock_sock_read_handler F conn (rd n) (cnt0 n) w) (read_each F conn rd cnt0 ns)"

lemma read_handleryyy_is_handlers:
  "fsock_sock_read_handleryyy F conn rd cnt0 n w = Some r \<Longrightarrow> \<exists>m > n. r = read_each F conn rd cnt0 [n..<m] w"
proof (induction F conn rd cnt0 n w r rule: fsock_sock_read_handleryyy.raw_induct [rotated, consumes 1, case_names step])
  case (step g F conn rd cnt0 n w r)
  note h = read_routine_is_handler [of F conn "rd n" "cnt0 n" w, symmetric]
  show ?case
  proof (cases "fsock_sock_read_routinecxc F conn (rd n) (cnt0 n) w")
    case (Inl f)
    then have "r = read_each F conn rd cnt0 [n..<Suc n] w" using step(2) h by (cases r) auto
    then show ?thesis by blast
  next
    case (Inr p)
    obtain rc w1 where p: "p = (rc, w1)" by fastforce
    show ?thesis
    proof (cases "rc = 0")
      case True
      then have "g F conn rd cnt0 (Suc n) w1 = Some r" using step(2) Inr p by simp
      then obtain m where m: "m > Suc n" "r = read_each F conn rd cnt0 [Suc n..<m] w1" using step(1) by blast
      then have "r = read_each F conn rd cnt0 [n..<m] w" using h Inr p by (simp add: upt_rec [of n m])
      then show ?thesis using m(1) Suc_lessD by blast
    next
      case False
      then have "r = read_each F conn rd cnt0 [n..<Suc n] w" using step(2) h Inr p by auto
      then show ?thesis by blast
    qed
  qed
qed

end
