(* ===== verification/Diagnostics.thy ===== *)
theory Diagnostics
  imports Support Posix
begin

text \<open>
  The checking macros of \<open>utils/err.h\<close> with the line they print before the process ends. In the other theories a failed
  check is the fault \<open>Abort\<close>; here it is the text, and forgetting the text gives that fault.
\<close>

subsection \<open>Ending the process\<close>

text \<open>What a check leaves: \<open>Inl\<close> what was written to \<open>stderr\<close> before \<open>abort\<close>, or \<open>Inr\<close> when it passed.\<close>

type_synonym check = "string + unit"

text \<open>The place of a check: \<open>__FILE__\<close> and \<open>__LINE__\<close>.\<close>

record place =
  pl_file :: string
  pl_line :: nat

definition newline :: string where
  "newline = [CHR 0x0A]"

definition show_place :: "place \<Rightarrow> string" where
  "show_place p = '' ('' @ pl_file p @ '':'' @ show_nat (pl_line p) @ '')'' @ newline"

text \<open>The hint to the compiler does not change the value.\<close>

definition nn_slow :: "bool \<Rightarrow> bool" where
  "nn_slow x = x"

definition nn_err_abort :: "string \<Rightarrow> check" where
  "nn_err_abort printed = Inl printed"

definition nn_err_errno :: "posix_err \<Rightarrow> posix_err" where
  "nn_err_errno errno = errno"

subsection \<open>The macros\<close>

text \<open>\<open>text\<close> is the expression as it stands in the source, \<open>#x\<close>.\<close>

definition nn_assert :: "place \<Rightarrow> string \<Rightarrow> bool \<Rightarrow> check" where
  "nn_assert p txt x =
     (if nn_slow (\<not> x) then nn_err_abort (''Assertion failed: '' @ txt @ show_place p) else Inr ())"

definition nn_assert_state :: "place \<Rightarrow> int \<Rightarrow> string \<Rightarrow> int \<Rightarrow> check" where
  "nn_assert_state p state txt state_name =
     (if nn_slow (state \<noteq> state_name)
      then nn_err_abort (''Assertion failed: '' @ show_int state @ '' == '' @ txt @ show_place p) else Inr ())"

definition alloc_assert :: "place \<Rightarrow> 'a option \<Rightarrow> check" where
  "alloc_assert p x = (if nn_slow (x = None) then nn_err_abort (''Out of memory'' @ show_place p) else Inr ())"

text \<open>The text and the number of an error; \<open>num\<close> gives the number of a name.\<close>

definition show_error :: "string \<Rightarrow> int \<Rightarrow> place \<Rightarrow> string" where
  "show_error msg n p = msg @ '' ['' @ show_int n @ '']'' @ show_place p"

definition errnum_assert ::
  "bool \<Rightarrow> (posix_err \<Rightarrow> string) \<Rightarrow> (posix_err \<Rightarrow> int) \<Rightarrow> place \<Rightarrow> bool \<Rightarrow> posix_err \<Rightarrow> check" where
  "errnum_assert windows strerror num p cond err =
     (if nn_slow (\<not> cond) then nn_err_abort (show_error (nn_err_strerror windows strerror err) (num err) p) else Inr ())"

definition errno_assert ::
  "bool \<Rightarrow> (posix_err \<Rightarrow> string) \<Rightarrow> (posix_err \<Rightarrow> int) \<Rightarrow> posix_err \<Rightarrow> place \<Rightarrow> bool \<Rightarrow> check" where
  "errno_assert windows strerror num errno p x =
     (if nn_slow (\<not> x) then nn_err_abort (show_error (nn_err_strerror windows strerror errno) (num errno) p) else Inr ())"

text \<open>
  \<open>message n size\<close> is \<open>FormatMessageA\<close> for the code \<open>n\<close> and a buffer of \<open>size\<close> bytes: the text it leaves there, or \<open>None\<close> when
  it returns 0, which ends the process too.
\<close>

definition nn_win_error :: "(int \<Rightarrow> nat \<Rightarrow> string option) \<Rightarrow> place \<Rightarrow> int \<Rightarrow> nat \<Rightarrow> string + string" where
  "nn_win_error message p err bufsize =
     (case message err bufsize of
        Some t \<Rightarrow> Inr t
      | None \<Rightarrow> (case nn_assert p ''rc'' False of Inl printed \<Rightarrow> Inl printed | Inr u \<Rightarrow> Inr []))"

definition win_assert :: "(int \<Rightarrow> nat \<Rightarrow> string option) \<Rightarrow> place \<Rightarrow> int \<Rightarrow> place \<Rightarrow> bool \<Rightarrow> check" where
  "win_assert message perr code p x =
     (if nn_slow (\<not> x)
      then (case nn_win_error message perr code 256 of
              Inl printed \<Rightarrow> Inl printed
            | Inr errstr \<Rightarrow> nn_err_abort (show_error errstr code p))
      else Inr ())"

definition wsa_assert :: "(int \<Rightarrow> nat \<Rightarrow> string option) \<Rightarrow> place \<Rightarrow> int \<Rightarrow> place \<Rightarrow> bool \<Rightarrow> check" where
  "wsa_assert message perr wsa_code p x =
     (if nn_slow (\<not> x)
      then (case nn_win_error message perr wsa_code 256 of
              Inl printed \<Rightarrow> Inl printed
            | Inr errstr \<Rightarrow> nn_err_abort (show_error errstr wsa_code p))
      else Inr ())"

definition nn_fsm_error :: "place \<Rightarrow> string \<Rightarrow> int \<Rightarrow> int \<Rightarrow> int \<Rightarrow> check" where
  "nn_fsm_error p msg state src action =
     nn_err_abort (msg @ '': state='' @ show_int state @ '' source='' @ show_int src @ '' action='' @ show_int action @ show_place p)"

definition nn_fsm_bad_action :: "place \<Rightarrow> int \<Rightarrow> int \<Rightarrow> int \<Rightarrow> check" where
  "nn_fsm_bad_action p state src action = nn_fsm_error p ''Unexpected action'' state src action"

definition nn_fsm_bad_state :: "place \<Rightarrow> int \<Rightarrow> int \<Rightarrow> int \<Rightarrow> check" where
  "nn_fsm_bad_state p state src action = nn_fsm_error p ''Unexpected state'' state src action"

definition nn_fsm_bad_source :: "place \<Rightarrow> int \<Rightarrow> int \<Rightarrow> int \<Rightarrow> check" where
  "nn_fsm_bad_source p state src action = nn_fsm_error p ''Unexpected source'' state src action"

subsection \<open>What the other theories keep of a check\<close>

definition untold :: "check \<Rightarrow> fault + unit" where
  "untold c = (case c of Inl printed \<Rightarrow> Inl Abort | Inr u \<Rightarrow> Inr u)"

lemmas check_defs = nn_assert_def nn_assert_state_def alloc_assert_def errnum_assert_def errno_assert_def win_assert_def wsa_assert_def
  nn_win_error_def nn_err_abort_def nn_slow_def untold_def

lemma checks_untold:
  "untold (nn_assert p txt x) = assert_that x"
  "untold (nn_assert_state p st txt st') = assert_that (st = st')"
  "untold (alloc_assert p a) = assert_that (a \<noteq> None)"
  "untold (errnum_assert win strerror num p x err) = assert_that x"
  "untold (errno_assert win strerror num err p x) = assert_that x"
  "untold (win_assert message perr code p x) = assert_that x"
  "untold (wsa_assert message perr code p x) = assert_that x"
  by (cases x; simp add: check_defs split: option.split)+

text \<open>A printed line ends with the place, and two places are never printed alike.\<close>

lemma show_place_inj:
  assumes "show_place p = show_place p'" and "CHR '':'' \<notin> set (pl_file p)" and "CHR '':'' \<notin> set (pl_file p')"
  shows "p = p'"
proof -
  have digits: "CHR '':'' \<notin> set (show_nat n)" for n using show_nat_digits [of "CHR '':''" n] by auto
  have eq: "pl_file p @ CHR '':'' # show_nat (pl_line p) = pl_file p' @ CHR '':'' # show_nat (pl_line p')"
    using assms(1) by (simp add: show_place_def newline_def)
  have "pl_file p = pl_file p' \<and> show_nat (pl_line p) = show_nat (pl_line p')"
    using eq assms(2,3) by (metis append_Cons_eq_iff digits)
  then show ?thesis using show_nat_inj by (cases p; cases p') auto
qed

end
