(* ===== verification/Nanomsg.thy ===== *)
theory Nanomsg
  imports Programs Diagnostics
begin

text \<open>
  The programs beside the library that do not call it: a benchmark of nanomsg, \<open>perf/remote_thrcc.c\<close>, and three that print one line.
\<close>

subsection \<open>The benchmark of nanomsg\<close>

text \<open>The calls of nanomsg on a state of any type, with their results as the program sees them.\<close>

record 'k nanomsg =
  nn_socket :: "'k \<Rightarrow> int \<times> 'k"
  nn_connect :: "int \<Rightarrow> string \<Rightarrow> 'k \<Rightarrow> int \<times> 'k"
  nn_send :: "int \<Rightarrow> 8 word list \<Rightarrow> int \<Rightarrow> 'k \<Rightarrow> int \<times> 'k"
  nn_close :: "int \<Rightarrow> 'k \<Rightarrow> int \<times> 'k"

text \<open>\<open>memset (buf, 111, sz)\<close>.\<close>

definition nn_message :: "64 word \<Rightarrow> 8 word list" where
  "nn_message sz = replicate (unat sz) 111"

definition nn_put :: "'k nanomsg \<Rightarrow> int \<Rightarrow> 64 word \<Rightarrow> 'k \<Rightarrow> fault + 'k" where
  "nn_put N s sz k =
     (let (nbytes, k1) = nn_send N s (nn_message sz) 0 k
      in rbind (assert_that (nbytes = sint (ucast sz :: 32 word))) (\<lambda>_. Inr k1))"

text \<open>\<open>msg_size\<close> and \<open>count\<close> are what \<open>atoi\<close> makes of the arguments, and \<open>alloc\<close> says whether the buffer can be allocated.\<close>

definition remote_thrcc ::
  "'k nanomsg \<Rightarrow> (64 word \<Rightarrow> bool) \<Rightarrow> int \<Rightarrow> string \<Rightarrow> int \<Rightarrow> int \<Rightarrow> 'k \<Rightarrow> fault + (int \<times> 'k)" where
  "remote_thrcc N alloc argc connect_to msg_size count k =
     (if argc \<noteq> 4 then Inr (1, k) else
      let sz = word_of_int msg_size;
          (s, k1) = nn_socket N k
      in
      rbind (assert_that (s \<noteq> -1)) (\<lambda>_.
      let (rc, k2) = nn_connect N s connect_to k1 in
      rbind (assert_that (rc \<ge> 0)) (\<lambda>_.
      rbind (assert_that (alloc sz)) (\<lambda>_.
      let (nbytes, k3) = nn_send N s [] 0 k2 in
      rbind (assert_that (nbytes = 0)) (\<lambda>_.
      rbind (c_for count (nn_put N s sz) 0 k3) (\<lambda>k4.
      let (rc, k5) = nn_close N s k4 in
      rbind (assert_that (rc = 0)) (\<lambda>_. Inr (0, k5))))))))"

text \<open>A counted loop whose body keeps to a plan.\<close>

lemma c_for_runs:
  assumes "\<And>j s. i \<le> j \<Longrightarrow> j < n \<Longrightarrow> P j s \<Longrightarrow> \<exists>s'. body s = Inr s' \<and> P (j + 1) s'" and "0 \<le> i" and "i \<le> n" and "n \<le> INT_MAX" and "P i s"
  shows "\<exists>s'. c_for n body i s = Inr s' \<and> P n s'"
  using assms
proof (induction "nat (n - i)" arbitrary: i s)
  case 0
  then show ?case by (subst c_for.simps) simp
next
  case (Suc m)
  then have lt: "i < n" by simp
  obtain s1 where s1: "body s = Inr s1" "P (i + 1) s1" using Suc.prems(1) [of i s] Suc.prems(5) lt by auto
  have "c_int (i + 1) = Inr (i + 1)" using Suc.prems(2,4) lt by (simp add: c_int_in_range INT_MAX_def)
  moreover obtain s' where "c_for n body (i + 1) s1 = Inr s' \<and> P n s'"
    using Suc.hyps(1) [of "i + 1" s1] Suc.hyps(2) Suc.prems(1,2,4) s1(2) lt by force
  ultimately show ?case using s1(1) lt by (subst c_for.simps) auto
qed

text \<open>
  With a nanomsg that takes every message whole, the program sends one empty message and then its number of messages,
  each of as many bytes 111 as it was told, and closes the socket it opened.
\<close>

lemma remote_thrcc_sends:
  assumes "nn_socket N k = (s, k1)" "s \<noteq> -1" "nn_connect N s addr k1 = (rc, k2)" "0 \<le> rc" "alloc (word_of_int len)"
    and len: "0 \<le> len" "len \<le> INT_MAX" and cnt: "0 \<le> count" "count \<le> INT_MAX"
    and sends: "\<And>m j. sent (snd (nn_send N s m 0 j)) = sent j @ [m]"
      "\<And>m j. int (length m) \<le> INT_MAX \<Longrightarrow> fst (nn_send N s m 0 j) = int (length m)"
    and closes: "\<And>j. fst (nn_close N s j) = 0" "\<And>j. sent (snd (nn_close N s j)) = sent j"
  shows "\<exists>k'. remote_thrcc N alloc 4 addr len count k = Inr (0, k') \<and>
    sent k' = sent k2 @ [] # replicate (nat count) (replicate (nat len) 111)"
proof -
  let ?sz = "word_of_int len :: 64 word" and ?m = "replicate (nat len) (111 :: 8 word)"
  obtain z k3 where k3: "nn_send N s [] 0 k2 = (z, k3)" by fastforce
  have z: "z = 0" "sent k3 = sent k2 @ [[]]" using sends(2) [of "[]" k2] sends(1) [of "[]" k2] k3 by (simp_all add: INT_MAX_def)
  have put: "\<exists>j'. nn_put N s ?sz j = Inr j' \<and> sent j' = sent j @ [?m]" for j
  proof -
    have m: "nn_message ?sz = ?m" using len by (simp add: nn_message_def INT_MAX_def unsigned_of_int take_bit_int_eq_self)
    have "sint (ucast ?sz :: 32 word) = len"
      using len by (simp add: INT_MAX_def sint_uint ucast_eq word_of_int_inverse signed_take_bit_int_eq_self unsigned_of_int take_bit_int_eq_self)
    then show ?thesis using sends(2) [of ?m j] sends(1) [of ?m j] len
      by (cases "nn_send N s ?m 0 j") (simp add: nn_put_def m)
  qed
  have "\<exists>k4. c_for count (nn_put N s ?sz) 0 k3 = Inr k4 \<and> sent k4 = sent k3 @ replicate (nat count) ?m"
    by (rule c_for_runs [where P = "\<lambda>i j. sent j = sent k3 @ replicate (nat i) ?m"])
      (use put cnt in \<open>fastforce simp: nat_add_distrib replicate_append_same\<close>)+
  then obtain k4 where k4: "c_for count (nn_put N s ?sz) 0 k3 = Inr k4" "sent k4 = sent k3 @ replicate (nat count) ?m" by blast
  obtain r k5 where "nn_close N s k4 = (r, k5)" by fastforce
  then show ?thesis
    using assms(1-5) k3 z k4 closes(1) [of k4] closes(2) [of k4] by (simp add: remote_thrcc_def Let_def)
qed

subsection \<open>Programs that print a line\<close>

text \<open>The exit status and what is printed.\<close>

definition perf_ex_main :: "int \<times> string" where
  "perf_ex_main = (0, ''perf'' @ newline)"

definition fcat_main :: "int \<times> string" where
  "fcat_main = (0, ''Hello, world!'' @ newline)"

definition feature1_main :: "int \<times> string" where
  "feature1_main = (0, ''PASS'' @ newline)"

end
