(* ===== verification/Spec2Isabelle.thy ===== *)
theory Spec2Isabelle
  imports Parr Queue Anet Async Flow Sending Writing Descriptors Signals EfdWin Worker Support Jobs Accepting Connections Closing Locks Wakeup Sleeping Programs ReadLoop Nanomsg Invariants
begin

text \<open>
  A model of fsocket, a library that sends and receives frames over TCP with a few worker
  threads, and the theorems about it.

  \<^bold>\<open>The program.\<close> A process opens base sockets (\<open>fsock_socket\<close>). A base socket owns binds, which listen,
  and connections, which were accepted or made by \<open>fsock_connect\<close>. Every bind and connection
  belongs to one of four worker threads (\<open>core/global.c\<close>), each with a libev loop and a queue of tasks
  (\<open>utils/thread.c\<close>). The application talks to a worker by putting a task into its queue and
  waking the loop; the worker takes the whole queue and runs it. libev calls the handlers of
  \<open>core/sock.c\<close> in the worker: accepting, reading (frames become events of the base socket, whose
  reader is signalled through an event descriptor, \<open>utils/efd.c\<close>) and writing (the connection's
  list of frames goes to the kernel, and senders waiting for room are woken). Reading stops for all
  connections when the events pass the high water mark, and starts again when the application has
  taken enough of them; sending stops and starts with the frames not yet written.

  \<^bold>\<open>How the model represents it.\<close> The state is the record \<open>world\<close> of the theory World: the sockets by
  address, the links of all queue items, the four threads, the mutexes the running call holds, the
  events and tasks that were allocated, and the log of the calls made to libev, pthreads and the
  kernel. An operation is a function from the state to \<open>fault + result\<close>, where a fault is an abort, a
  failed assertion, a wild or NULL dereference, an access out of bounds, an overflow of \<open>int\<close>, a
  deadlock or a loop that does not end; an error return of the C function is a result. Loops with no
  bound of their own are partial functions, whose value is \<open>None\<close> when they do not end.

  \<^bold>\<open>The theories and the code.\<close>
    Prelude: faults, the sequencing \<open>rbind\<close>, \<open>int\<close> arithmetic with overflow as a fault.
    Parr: \<open>utils/parr.c\<close>, the array of pointers with holes, its block as a list of cells that may be
      uninitialised, \<open>realloc\<close> as an argument, the sizes as 64 bit words.
    Queue: \<open>utils/queue.c\<close>, queues over one store of next pointers; the locale \<open>fifo_queue\<close> states what
      a client relies on, and is interpreted on the pointer queue here and, in Async, on the queue a
      worker has taken.
    Posix: the system calls the code makes, as a record of functions on a kernel state of any type.
    Anet, Descriptors: \<open>utils/anet.c\<close>, over that record; which descriptors are open after a call.
    Efd, Signals: \<open>utils/efd.c\<close> with its eventfd, pipe and socket pair variants and \<open>utils/closefd.c\<close>; the
      locales \<open>signal_channel\<close> and \<open>idle_safe_channel\<close>.
    EfdWin: \<open>utils/efd_win.inc\<close>, over a record of the Windows calls.
    World: \<open>core/sock.h\<close>, \<open>utils/thread.h\<close>, \<open>utils/mutex.c\<close>, \<open>utils/glock.c\<close>: the state and the mutexes. Locks: the
      mutexes with their owners, for several threads, and the Windows halves of \<open>utils/mutex.c\<close> and \<open>utils/glock.c\<close>.
    Thread, Async: \<open>utils/thread.c\<close>. Workers: the array of threads of \<open>core/global.c\<close>.
    Sock: \<open>core/sock.c\<close>; ReadLoop: the second read handler it keeps, which is not used. Global: \<open>fsock.h\<close> and \<open>core/global.c\<close>.
    Worker: \<open>utils/worker.c\<close>, which is not built. Support: \<open>utils/err.c\<close>, \<open>utils/stopwatch.c\<close>, the
      Windows half of \<open>utils/efd.c\<close> and the error numbers of \<open>fsock.h\<close>.
    Diagnostics: the checks of \<open>utils/err.h\<close> with the lines they print. Nanomsg: \<open>perf/remote_thrcc.c\<close>, a program of another
      library, and the programs that print one line.
    Programs: the benchmarks under \<open>perf/\<close> and \<open>example/example.c\<close>, as functions over the public interface.
    Example: one small state and framer on which witnesses are evaluated.
  Scheduling, Reading, Flow, Sending, Writing, Jobs, Accepting and Connections prove what the operations do;
  Slots, Teardown and Closing what closing a socket does; Wakeup and Sleeping interleave one reader, and one sender, with
  the other threads;
  Handles, Ensures, Outcomes, Handling, Calls and Invariants prove what all operations keep.

  \<^bold>\<open>What the theorems show.\<close>
    Reading and Flow: frames reach the application in order and a waiting reader is signalled; the
      reads of all connections stop above the mark and start again below it.
    Sending and Writing: a frame is queued, its thread is told to write and the sender's count goes up;
      the write handler empties the list, lowers the count and wakes the senders.
    Jobs: a worker runs its jobs once, in order, up to the stop job; a connection given to a
      thread is read from after its next round.
    Accepting: an accepted connection is stored twice, given to the next thread and read from; when it cannot be stored its
      descriptor is lost.
    Connections: a lost connection refuses frames, in all states reached from there; which connection \<open>fsock_sendc\<close> picks.
    Slots, Teardown, Closing: the locale \<open>slot_table\<close> is what the teardown needs of an array of pointers, and holds for
      arrays of at most ten. Closing a base socket visits its whole tree: every socket is freed and every
      descriptor closed once; the watchers of its connections stay; with more than ten
      connections the array is read beyond its end.
    Locks: each thread's share of an interleaved run of calls on the mutexes is a run of the model in which a call knows only
      what it holds; the Windows variant agrees where the POSIX one is defined; the window in which the global
      lock of Windows is entered before it is initialised.
    Wakeup: \<open>fsock_get_event\<close> is cut into the sections it runs with and without the mutex, which are interleaved with those of
      the workers by the step relation \<open>wait_step\<close>: a reader that goes to sleep is woken when an event comes and finds it, as
      long as no wait times out; after a wait that timed out a signal is left that ends the process later, and of two readers
      the second to take a signal ends it at once.
    Sleeping: the same for a sender that waits for room: it is woken when no room is made between its test and its wait, and
      otherwise, if nobody else sends, never. A wait that returns without a broadcast is not a step.
    Programs: what the benchmarks rely on: the value of a function without \<open>return\<close>, and that no event is ever lost.
    Invariants: calls and handlers as the step relation \<open>lib_step\<close>; in all reachable states no mutex is left
      locked, there are four workers, the fields of the sockets are in their types, the number of an open socket leads to a
      living base socket and to no other one, owners are base sockets and binds and connections are not; and no call locks a
      mutex that it holds or gives back one that it does not hold (sending without the internal flag \<open>FSOCK_SND_UNSAFE\<close>, and
      to several connections while the number of the socket is kept). The invariant behind this gives every
      address a role (Outcomes), of which a call knows what the pointers it followed tell; every operation
      has one rule for every path through it (Ensures, Outcomes, Handling, Calls), over what the arrays of
      pointers hold (Handles).
    Parr, Queue: iteration is a fold over the occupied slots; push, pop, remove and splice act on
      the list of items; the states the array gets into when holes are filled and when it shrinks.
    Descriptors, Signals, Worker: no descriptor is leaked where the code closes it on
      its error paths, and the one path where it is; exact reads and writes; signals collapse; formatted addresses
      are read back.
    EfdWin: the critical section is left on every path; the paths that report success without a connection.
  Where the code does not do what it means to, a theorem states what it does: the uninitialised
  counter of the read handler, the stale end of the list after a partial write, the write handler that spins on a
  kernel that blocks, the slot that is read before it was written, the shrinking that reads
  beyond the block, the bind that \<open>fsock_sendc\<close> ignores, the wait that ends the process.

  \<^bold>\<open>Bounds.\<close> \<open>fsock_sock_term\<close> and its two loops call each other and take one number that bounds the depth of
  the calls together with the rounds of the loops; running out of it is the fault \<open>Hang\<close>. The theorem on closing
  gives a number that is enough, the binds and the connections of the base socket and four more; any
  call that ends without running out does the same with every larger number. All other loops are structural, have a
  termination proof, or are partial functions.

  \<^bold>\<open>What the model leaves to arguments.\<close> The framer library (\<open>framer\<close>), the kernel's and libev's answers, whether
  an allocation succeeds, the value of an uninitialised variable, the result of a function that
  ends without \<open>return\<close>, and what the other threads do while a call waits or writes without its mutex.
  Other threads otherwise run between calls, not inside them, except in Wakeup and Sleeping, where they run
  between the sections of a call.

  \<^bold>\<open>Not modelled.\<close> The headers \<open>utils/int.h\<close> and \<open>utils/fd.h\<close>, which only name types, and the assertion at compile time
  of \<open>utils/err.h\<close>. What the library and the benchmarks print and how long they sleep; the \<open>main\<close>
  functions that only start threads and wait for them.
\<close>

end
